(* ===== verification/Prelude.thy ===== *)
theory Prelude
  imports Main "HOL-Library.Word" "HOL-Library.AList" "HOL-Library.Multiset"
begin

text \<open>
  What every component shares: the machine integers of the code, the result type of fallible
  operations, the model of \<open>std::collections::HashMap\<close> with String keys (an association list
  without duplicate keys, iterated in an order the model does not fix), and the interface
  locales \<open>string_map\<close> and \<open>string_hash_map\<close> under which the loops over maps are
  reasoned about.
\<close>

section \<open>Machine integers, results\<close>

type_synonym u8 = "8 word"
type_synonym u16 = "16 word"
type_synonym u32 = "32 word"
type_synonym u64 = "64 word"

text \<open>An \<open>f64\<close> is carried as its 64 bits; the program never computes with one itself.\<close>

type_synonym f64 = "64 word"

datatype err =
    Io string
  | Serde
  | Utf8
  | Other string

type_synonym 'a result = "err + 'a"

text \<open>\<open>u64::saturating_sub\<close>.\<close>

definition sat_sub :: "u64 \<Rightarrow> u64 \<Rightarrow> u64" where
  "sat_sub a b = (if a < b then 0 else a - b)"

lemma unat_sat_sub [simp]: "unat (sat_sub a b) = unat a - unat b"
  by (auto simp: sat_sub_def unat_sub word_le_nat_alt word_less_nat_alt not_less)

lemma sat_sub_zero_iff: "sat_sub a b = 0 \<longleftrightarrow> a \<le> b"
  by (auto simp: sat_sub_def not_less)

lemma find_SomeD: "find P xs = Some x \<Longrightarrow> x \<in> set xs \<and> P x"
  by (induction xs) (auto split: if_splits)

named_theorems hm_eval \<open>definitions of the map operations, for the evaluation of closed terms\<close>

section \<open>Hash maps with String keys\<close>

type_synonym 'v hmap = "(string \<times> 'v) list"

definition hm_get :: "'v hmap \<Rightarrow> string \<Rightarrow> 'v option" where [hm_eval]:
  "hm_get m k = map_of m k"

definition hm_keys :: "'v hmap \<Rightarrow> string list" where [hm_eval]:
  "hm_keys m = map fst m"

definition hm_values :: "'v hmap \<Rightarrow> 'v list" where [hm_eval]:
  "hm_values m = map snd m"

definition hm_insert :: "string \<Rightarrow> 'v \<Rightarrow> 'v hmap \<Rightarrow> 'v hmap" where [hm_eval]:
  "hm_insert k v m = AList.update k v m"

definition hm_remove :: "string \<Rightarrow> 'v hmap \<Rightarrow> 'v hmap" where [hm_eval]:
  "hm_remove k m = AList.delete k m"

text \<open>\<open>entry(k).and_modify(f)\<close>: nothing happens where the key is absent.\<close>

definition hm_modify :: "string \<Rightarrow> ('v \<Rightarrow> 'v) \<Rightarrow> 'v hmap \<Rightarrow> 'v hmap" where [hm_eval]:
  "hm_modify k f m = map (\<lambda>(k', v). (k', if k' = k then f v else v)) m"

text \<open>\<open>entry(k).or_insert(v)\<close>: an existing entry is kept.\<close>

definition hm_or_insert :: "string \<Rightarrow> 'v \<Rightarrow> 'v hmap \<Rightarrow> 'v hmap" where [hm_eval]:
  "hm_or_insert k v m = (case map_of m k of None \<Rightarrow> AList.update k v m | Some _ \<Rightarrow> m)"

definition hm_wf :: "'v hmap \<Rightarrow> bool" where [hm_eval]:
  "hm_wf m \<longleftrightarrow> distinct (map fst m)"

lemma hm_get_Nil [simp]: "hm_get [] k = None"
  by (simp add: hm_get_def)

lemma hm_get_insert [simp]: "hm_get (hm_insert k v m) = (hm_get m)(k \<mapsto> v)"
  by (rule ext) (simp add: hm_get_def hm_insert_def update_conv')

lemma hm_get_remove [simp]: "hm_get (hm_remove k m) = (hm_get m)(k := None)"
  by (rule ext) (simp add: hm_get_def hm_remove_def delete_conv')

lemma hm_get_modify [simp]:
  "hm_get (hm_modify k f m) = (hm_get m)(k := map_option f (hm_get m k))"
  by (rule ext, induction m) (auto simp: hm_get_def hm_modify_def)

lemma hm_get_or_insert [simp]:
  "hm_get (hm_or_insert k v m) =
     (hm_get m)(k := Some (case hm_get m k of None \<Rightarrow> v | Some w \<Rightarrow> w))"
  by (rule ext) (auto simp: hm_get_def hm_or_insert_def update_conv' split: option.splits)

lemma hm_wf_Nil [simp]: "hm_wf []"
  by (simp add: hm_wf_def)

lemma hm_wf_insert [simp]: "hm_wf m \<Longrightarrow> hm_wf (hm_insert k v m)"
  by (simp add: hm_wf_def hm_insert_def distinct_update)

lemma hm_wf_remove [simp]: "hm_wf m \<Longrightarrow> hm_wf (hm_remove k m)"
  by (simp add: hm_wf_def hm_remove_def distinct_delete)

lemma hm_keys_modify [simp]: "hm_keys (hm_modify k f m) = hm_keys m"
  by (induction m) (auto simp: hm_keys_def hm_modify_def)

lemma hm_wf_modify [simp]: "hm_wf (hm_modify k f m) = hm_wf m"
  using hm_keys_modify [of k f m] by (simp add: hm_wf_def hm_keys_def)

lemma hm_wf_or_insert [simp]: "hm_wf m \<Longrightarrow> hm_wf (hm_or_insert k v m)"
  by (auto simp: hm_wf_def hm_or_insert_def distinct_update split: option.splits)

lemma hm_keys_iff: "k \<in> set (hm_keys m) \<longleftrightarrow> hm_get m k \<noteq> None"
  by (simp add: hm_keys_def hm_get_def map_of_eq_None_iff)

lemma hm_dom: "dom (hm_get m) = set (hm_keys m)"
  by (auto simp: hm_keys_iff)

lemma hm_entry_iff: "hm_wf m \<Longrightarrow> (k, v) \<in> set m \<longleftrightarrow> hm_get m k = Some v"
  by (simp add: hm_wf_def hm_get_def)

lemma hm_get_entry: "hm_get m k = Some v \<Longrightarrow> (k, v) \<in> set m"
  by (simp add: hm_get_def map_of_SomeD)

lemma hm_values_iff: "hm_wf m \<Longrightarrow> v \<in> set (hm_values m) \<longleftrightarrow> (\<exists>k. hm_get m k = Some v)"
  by (force simp: hm_values_def hm_entry_iff [symmetric])

lemma hm_remove_length: "hm_get m k \<noteq> None \<Longrightarrow> length (hm_remove k m) < length m"
  unfolding hm_get_def hm_remove_def
  by (induction m) (auto split: if_splits simp: less_Suc_eq_le length_delete_le)

section \<open>Iteration order\<close>

text \<open>
  The order in which a Rust \<open>HashMap\<close> is iterated is not specified. Every operation of the
  program that iterates takes a \<open>hash_order\<close>: a function that arranges the keys of the map at
  hand. The theorems hold for all of them; \<open>lawful_order\<close> says that it arranges the keys and
  does not drop or invent any.
\<close>

type_synonym hash_order = "string list \<Rightarrow> string list"

definition lawful_order :: "hash_order \<Rightarrow> bool" where
  "lawful_order ord \<longleftrightarrow> (\<forall>ks. mset (ord ks) = mset ks)"

definition hm_iter :: "hash_order \<Rightarrow> 'v hmap \<Rightarrow> (string \<times> 'v) list" where [hm_eval]:
  "hm_iter ord m =
     map (\<lambda>k. (k, the (map_of m k))) (filter (\<lambda>k. map_of m k \<noteq> None) (ord (map fst m)))"

lemma lawful_order_id: "lawful_order (\<lambda>ks. ks)"
  by (simp add: lawful_order_def)

lemma lawful_order_set: "lawful_order ord \<Longrightarrow> set (ord ks) = set ks"
  by (metis lawful_order_def set_mset_mset)

lemma lawful_order_distinct: "lawful_order ord \<Longrightarrow> distinct (ord ks) = distinct ks"
  by (metis lawful_order_def mset_eq_imp_distinct_iff)

lemma map_fst_hm_iter: "map fst (hm_iter ord m) = filter (\<lambda>k. map_of m k \<noteq> None) (ord (map fst m))"
  by (simp add: hm_iter_def comp_def)

lemma hm_iter_get: "(k, v) \<in> set (hm_iter ord m) \<Longrightarrow> hm_get m k = Some v"
  by (auto simp: hm_iter_def hm_get_def)

lemma hm_iter_iff:
  assumes "lawful_order ord"
  shows "(k, v) \<in> set (hm_iter ord m) \<longleftrightarrow> hm_get m k = Some v"
  using assms by (force simp: hm_iter_def hm_get_def lawful_order_set dest: map_of_SomeD)

lemma distinct_hm_iter: "lawful_order ord \<Longrightarrow> hm_wf m \<Longrightarrow> distinct (map fst (hm_iter ord m))"
  by (simp add: map_fst_hm_iter hm_wf_def lawful_order_distinct)

lemma map_of_hm_iter:
  assumes "lawful_order ord" and "hm_wf m"
  shows "map_of (hm_iter ord m) = hm_get m"
proof
  fix k
  show "map_of (hm_iter ord m) k = hm_get m k"
    using assms by (cases "hm_get m k")
      (auto simp: map_of_eq_None_iff hm_iter_iff distinct_hm_iter dest: hm_iter_get)
qed

lemma set_hm_iter: "lawful_order ord \<Longrightarrow> hm_wf m \<Longrightarrow> set (hm_iter ord m) = set m"
  by (auto simp: hm_iter_iff hm_entry_iff)

section \<open>The interfaces\<close>

text \<open>
  What a map keyed by Strings promises to code that inserts and looks up: MemoryStore asks it of
  DashMap, the master of HashMap.
\<close>

locale string_map =
  fixes look :: "'m \<Rightarrow> string \<Rightarrow> 'v option"
    and put :: "string \<Rightarrow> 'v \<Rightarrow> 'm \<Rightarrow> 'm"
    and entries :: "'m \<Rightarrow> (string \<times> 'v) list"
    and wf :: "'m \<Rightarrow> bool"
  assumes look_put: "wf m \<Longrightarrow> look (put k v m) = (look m)(k \<mapsto> v)"
    and wf_put: "wf m \<Longrightarrow> wf (put k v m)"
    and entries_look: "wf m \<Longrightarrow> map_of (entries m) = look m"
    and entries_distinct: "wf m \<Longrightarrow> distinct (map fst (entries m))"
begin

lemma wf_put_all: "wf m \<Longrightarrow> wf (fold (\<lambda>(k, v). put k v) es m)"
  by (induction es arbitrary: m) (auto simp: wf_put)

lemma look_put_all: "wf m \<Longrightarrow> look (fold (\<lambda>(k, v). put k v) es m) = look m ++ map_of (rev es)"
  by (induction es arbitrary: m) (auto simp: wf_put look_put map_add_def fun_eq_iff
      split: option.splits)

lemma look_put_all_distinct:
  assumes "wf m" and "distinct (map fst es)"
  shows "look (fold (\<lambda>(k, v). put k v) es m) = look m ++ map_of es"
proof -
  have "map_of (rev es) = map_of es"
    using assms(2) by (metis distinct_rev map_of_inject_set rev_map set_rev)
  with assms(1) show ?thesis by (simp add: look_put_all)
qed

lemma entries_iff: "wf m \<Longrightarrow> (k, v) \<in> set (entries m) \<longleftrightarrow> look m k = Some v"
  by (metis entries_distinct entries_look map_of_eq_Some_iff)

end

text \<open>The entry interface of HashMap on top of it.\<close>

locale string_hash_map = string_map look put entries wf
  for look :: "'m \<Rightarrow> string \<Rightarrow> 'v option"
    and put :: "string \<Rightarrow> 'v \<Rightarrow> 'm \<Rightarrow> 'm"
    and entries :: "'m \<Rightarrow> (string \<times> 'v) list"
    and wf :: "'m \<Rightarrow> bool" +
  fixes put_new :: "string \<Rightarrow> 'v \<Rightarrow> 'm \<Rightarrow> 'm"
  assumes look_put_new: "wf m \<Longrightarrow>
      look (put_new k v m) = (look m)(k := Some (case look m k of None \<Rightarrow> v | Some w \<Rightarrow> w))"
    and wf_put_new: "wf m \<Longrightarrow> wf (put_new k v m)"
begin

lemma wf_put_new_all: "wf m \<Longrightarrow> wf (fold (\<lambda>(k, v). put_new k v) es m)"
  by (induction es arbitrary: m) (auto simp: wf_put_new)

text \<open>A merge loop is a union in which the entries already there win.\<close>

lemma look_put_new_all:
  "wf m \<Longrightarrow> look (fold (\<lambda>(k, v). put_new k v) es m) = map_of es ++ look m"
  by (induction es arbitrary: m) (auto simp: wf_put_new look_put_new map_add_def fun_eq_iff
      split: option.splits)

lemma merge_dom:
  assumes "wf m" and "wf m'"
  shows "dom (look (fold (\<lambda>(k, v). put_new k v) (entries m') m)) = dom (look m) \<union> dom (look m')"
  using assms by (auto simp: look_put_new_all entries_look)

end

lemma hm_string_hash_map:
  "lawful_order ord \<Longrightarrow> string_hash_map hm_get hm_insert (hm_iter ord) hm_wf hm_or_insert"
  by unfold_locales (auto simp: map_of_hm_iter distinct_hm_iter)

interpretation hm: string_hash_map hm_get hm_insert "hm_iter (\<lambda>ks. ks)" hm_wf hm_or_insert
  by (rule hm_string_hash_map [OF lawful_order_id])

end
