(* ===== verification/RustStr.thy ===== *)
theory RustStr
  imports Prelude
begin

text \<open>
  The part of Rust's string library the program uses. A Rust \<open>str\<close> is its UTF-8 bytes, so a
  \<open>string\<close> here is a list of bytes (one \<open>char\<close> each) and \<open>length\<close> counts bytes:
  UTF-8 validation of \<open>String::from_utf8\<close>, \<open>trim\<close>, \<open>split_whitespace\<close>, \<open>split\<close> and
  \<open>splitn\<close>, \<open>strip_prefix\<close>, decimal printing and \<open>parse::<u16>()\<close>.
\<close>

section \<open>Bytes and UTF-8\<close>

definition as_bytes :: "string \<Rightarrow> u8 list" where
  "as_bytes s = map (\<lambda>c. word_of_nat (of_char c)) s"

definition of_bytes :: "u8 list \<Rightarrow> string" where
  "of_bytes bs = map (\<lambda>b. char_of (unat b)) bs"

lemma of_bytes_as_bytes [simp]: "of_bytes (as_bytes s) = s"
proof -
  have "char_of (unat (word_of_nat (of_char c) :: u8)) = c" for c
    by (simp add: unat_of_nat)
  then show ?thesis by (simp add: of_bytes_def as_bytes_def comp_def map_idI)
qed

lemma as_bytes_of_bytes [simp]: "as_bytes (of_bytes bs) = bs"
proof -
  have "(word_of_nat (of_char (char_of (unat b))) :: u8) = b" for b :: u8
    using unsigned_less [of b, where ?'a = nat] by simp
  then show ?thesis by (simp add: of_bytes_def as_bytes_def comp_def map_idI)
qed

lemma length_as_bytes [simp]: "length (as_bytes s) = length s"
  by (simp add: as_bytes_def)

definition utf8_cont :: "u8 \<Rightarrow> bool" where
  "utf8_cont b \<longleftrightarrow> 0x80 \<le> b \<and> b \<le> 0xBF"

text \<open>The byte sequences \<open>str::from_utf8\<close> accepts (no overlong forms, no surrogates).\<close>

fun utf8_valid :: "u8 list \<Rightarrow> bool" where
  "utf8_valid [] = True"
| "utf8_valid (a # s) =
     (if a \<le> 0x7F then utf8_valid s
      else if 0xC2 \<le> a \<and> a \<le> 0xDF then
        (case s of b # s' \<Rightarrow> utf8_cont b \<and> utf8_valid s' | _ \<Rightarrow> False)
      else if 0xE0 \<le> a \<and> a \<le> 0xEF then
        (case s of b # c # s' \<Rightarrow>
            utf8_cont b \<and> utf8_cont c \<and> (a = 0xE0 \<longrightarrow> 0xA0 \<le> b) \<and> (a = 0xED \<longrightarrow> b \<le> 0x9F)
            \<and> utf8_valid s'
         | _ \<Rightarrow> False)
      else if 0xF0 \<le> a \<and> a \<le> 0xF4 then
        (case s of b # c # d # s' \<Rightarrow>
            utf8_cont b \<and> utf8_cont c \<and> utf8_cont d
            \<and> (a = 0xF0 \<longrightarrow> 0x90 \<le> b) \<and> (a = 0xF4 \<longrightarrow> b \<le> 0x8F) \<and> utf8_valid s'
         | _ \<Rightarrow> False)
      else False)"

definition from_utf8 :: "u8 list \<Rightarrow> string result" where
  "from_utf8 bs = (if utf8_valid bs then Inr (of_bytes bs) else Inl Utf8)"

lemma utf8_valid_ascii: "(\<forall>b \<in> set bs. b \<le> 0x7F) \<Longrightarrow> utf8_valid bs"
  by (induction bs rule: utf8_valid.induct) auto

section \<open>White space\<close>

text \<open>The UTF-8 encodings of the characters with the White_Space property.\<close>

definition ws_codes :: "nat list list" where
  "ws_codes =
     [[9], [10], [11], [12], [13], [32], [0xC2, 0x85], [0xC2, 0xA0], [0xE1, 0x9A, 0x80],
      [0xE2, 0x80, 0x80], [0xE2, 0x80, 0x81], [0xE2, 0x80, 0x82], [0xE2, 0x80, 0x83],
      [0xE2, 0x80, 0x84], [0xE2, 0x80, 0x85], [0xE2, 0x80, 0x86], [0xE2, 0x80, 0x87],
      [0xE2, 0x80, 0x88], [0xE2, 0x80, 0x89], [0xE2, 0x80, 0x8A], [0xE2, 0x80, 0xA8],
      [0xE2, 0x80, 0xA9], [0xE2, 0x80, 0xAF], [0xE2, 0x81, 0x9F], [0xE3, 0x80, 0x80]]"

fun is_prefix_of :: "nat list \<Rightarrow> string \<Rightarrow> bool" where
  "is_prefix_of [] s = True"
| "is_prefix_of (w # ws) (c # s) = (of_char c = w \<and> is_prefix_of ws s)"
| "is_prefix_of (w # ws) [] = False"

text \<open>The number of bytes of the white-space character at the front of \<open>s\<close>, 0 if there is none.\<close>

definition ws_len :: "nat list list \<Rightarrow> string \<Rightarrow> nat" where
  "ws_len codes s = (case find (\<lambda>w. is_prefix_of w s) codes of None \<Rightarrow> 0 | Some w \<Rightarrow> length w)"

function trim_front :: "nat list list \<Rightarrow> string \<Rightarrow> string" where
  "trim_front codes s =
     (if s = [] \<or> ws_len codes s = 0 then s else trim_front codes (drop (ws_len codes s) s))"
  by pat_completeness auto
termination
  by (relation "measure (length \<circ> snd)") auto

declare trim_front.simps [simp del]

definition trim_start :: "string \<Rightarrow> string" where
  "trim_start s = trim_front ws_codes s"

definition trim_end :: "string \<Rightarrow> string" where
  "trim_end s = rev (trim_front (map rev ws_codes) (rev s))"

definition trim :: "string \<Rightarrow> string" where
  "trim s = trim_end (trim_start s)"

function split_ws :: "string \<Rightarrow> string \<Rightarrow> string list" where
  "split_ws cur s =
     (if s = [] then (if cur = [] then [] else [cur])
      else if ws_len ws_codes s = 0 then split_ws (cur @ [hd s]) (tl s)
      else (if cur = [] then [] else [cur]) @ split_ws [] (drop (ws_len ws_codes s) s))"
  by pat_completeness auto
termination
  by (relation "measure (length \<circ> snd)") (auto simp: length_greater_0_conv [symmetric]
      simp del: length_greater_0_conv)

declare split_ws.simps [simp del]

definition split_whitespace :: "string \<Rightarrow> string list" where
  "split_whitespace s = split_ws [] s"

text \<open>A word of printable ASCII is a fixed point of \<open>trim\<close>.\<close>

definition graphic :: "char \<Rightarrow> bool" where
  "graphic c \<longleftrightarrow> 33 \<le> (of_char c :: nat) \<and> (of_char c :: nat) \<le> 126"

lemma ws_len_graphic: "graphic c \<Longrightarrow> ws_len ws_codes (c # s) = 0"
  by (simp add: ws_len_def ws_codes_def graphic_def)

lemma ws_len_rev_graphic: "graphic c \<Longrightarrow> ws_len (map rev ws_codes) (c # s) = 0"
  by (simp add: ws_len_def ws_codes_def graphic_def)

lemma trim_graphic:
  assumes "s = [] \<or> graphic (hd s) \<and> graphic (last s)"
  shows "trim s = s"
proof (cases "s = []")
  case True
  then show ?thesis by (simp add: trim_def trim_end_def trim_start_def trim_front.simps)
next
  case False
  with assms have hd: "graphic (hd s)" and last: "graphic (last s)" by auto
  from False hd have start: "trim_start s = s"
    by (cases s) (simp_all add: trim_start_def trim_front.simps ws_len_graphic)
  obtain r where r: "rev s = last s # r"
    using False by (metis append_butlast_last_id rev_eq_Cons_iff rev_rev_ident rev.simps(2) rev_append
        append_Cons append_Nil)
  then have "trim_front (map rev ws_codes) (rev s) = rev s"
    using last unfolding r by (subst trim_front.simps) (simp add: ws_len_rev_graphic)
  then show ?thesis by (simp add: trim_def trim_end_def start)
qed

section \<open>Splitting\<close>

fun strip_prefix :: "string \<Rightarrow> string \<Rightarrow> string option" where
  "strip_prefix [] s = Some s"
| "strip_prefix (p # ps) (c # s) = (if p = c then strip_prefix ps s else None)"
| "strip_prefix (p # ps) [] = None"

definition starts_with :: "string \<Rightarrow> string \<Rightarrow> bool" where
  "starts_with p s \<longleftrightarrow> strip_prefix p s \<noteq> None"

lemma strip_prefix_append [simp]: "strip_prefix p (p @ s) = Some s"
  by (induction p) auto

lemma strip_prefix_Some: "strip_prefix p s = Some r \<longleftrightarrow> s = p @ r"
  by (induction p s rule: strip_prefix.induct) auto

text \<open>\<open>split(c)\<close>: always at least one piece.\<close>

fun split_on :: "char \<Rightarrow> string \<Rightarrow> string list" where
  "split_on c [] = [[]]"
| "split_on c (x # xs) =
     (if x = c then [] # split_on c xs
      else case split_on c xs of [] \<Rightarrow> [[x]] | p # ps \<Rightarrow> (x # p) # ps)"

lemma split_on_nonempty [simp]: "split_on c s \<noteq> []"
  by (induction s) (auto split: list.splits)

lemma split_on_none: "c \<notin> set s \<Longrightarrow> split_on c s = [s]"
  by (induction s) auto

lemma split_on_append: "c \<notin> set a \<Longrightarrow> split_on c (a @ c # b) = a # split_on c b"
  by (induction a) auto

text \<open>\<open>splitn(n, c)\<close>: at most \<open>n\<close> pieces, the last one is what remains.\<close>

fun splitn :: "nat \<Rightarrow> char \<Rightarrow> string \<Rightarrow> string list" where
  "splitn 0 c s = []"
| "splitn (Suc 0) c s = [s]"
| "splitn (Suc (Suc n)) c s =
     (case dropWhile (\<lambda>x. x \<noteq> c) s of
        [] \<Rightarrow> [s]
      | _ # r \<Rightarrow> takeWhile (\<lambda>x. x \<noteq> c) s # splitn (Suc n) c r)"

section \<open>Decimal numbers\<close>

definition digit_char :: "nat \<Rightarrow> char" where
  "digit_char d = char_of (48 + d)"

fun show_nat :: "nat \<Rightarrow> string" where
  "show_nat n = (if n < 10 then [digit_char n] else show_nat (n div 10) @ [digit_char (n mod 10)])"

declare show_nat.simps [simp del]

text \<open>\<open>char::to_digit(radix)\<close>.\<close>

definition to_digit :: "nat \<Rightarrow> char \<Rightarrow> nat option" where
  "to_digit radix c =
     (let n = of_char c :: nat;
          d = (if 48 \<le> n \<and> n \<le> 57 then Some (n - 48)
               else if 97 \<le> n \<and> n \<le> 122 then Some (n - 97 + 10)
               else if 65 \<le> n \<and> n \<le> 90 then Some (n - 65 + 10) else None)
      in case d of None \<Rightarrow> None | Some v \<Rightarrow> if v < radix then Some v else None)"

lemma to_digit_digit_char [simp]: "d < 10 \<Longrightarrow> to_digit 10 (digit_char d) = Some d"
  by (simp add: to_digit_def digit_char_def Let_def)

fun read_decimal :: "nat \<Rightarrow> string \<Rightarrow> nat option" where
  "read_decimal acc [] = Some acc"
| "read_decimal acc (c # s) =
     (case to_digit 10 c of None \<Rightarrow> None | Some d \<Rightarrow> read_decimal (acc * 10 + d) s)"

text \<open>\<open>parse::<u16>()\<close>: an optional plus sign, at least one digit, no overflow.\<close>

definition parse_u16 :: "string \<Rightarrow> u16 option" where
  "parse_u16 s =
     (let ds = (case s of c # r \<Rightarrow> if c = CHR ''+'' then r else s | [] \<Rightarrow> [])
      in if ds = [] then None
         else case read_decimal 0 ds of
                None \<Rightarrow> None
              | Some n \<Rightarrow> if n < 2 ^ 16 then Some (word_of_nat n) else None)"

lemma read_decimal_append:
  "read_decimal a (s @ t) = (case read_decimal a s of None \<Rightarrow> None | Some b \<Rightarrow> read_decimal b t)"
  by (induction a s rule: read_decimal.induct) (auto split: option.splits)

lemma read_decimal_show_nat:
  "read_decimal a (show_nat n) = Some (a * 10 ^ length (show_nat n) + n)"
proof (induction n arbitrary: a rule: show_nat.induct)
  case (1 n)
  show ?case
  proof (cases "n < 10")
    case True
    then show ?thesis by (simp add: show_nat.simps [of n])
  next
    case False
    with "1" [OF False] show ?thesis
      by (simp add: show_nat.simps [of n] read_decimal_append algebra_simps)
  qed
qed

lemma show_nat_nonempty [simp]: "show_nat n \<noteq> []"
  by (subst show_nat.simps) simp

lemma show_nat_digits: "c \<in> set (show_nat n) \<Longrightarrow> \<exists>d < 10. c = digit_char d"
proof (induction n rule: show_nat.induct)
  case (1 n)
  then show ?case
    by (subst (asm) (2) show_nat.simps) (auto split: if_splits intro: exI [of _ "n mod 10"])
qed

lemma parse_u16_show: "n < 2 ^ 16 \<Longrightarrow> parse_u16 (show_nat n) = Some (word_of_nat n)"
proof -
  assume n: "n < 2 ^ 16"
  obtain c r where cr: "show_nat n = c # r"
    by (cases "show_nat n") simp_all
  then obtain d where d: "d < 10" "c = digit_char d"
    using show_nat_digits [of c n] by auto
  then have "to_digit 10 c = Some d" by simp
  then have "c \<noteq> CHR ''+''" by (auto simp: to_digit_def)
  with cr n read_decimal_show_nat [of 0 n] show ?thesis
    by (simp add: parse_u16_def del: read_decimal.simps)
qed

end
