(* ===== verification/Wire.thy ===== *)
theory Wire
  imports RustStr
begin

unbundle bit_operations_syntax

text \<open>
  The framing of cpcluster_common/src/lib.rs: \<open>write_length_prefixed\<close> and
  \<open>read_length_prefixed\<close> over a byte stream. A socket is the bytes the peer will still send,
  the bytes written so far, and how many more bytes can be written before the connection breaks.
  Both functions are modelled on every path: a write may fail after any number of bytes, a read may
  meet the end of the stream.
\<close>

section \<open>Sockets\<close>

record sock =
  inp :: "u8 list"
  out :: "u8 list"
  room :: "nat option"

text \<open>\<open>write_all\<close>: either every byte is accepted or the connection breaks on the way.\<close>

definition write_all :: "u8 list \<Rightarrow> sock \<Rightarrow> unit result \<times> sock" where
  "write_all bs s =
     (case room s of
        None \<Rightarrow> (Inr (), s\<lparr>out := out s @ bs\<rparr>)
      | Some n \<Rightarrow>
          if length bs \<le> n
          then (Inr (), s\<lparr>out := out s @ bs, room := Some (n - length bs)\<rparr>)
          else (Inl (Io ''broken pipe''), s\<lparr>out := out s @ take n bs, room := Some 0\<rparr>))"

text \<open>\<open>read_exact\<close>: the buffer is filled or the stream has ended.\<close>

definition read_exact :: "nat \<Rightarrow> sock \<Rightarrow> u8 list result \<times> sock" where
  "read_exact n s =
     (if n \<le> length (inp s)
      then (Inr (take n (inp s)), s\<lparr>inp := drop n (inp s)\<rparr>)
      else (Inl (Io ''early eof''), s\<lparr>inp := []\<rparr>))"

section \<open>Big-endian lengths\<close>

definition u32_to_be_bytes :: "u32 \<Rightarrow> u8 list" where
  "u32_to_be_bytes w =
     [ucast (drop_bit 24 w), ucast (drop_bit 16 w), ucast (drop_bit 8 w), ucast w]"

definition u32_from_be_bytes :: "u8 list \<Rightarrow> u32" where
  "u32_from_be_bytes bs =
     (case bs of
        [a, b, c, d] \<Rightarrow>
          push_bit 24 (ucast a) OR push_bit 16 (ucast b) OR push_bit 8 (ucast c) OR ucast d
      | _ \<Rightarrow> 0)"

lemma length_u32_to_be_bytes [simp]: "length (u32_to_be_bytes w) = 4"
  by (simp add: u32_to_be_bytes_def)

lemma u32_be_roundtrip [simp]: "u32_from_be_bytes (u32_to_be_bytes w) = w"
proof (rule bit_word_eqI)
  fix n
  assume n: "n < LENGTH(32)"
  then have "n < 8 \<or> 8 \<le> n \<and> n < 16 \<or> 16 \<le> n \<and> n < 24 \<or> 24 \<le> n \<and> n < 32"
    by auto
  with n show "bit (u32_from_be_bytes (u32_to_be_bytes w)) n = bit w n"
    by (auto simp: u32_from_be_bytes_def u32_to_be_bytes_def bit_simps)
qed

section \<open>Length-prefixed messages\<close>

definition write_length_prefixed :: "u8 list \<Rightarrow> sock \<Rightarrow> unit result \<times> sock" where
  "write_length_prefixed data s =
     (let len = word_of_nat (length data) :: u32
      in case write_all (u32_to_be_bytes len) s of
           (Inl e, s1) \<Rightarrow> (Inl e, s1)
         | (Inr _, s1) \<Rightarrow>
             (case write_all data s1 of
                (Inl e, s2) \<Rightarrow> (Inl e, s2)
              | (Inr _, s2) \<Rightarrow> (Inr (), s2)))"

definition read_length_prefixed :: "sock \<Rightarrow> u8 list result \<times> sock" where
  "read_length_prefixed s =
     (case read_exact 4 s of
        (Inl e, s1) \<Rightarrow> (Inl e, s1)
      | (Inr len_buf, s1) \<Rightarrow>
          (let len = unat (u32_from_be_bytes len_buf)
           in case read_exact len s1 of
                (Inl e, s2) \<Rightarrow> (Inl e, s2)
              | (Inr buf, s2) \<Rightarrow> (Inr buf, s2)))"

text \<open>The bytes a successful write puts on the wire.\<close>

definition frame :: "u8 list \<Rightarrow> u8 list" where
  "frame data = u32_to_be_bytes (word_of_nat (length data)) @ data"

definition fits_u32 :: "u8 list \<Rightarrow> bool" where
  "fits_u32 data \<longleftrightarrow> length data < 2 ^ 32"

lemma length_frame [simp]: "length (frame d) = 4 + length d"
  by (simp add: frame_def)

lemma frame_Nil [simp]: "frame d \<noteq> []"
  by (metis add_is_0 length_frame list.size(3) zero_neq_numeral)

text \<open>The two writes of a message behave as one write of its frame, failures included.\<close>

lemma write_length_prefixed_frame: "write_length_prefixed d s = write_all (frame d) s"
  by (auto simp: write_length_prefixed_def write_all_def frame_def Let_def split: option.splits)

lemma write_length_prefixed_inp [simp]: "inp (snd (write_length_prefixed d s)) = inp s"
  by (simp add: write_length_prefixed_frame write_all_def split: option.splits)

lemma write_length_prefixed_ok:
  assumes "write_length_prefixed d s = (Inr u, s')"
  shows "out s' = out s @ frame d" and "inp s' = inp s"
  using assms by (auto simp: write_length_prefixed_frame write_all_def split: option.splits if_splits)

lemma write_length_prefixed_None:
  "room s = None \<Longrightarrow> write_length_prefixed d s = (Inr (), s\<lparr>out := out s @ frame d\<rparr>)"
  by (simp add: write_length_prefixed_frame write_all_def)

text \<open>What a failed write leaves on the wire is a strict prefix of the frame.\<close>

lemma write_length_prefixed_err:
  assumes "write_length_prefixed d s = (Inl e, s')"
  shows "\<exists>n < length (frame d). out s' = out s @ take n (frame d) \<and> room s' = Some 0 \<and> inp s' = inp s"
  using assms by (auto simp: write_length_prefixed_frame write_all_def not_le
      split: option.splits if_splits)

lemma frame_len_prefix:
  "fits_u32 d \<Longrightarrow> unat (u32_from_be_bytes (u32_to_be_bytes (word_of_nat (length d)))) = length d"
  by (simp add: fits_u32_def unat_of_nat)

lemma read_length_prefixed_frame:
  assumes "fits_u32 d" and "inp s = frame d @ r"
  shows "read_length_prefixed s = (Inr d, s\<lparr>inp := r\<rparr>)"
  using assms frame_len_prefix [OF assms(1)]
  by (simp add: read_length_prefixed_def read_exact_def frame_def Let_def)

lemma u8_high_bit: "8 \<le> n \<Longrightarrow> \<not> bit (b :: u8) n"
  by (auto dest: bit_imp_le_length)

lemma u32_to_from_be: "length bs = 4 \<Longrightarrow> u32_to_be_bytes (u32_from_be_bytes bs) = bs"
proof -
  assume "length bs = 4"
  then obtain a b c d where bs: "bs = [a, b, c, d]"
    by (auto simp: numeral_eq_Suc length_Suc_conv)
  show ?thesis unfolding bs u32_from_be_bytes_def u32_to_be_bytes_def
    by (auto intro!: bit_word_eqI simp: bit_simps u8_high_bit)
qed

lemma read_length_prefixed_sound:
  assumes "read_length_prefixed s = (Inr d, s')"
  shows "fits_u32 d" and "inp s = frame d @ inp s'" and "s' = s\<lparr>inp := inp s'\<rparr>"
proof -
  let ?h = "take 4 (inp s)" and ?t = "drop 4 (inp s)"
  let ?n = "unat (u32_from_be_bytes ?h)"
  from assms have len: "4 \<le> length (inp s)" "?n \<le> length ?t"
    and d: "d = take ?n ?t" and s': "s' = s\<lparr>inp := drop ?n ?t\<rparr>"
    by (auto simp: read_length_prefixed_def read_exact_def Let_def split: if_splits)
  from len d have ld: "length d = ?n" by simp
  then have "word_of_nat (length d) = u32_from_be_bytes ?h" by simp
  with len have "frame d = ?h @ d" by (simp add: frame_def u32_to_from_be)
  then have "frame d @ inp s' = ?h @ (take ?n ?t @ drop ?n ?t)" by (simp add: d s')
  also have "\<dots> = inp s" by (simp only: append_take_drop_id)
  finally show "inp s = frame d @ inp s'" by simp
  show "fits_u32 d"
    unfolding fits_u32_def ld using unsigned_less [of "u32_from_be_bytes ?h", where ?'a = nat] by simp
  show "s' = s\<lparr>inp := inp s'\<rparr>" by (simp add: s')
qed

lemma read_length_prefixed_shrinks:
  "read_length_prefixed s = (Inr d, s') \<Longrightarrow> length (inp s') < length (inp s)"
  using read_length_prefixed_sound(2) [of s d s'] by simp

lemma read_length_prefixed_out [simp]:
  "out (snd (read_length_prefixed s)) = out s" "room (snd (read_length_prefixed s)) = room s"
  by (auto simp: read_length_prefixed_def read_exact_def Let_def)

section \<open>Self-delimiting codes\<close>

text \<open>Decoding a run of \<open>n\<close> values one after the other.\<close>

fun decode_n :: "(u8 list \<Rightarrow> ('a \<times> u8 list) option) \<Rightarrow> nat \<Rightarrow> u8 list \<Rightarrow> ('a list \<times> u8 list) option" where
  "decode_n dec 0 bs = Some ([], bs)"
| "decode_n dec (Suc n) bs =
     (case dec bs of
        None \<Rightarrow> None
      | Some (x, r) \<Rightarrow>
          (case decode_n dec n r of None \<Rightarrow> None | Some (xs, r') \<Rightarrow> Some (x # xs, r')))"

text \<open>
  The contract of a code whose decoder finds the end of a value by itself, so that values can be
  written one after the other into a stream.
\<close>

locale prefix_code =
  fixes enc :: "'a \<Rightarrow> u8 list"
    and dec :: "u8 list \<Rightarrow> ('a \<times> u8 list) option"
    and ok :: "'a \<Rightarrow> bool"
  assumes dec_enc: "ok x \<Longrightarrow> dec (enc x @ r) = Some (x, r)"
    and dec_sound: "dec bs = Some (x, r) \<Longrightarrow> ok x \<and> bs = enc x @ r"
begin

lemma prefix_free:
  assumes "ok x" and "ok y" and "enc x @ r = enc y @ r'"
  shows "x = y" and "r = r'"
proof -
  have "Some (x, r) = Some (y, r')"
    using dec_enc [OF assms(1), of r] dec_enc [OF assms(2), of r'] unfolding assms(3) by (rule trans [OF sym])
  then show "x = y" and "r = r'" by simp_all
qed

lemma decode_run: "\<forall>x \<in> set xs. ok x \<Longrightarrow> decode_n dec (length xs) (concat (map enc xs) @ r) = Some (xs, r)"
  by (induction xs) (simp_all add: dec_enc)

lemma decode_run_sound:
  "decode_n dec n bs = Some (xs, r) \<Longrightarrow> length xs = n \<and> (\<forall>x \<in> set xs. ok x) \<and> bs = concat (map enc xs) @ r"
proof (induction n arbitrary: bs xs r)
  case 0
  then show ?case by simp
next
  case (Suc n)
  then obtain x r1 xs' where "dec bs = Some (x, r1)" "decode_n dec n r1 = Some (xs', r)" "xs = x # xs'"
    by (auto split: option.splits)
  with Suc.IH [of r1 xs' r] dec_sound [of bs x r1] show ?case by simp
qed

end

definition read_u32 :: "u8 list \<Rightarrow> (u32 \<times> u8 list) option" where
  "read_u32 bs = (if 4 \<le> length bs then Some (u32_from_be_bytes (take 4 bs), drop 4 bs) else None)"

definition read_frame :: "u8 list \<Rightarrow> (u8 list \<times> u8 list) option" where
  "read_frame bs =
     (case read_length_prefixed \<lparr>inp = bs, out = [], room = None\<rparr> of
        (Inl _, _) \<Rightarrow> None
      | (Inr d, s) \<Rightarrow> Some (d, inp s))"

interpretation be32: prefix_code u32_to_be_bytes read_u32 "\<lambda>_. True"
proof unfold_locales
  fix bs x r
  assume "read_u32 bs = Some (x, r)"
  then have "4 \<le> length bs" "x = u32_from_be_bytes (take 4 bs)" "r = drop 4 bs"
    by (auto simp: read_u32_def split: if_splits)
  then show "True \<and> bs = u32_to_be_bytes x @ r" by (simp add: u32_to_from_be)
qed (simp add: read_u32_def)

interpretation frames: prefix_code frame read_frame fits_u32
proof unfold_locales
  fix bs x r
  assume "read_frame bs = Some (x, r)"
  then obtain s where s: "read_length_prefixed \<lparr>inp = bs, out = [], room = None\<rparr> = (Inr x, s)"
    and r: "r = inp s"
    by (auto simp: read_frame_def split: prod.splits sum.splits)
  from read_length_prefixed_sound(1,2) [OF s] show "fits_u32 x \<and> bs = frame x @ r"
    by (simp add: r)
qed (simp add: read_frame_def read_length_prefixed_frame)

section \<open>Streams of messages\<close>

text \<open>Several messages in a row, stopping at the first failure, as every caller does with \<open>?\<close>.\<close>

fun write_many :: "u8 list list \<Rightarrow> sock \<Rightarrow> unit result \<times> sock" where
  "write_many [] s = (Inr (), s)"
| "write_many (d # ds) s =
     (case write_length_prefixed d s of
        (Inl e, s1) \<Rightarrow> (Inl e, s1)
      | (Inr _, s1) \<Rightarrow> write_many ds s1)"

fun read_many :: "nat \<Rightarrow> sock \<Rightarrow> u8 list list result \<times> sock" where
  "read_many 0 s = (Inr [], s)"
| "read_many (Suc n) s =
     (case read_length_prefixed s of
        (Inl e, s1) \<Rightarrow> (Inl e, s1)
      | (Inr d, s1) \<Rightarrow>
          (case read_many n s1 of
             (Inl e, s2) \<Rightarrow> (Inl e, s2)
           | (Inr ds, s2) \<Rightarrow> (Inr (d # ds), s2)))"

lemma write_many_out: "write_many ds s = (Inr u, s') \<Longrightarrow> out s' = out s @ concat (map frame ds)"
  by (induction ds arbitrary: s)
    (auto split: prod.splits sum.splits dest!: write_length_prefixed_ok(1))

lemma read_many_frames:
  "\<forall>d \<in> set ds. fits_u32 d \<Longrightarrow> inp s = concat (map frame ds) @ r \<Longrightarrow>
     read_many (length ds) s = (Inr ds, s\<lparr>inp := r\<rparr>)"
  by (induction ds arbitrary: s) (auto simp: read_length_prefixed_frame)

lemma strict_prefix_unreadable:
  assumes "fits_u32 d" and "n < length (frame d)" and "inp s = take n (frame d)"
  shows "\<exists>e. fst (read_length_prefixed s) = Inl e"
proof (cases "read_length_prefixed s")
  case (Pair r s')
  show ?thesis
  proof (cases r)
    case (Inr d')
    note sound = read_length_prefixed_sound [OF Pair [unfolded Inr]]
    have "frame d = frame d' @ inp s' @ drop n (frame d)"
      using sound(2) assms(3) by (metis append.assoc append_take_drop_id)
    then have "frame d @ [] = frame d' @ (inp s' @ drop n (frame d))" by simp
    from frames.prefix_free(2) [OF assms(1) sound(1) this] assms(2) show ?thesis by simp
  qed (simp add: Pair)
qed

text \<open>
  C20: the framing is faithful on a stream. When a series of messages, each shorter than 4 GiB, is
  written without an error, a peer that receives these bytes, followed by anything, reads exactly
  these messages in this order and leaves the rest; when the write of a message breaks off, whatever
  part of it has arrived, the peer reads no message but an error.
\<close>

theorem framing_roundtrip:
  assumes "\<forall>d \<in> set ds. fits_u32 d" and "write_many ds s = (Inr u, s1)"
  shows "read_many (length ds) (t\<lparr>inp := drop (length (out s)) (out s1) @ r\<rparr>) = (Inr ds, t\<lparr>inp := r\<rparr>)
    \<and> (fits_u32 d \<and> write_length_prefixed d s1 = (Inl e, s2) \<longrightarrow>
        (\<exists>e'. fst (read_length_prefixed (t\<lparr>inp := drop (length (out s1)) (out s2)\<rparr>)) = Inl e'))"
proof (intro conjI impI)
  show "read_many (length ds) (t\<lparr>inp := drop (length (out s)) (out s1) @ r\<rparr>) = (Inr ds, t\<lparr>inp := r\<rparr>)"
    using read_many_frames [OF assms(1), of "t\<lparr>inp := concat (map frame ds) @ r\<rparr>" r]
      write_many_out [OF assms(2)] by simp
  assume d: "fits_u32 d \<and> write_length_prefixed d s1 = (Inl e, s2)"
  from write_length_prefixed_err [OF conjunct2 [OF d]] obtain n where n: "n < length (frame d)"
    and o: "out s2 = out s1 @ take n (frame d)" by blast
  show "\<exists>e'. fst (read_length_prefixed (t\<lparr>inp := drop (length (out s1)) (out s2)\<rparr>)) = Inl e'"
    by (rule strict_prefix_unreadable [OF conjunct1 [OF d] n]) (simp add: o)
qed

theorem framing_roundtrip_witness:
  "read_many 2 \<lparr>inp = [0, 0, 0, 1, 5, 0, 0, 0, 0, 9], out = [], room = None\<rparr> =
     (Inr [[5], []], \<lparr>inp = [9], out = [], room = None\<rparr>)
   \<and> (\<exists>e'. fst (read_length_prefixed \<lparr>inp = [0], out = [], room = None\<rparr>) = Inl e')"
proof -
  let ?s = "\<lparr>inp = [], out = [], room = Some 10\<rparr>" and ?s1 = "\<lparr>inp = [], out = [0, 0, 0, 1, 5, 0, 0, 0, 0], room = Some 1\<rparr>"
  have m: "write_many [[5], []] ?s = (Inr (), ?s1)" by code_simp
  have w: "write_length_prefixed [7] ?s1 = (Inl (Io ''broken pipe''), ?s1\<lparr>out := out ?s1 @ [0], room := Some 0\<rparr>)"
    by code_simp
  have f: "\<forall>d \<in> set [[5], []]. fits_u32 d" "fits_u32 [7]" by (simp_all add: fits_u32_def)
  note rt = framing_roundtrip [OF f(1) m, of "[9]" "\<lparr>inp = [], out = [], room = None\<rparr>" "[7]"]
  from rt [THEN conjunct1] rt [THEN conjunct2, rule_format, OF conjI [OF f(2) w]] show ?thesis
    by (simp add: numeral_2_eq_2)
qed

text \<open>
  The length is cast to 32 bits without a check, so a message of 4 GiB or more is written under
  a wrong length: the write succeeds, and the reader takes the first \<open>length mod 2\<^sup>3\<^sup>2\<close> bytes
  for the message and the rest for what follows.
\<close>

theorem framing_truncates_length:
  assumes "2 ^ 32 \<le> length d" and "room s = None" and "inp t = frame d @ r"
  shows "write_length_prefixed d s = (Inr (), s\<lparr>out := out s @ frame d\<rparr>)
    \<and> read_length_prefixed t =
        (Inr (take (length d mod 2 ^ 32) d), t\<lparr>inp := drop (length d mod 2 ^ 32) d @ r\<rparr>)"
proof
  show "write_length_prefixed d s = (Inr (), s\<lparr>out := out s @ frame d\<rparr>)"
    using assms(2) by (rule write_length_prefixed_None)
  have "length d mod 2 ^ 32 \<le> length d" by simp
  then show "read_length_prefixed t =
      (Inr (take (length d mod 2 ^ 32) d), t\<lparr>inp := drop (length d mod 2 ^ 32) d @ r\<rparr>)"
    using assms(3) by (simp add: read_length_prefixed_def read_exact_def frame_def Let_def unat_of_nat)
qed

theorem framing_truncates_length_witness:
  "fst (read_length_prefixed \<lparr>inp = frame (7 # replicate (2 ^ 32) 0), out = [], room = None\<rparr>) = Inr [7]"
proof -
  have "2 ^ 32 \<le> length (7 # replicate (2 ^ 32) (0 :: u8))" by simp
  from framing_truncates_length [OF this, of "\<lparr>inp = [], out = [], room = None\<rparr>"
      "\<lparr>inp = frame (7 # replicate (2 ^ 32) 0), out = [], room = None\<rparr>" "[]"]
  show ?thesis by (simp del: replicate.simps)
qed

end
