(* ===== verification/Messages.thy ===== *)
theory Messages
  imports Wire
begin

text \<open>
  The data of cpcluster_common/src/lib.rs and config.rs: roles, tasks, results, the messages
  between clients, nodes and master, the join information and the configuration. JSON
  serialisation is done by serde_json, which is not part of the repository: it is the record
  \<open>serde\<close> of functions, an argument of everything that sends or receives a message.
\<close>

section \<open>Roles, tasks and messages\<close>

datatype NodeRole = Worker | Disk | Internet

datatype Task =
    Compute string
  | HttpRequest string
  | Tcp string "u8 list"
  | Udp string "u8 list"
  | ComplexMath string
  | StoreData string "u8 list"
  | RetrieveData string
  | DiskWrite string "u8 list"
  | DiskRead string
  | GetGlobalRam
  | GetStorage

datatype TaskResult =
    Number f64
  | Response string
  | Bytes "u8 list"
  | Stored
  | Written
  | Error string

datatype NodeMessage =
    RequestConnection string
  | ConnectionInfo string u16
  | GetConnectedNodes
  | ConnectedNodes "string list"
  | SubmitTask string Task
  | GetTaskResult string
  | Disconnect
  | Heartbeat
  | HeartbeatAck
  | AssignTask string Task
  | TaskResultMsg string TaskResult
  | TaskAccepted string
  | DirectMessage string
  | RegisterRole NodeRole

record JoinInfo =
  join_token :: string
  join_ip :: string
  join_port :: u16

section \<open>serde_json\<close>

record serde =
  to_vec :: "NodeMessage \<Rightarrow> u8 list option"
  from_slice :: "u8 list \<Rightarrow> NodeMessage option"

text \<open>
  What a message needs so that the other side reads it back: it serialises, to fewer than
  \<open>2 ^ 32\<close> bytes, and the parser inverts the serialiser on it.
\<close>

definition msg_ok :: "('a) serde_scheme \<Rightarrow> NodeMessage \<Rightarrow> bool" where
  "msg_ok J msg \<longleftrightarrow> (\<exists>b. to_vec J msg = Some b \<and> fits_u32 b \<and> from_slice J b = Some msg)"

text \<open>\<open>write_length_prefixed(stream, &serde_json::to_vec(&msg)?)\<close>\<close>

definition send_msg :: "('a) serde_scheme \<Rightarrow> NodeMessage \<Rightarrow> sock \<Rightarrow> unit result \<times> sock" where
  "send_msg J msg s =
     (case to_vec J msg of
        None \<Rightarrow> (Inl Serde, s)
      | Some b \<Rightarrow> write_length_prefixed b s)"

text \<open>\<open>serde_json::from_slice(&read_length_prefixed(stream)?)\<close>\<close>

definition recv_msg :: "('a) serde_scheme \<Rightarrow> sock \<Rightarrow> NodeMessage result \<times> sock" where
  "recv_msg J s =
     (case read_length_prefixed s of
        (Inl e, s') \<Rightarrow> (Inl e, s')
      | (Inr b, s') \<Rightarrow> (case from_slice J b of None \<Rightarrow> Inl Serde | Some msg \<Rightarrow> Inr msg, s'))"

definition msg_frame :: "('a) serde_scheme \<Rightarrow> NodeMessage \<Rightarrow> u8 list" where
  "msg_frame J msg = (case to_vec J msg of None \<Rightarrow> [] | Some b \<Rightarrow> frame b)"

lemma send_msg_inp [simp]: "inp (snd (send_msg J msg s)) = inp s"
  by (simp add: send_msg_def split: option.splits)

lemma send_msg_None:
  "msg_ok J msg \<Longrightarrow> room s = None \<Longrightarrow> send_msg J msg s = (Inr (), s\<lparr>out := out s @ msg_frame J msg\<rparr>)"
  by (auto simp: msg_ok_def send_msg_def msg_frame_def write_length_prefixed_None)

lemma send_msg_ok: "send_msg J msg s = (Inr u, s') \<Longrightarrow> out s' = out s @ msg_frame J msg"
  by (auto simp: send_msg_def msg_frame_def dest: write_length_prefixed_ok split: option.splits)

lemma recv_msg_frame:
  "msg_ok J msg \<Longrightarrow> inp s = msg_frame J msg @ r \<Longrightarrow> recv_msg J s = (Inr msg, s\<lparr>inp := r\<rparr>)"
  by (auto simp: msg_ok_def recv_msg_def msg_frame_def read_length_prefixed_frame)

section \<open>Configuration\<close>

record Config =
  min_port :: u16
  max_port :: u16
  cfg_failover_timeout_ms :: u64
  master_addresses :: "string list"
  peer_masters :: "string list option"
  ca_cert_path :: "string option"
  ca_cert :: "string option"
  cert_path :: "string option"
  key_path :: "string option"
  cfg_internet_ports :: "u16 list option"
  storage_dir :: string
  cfg_state_file :: string
  disk_space_mb :: u64
  cfg_role :: NodeRole
  max_retries :: u32
  log_level :: "string option"

definition default_storage_dir :: string where
  "default_storage_dir = ''storage''"

definition default_disk_space :: u64 where
  "default_disk_space = 1024"

definition default_max_retries :: u32 where
  "default_max_retries = 5"

definition default_state_file :: string where
  "default_state_file = ''master_state.json''"

definition Config_default :: Config where
  "Config_default =
     \<lparr>min_port = 55001, max_port = 55999, cfg_failover_timeout_ms = 5000,
      master_addresses = [''127.0.0.1:55000''], peer_masters = None,
      ca_cert_path = None, ca_cert = None, cert_path = None, key_path = None,
      cfg_internet_ports = None, storage_dir = default_storage_dir,
      cfg_state_file = default_state_file, disk_space_mb = default_disk_space,
      cfg_role = Worker, max_retries = default_max_retries, log_level = None\<rparr>"

text \<open>
  Text files as a map from paths to contents. A write either stores the data or fails and leaves
  behind \<open>part\<close> (the old contents, a truncated file, nothing): which of the two is the
  argument \<open>fate\<close>.
\<close>

type_synonym files = "string \<Rightarrow> string option"

type_synonym fate = "string option option"

definition fs_write :: "fate \<Rightarrow> string \<Rightarrow> string \<Rightarrow> files \<Rightarrow> unit result \<times> files" where
  "fs_write fate path data fs =
     (case fate of
        None \<Rightarrow> (Inr (), fs(path \<mapsto> data))
      | Some part \<Rightarrow> (Inl (Io ''write''), fs(path := part)))"

text \<open>
  \<open>parse\<close> and \<open>pretty\<close> are \<open>serde_json::from_str\<close> and \<open>to_string_pretty\<close> on \<open>Config\<close>.
\<close>

definition Config_load :: "(string \<Rightarrow> Config option) \<Rightarrow> files \<Rightarrow> string \<Rightarrow> Config result" where
  "Config_load parse fs path =
     (case fs path of
        Some data \<Rightarrow> (case parse data of Some c \<Rightarrow> Inr c | None \<Rightarrow> Inl (Io ''invalid config''))
      | None \<Rightarrow> Inr Config_default)"

definition Config_save ::
  "(Config \<Rightarrow> string option) \<Rightarrow> fate \<Rightarrow> Config \<Rightarrow> string \<Rightarrow> files \<Rightarrow> unit result \<times> files" where
  "Config_save pretty fate c path fs =
     (case pretty c of
        None \<Rightarrow> (Inl Serde, fs)
      | Some data \<Rightarrow> fs_write fate path data fs)"

text \<open>\<open>Config::load(path).unwrap_or_default()\<close>, as the two binaries start.\<close>

definition load_or_default :: "(string \<Rightarrow> Config option) \<Rightarrow> files \<Rightarrow> string \<Rightarrow> Config" where
  "load_or_default parse fs path =
     (case Config_load parse fs path of Inr c \<Rightarrow> c | Inl _ \<Rightarrow> Config_default)"

text \<open>
  A configuration that is saved, whose text parses back to it, is what the next start loads;
  a missing file gives the defaults, an unparsable one too.
\<close>

theorem Config_save_load:
  assumes "Config_save pretty fate c path fs = (Inr u, fs')"
    and "\<And>d. pretty c = Some d \<Longrightarrow> parse d = Some c"
  shows "Config_load parse fs' path = Inr c \<and> load_or_default parse fs' path = c"
  using assms by (auto simp: Config_save_def fs_write_def Config_load_def load_or_default_def
      split: option.splits)

theorem Config_save_load_witness:
  "let c = Config_default\<lparr>min_port := 7\<rparr>;
       parse = (\<lambda>d. if d = ''{7}'' then Some c else None);
       pretty = (\<lambda>c'. if c' = c then Some ''{7}'' else None)
   in load_or_default parse (snd (Config_save pretty None c ''p'' Map.empty)) ''p'' = c"
  unfolding Let_def
  by (rule Config_save_load [where pretty = "\<lambda>c'. if c' = Config_default\<lparr>min_port := 7\<rparr> then Some ''{7}'' else None"
        and fate = None and fs = Map.empty and u = "()", THEN conjunct2])
    (auto simp: Config_save_def fs_write_def prod_eq_iff split: if_splits)

text \<open>The first two lines of \<open>run\<close>: the configuration is loaded and written back.\<close>

definition start_config ::
  "(string \<Rightarrow> Config option) \<Rightarrow> (Config \<Rightarrow> string option) \<Rightarrow> fate \<Rightarrow> files \<Rightarrow> string \<Rightarrow> Config result \<times> files" where
  "start_config parse pretty fate fs path =
     (let config = load_or_default parse fs path
      in case Config_save pretty fate config path fs of
           (Inl e, fs') \<Rightarrow> (Inl e, fs')
         | (Inr _, fs') \<Rightarrow> (Inr config, fs'))"

text \<open>
  The master's start writes the configuration back to its file. A file that parses is rewritten
  with what it said, a missing file is created with the defaults; a file with a mistake in it is
  replaced by the defaults, and what the user wrote is lost.
\<close>

theorem start_config_rewrites:
  assumes "fs path = Some text1" and "parse text1 = None" and "pretty Config_default = Some dflt"
    and "fs2 path = Some text2" and "parse text2 = Some c" and "pretty c = Some text3"
    and "fs3 path = None"
  shows "start_config parse pretty None fs path = (Inr Config_default, fs(path \<mapsto> dflt))
    \<and> start_config parse pretty None fs2 path = (Inr c, fs2(path \<mapsto> text3))
    \<and> start_config parse pretty None fs3 path = (Inr Config_default, fs3(path \<mapsto> dflt))"
  using assms by (simp add: start_config_def load_or_default_def Config_load_def Config_save_def fs_write_def)

theorem start_config_rewrites_witness:
  "start_config (\<lambda>d. if d = ''{7}'' then Some (Config_default\<lparr>min_port := 7\<rparr>) else None) (\<lambda>_. Some ''{}'') None
     [''p'' \<mapsto> ''{7,''] ''p'' = (Inr Config_default, [''p'' \<mapsto> ''{}''])"
  using start_config_rewrites [of "[''p'' \<mapsto> ''{7,'']" "''p''" "''{7,''"
      "\<lambda>d. if d = ''{7}'' then Some (Config_default\<lparr>min_port := 7\<rparr>) else None" "\<lambda>_. Some ''{}''" "''{}''"
      "[''p'' \<mapsto> ''{7}'']" "''{7}''" "Config_default\<lparr>min_port := 7\<rparr>" "''{}''" Map.empty]
  by simp

end
