(* ===== verification/MasterState.thy ===== *)
theory MasterState
  imports Messages
begin

text \<open>
  The state of the master (CPCluster_masterNode/src/state.rs) and the two ways it leaves the
  process: the state file (\<open>load_state\<close>, \<open>save_state\<close>, \<open>spawn_save_state\<close>) and the
  \<open>PeerState\<close> two masters exchange (\<open>collect_state\<close> of lib.rs). The \<open>Arc<Mutex<_>>\<close>
  fields are the fields of one record; who holds which lock when is said where the operations are.
\<close>

section \<open>Data\<close>

record PendingTask =
  task :: Task
  target :: "string option"

record NodeInfo =
  node_addr :: string
  last_heartbeat :: u64
  node_port :: "u16 option"
  active_tasks :: "Task hmap"
  is_worker :: bool
  node_role :: NodeRole

text \<open>
  \<open>spawned_saves\<close> counts the tasks \<open>spawn_save_state\<close> has started and that have not run yet.
\<close>

record MasterNode =
  connected_nodes :: "NodeInfo hmap"
  available_ports :: "u16 list"
  failover_timeout_ms :: u64
  pending_tasks :: "PendingTask hmap"
  completed_tasks :: "TaskResult hmap"
  state_file :: string
  spawned_saves :: nat

record MasterState =
  ms_connected_nodes :: "NodeInfo hmap"
  ms_available_ports :: "u16 list"
  ms_pending_tasks :: "PendingTask hmap"
  ms_completed_tasks :: "TaskResult hmap"

record PeerState =
  ps_connected_nodes :: "NodeInfo hmap"
  ps_pending_tasks :: "PendingTask hmap"
  ps_completed_tasks :: "TaskResult hmap"

text \<open>serde_json on these two records.\<close>

record mserde = serde +
  peer_to_vec :: "PeerState \<Rightarrow> u8 list option"
  peer_from_slice :: "u8 list \<Rightarrow> PeerState option"
  state_to_string :: "MasterState \<Rightarrow> string option"
  state_from_str :: "string \<Rightarrow> MasterState option"

section \<open>The state file\<close>

definition state_snapshot :: "MasterNode \<Rightarrow> MasterState" where
  "state_snapshot m =
     \<lparr>ms_connected_nodes = connected_nodes m, ms_available_ports = available_ports m,
      ms_pending_tasks = pending_tasks m, ms_completed_tasks = completed_tasks m\<rparr>"

definition load_state :: "('a) mserde_scheme \<Rightarrow> files \<Rightarrow> MasterNode \<Rightarrow> MasterNode" where
  "load_state J fs m =
     (case fs (state_file m) of
        None \<Rightarrow> m
      | Some data \<Rightarrow>
          (case state_from_str J data of
             None \<Rightarrow> m
           | Some st \<Rightarrow>
               m\<lparr>connected_nodes := ms_connected_nodes st, available_ports := ms_available_ports st,
                 pending_tasks := ms_pending_tasks st, completed_tasks := ms_completed_tasks st\<rparr>))"

definition save_state :: "('a) mserde_scheme \<Rightarrow> fate \<Rightarrow> MasterNode \<Rightarrow> files \<Rightarrow> files" where
  "save_state J fate m fs =
     (let state = state_snapshot m
      in case state_to_string J state of
           Some data \<Rightarrow> snd (fs_write fate (state_file m) data fs)
         | None \<Rightarrow> fs)"

definition spawn_save_state :: "MasterNode \<Rightarrow> MasterNode" where
  "spawn_save_state m = m\<lparr>spawned_saves := Suc (spawned_saves m)\<rparr>"

text \<open>One spawned save gets to run: it writes the state of that moment.\<close>

definition run_spawned_save :: "('a) mserde_scheme \<Rightarrow> fate \<Rightarrow> MasterNode \<Rightarrow> files \<Rightarrow> MasterNode \<times> files" where
  "run_spawned_save J fate m fs =
     (if spawned_saves m = 0 then (m, fs)
      else (m\<lparr>spawned_saves := spawned_saves m - 1\<rparr>, save_state J fate m fs))"

definition collect_state :: "MasterNode \<Rightarrow> PeerState" where
  "collect_state m =
     \<lparr>ps_connected_nodes = connected_nodes m, ps_pending_tasks = pending_tasks m,
      ps_completed_tasks = completed_tasks m\<rparr>"

section \<open>Where a task is\<close>

text \<open>The task ids the master still knows about, and the nodes that work on one.\<close>

definition pending_ids :: "MasterNode \<Rightarrow> string set" where
  "pending_ids m = dom (hm_get (pending_tasks m))"

definition active_on :: "MasterNode \<Rightarrow> string \<Rightarrow> string \<Rightarrow> bool" where
  "active_on m addr tid \<longleftrightarrow>
     (\<exists>n. hm_get (connected_nodes m) addr = Some n \<and> hm_get (active_tasks n) tid \<noteq> None)"

definition active_ids :: "MasterNode \<Rightarrow> string set" where
  "active_ids m = {tid. \<exists>addr. active_on m addr tid}"

definition completed_ids :: "MasterNode \<Rightarrow> string set" where
  "completed_ids m = dom (hm_get (completed_tasks m))"

definition known_ids :: "MasterNode \<Rightarrow> string set" where
  "known_ids m = pending_ids m \<union> active_ids m \<union> completed_ids m"

text \<open>Every map of the state has distinct keys.\<close>

definition maps_wf :: "MasterNode \<Rightarrow> bool" where
  "maps_wf m \<longleftrightarrow> hm_wf (connected_nodes m) \<and> hm_wf (pending_tasks m) \<and> hm_wf (completed_tasks m)
     \<and> (\<forall>addr n. hm_get (connected_nodes m) addr = Some n \<longrightarrow> hm_wf (active_tasks n))"

lemma spawn_save_state_simps [simp]:
  "connected_nodes (spawn_save_state m) = connected_nodes m"
  "available_ports (spawn_save_state m) = available_ports m"
  "failover_timeout_ms (spawn_save_state m) = failover_timeout_ms m"
  "pending_tasks (spawn_save_state m) = pending_tasks m"
  "completed_tasks (spawn_save_state m) = completed_tasks m"
  "state_file (spawn_save_state m) = state_file m"
  by (simp_all add: spawn_save_state_def)

lemma pending_ids_iff: "tid \<in> pending_ids m \<longleftrightarrow> hm_get (pending_tasks m) tid \<noteq> None"
  by (auto simp: pending_ids_def)

lemma completed_ids_iff: "tid \<in> completed_ids m \<longleftrightarrow> hm_get (completed_tasks m) tid \<noteq> None"
  by (auto simp: completed_ids_def)



end
