(* ===== verification/MasterTasks.thy ===== *)
theory MasterTasks
  imports MasterState
begin

text \<open>
  Task assignment, port allocation and failover of the master
  (CPCluster_masterNode/src/lib.rs): \<open>role_for_task\<close>, \<open>send_pending_tasks\<close>,
  \<open>allocate_port\<close>, \<open>release_port\<close>, \<open>cleanup_dead_nodes\<close>. Each function is taken as one
  step; the clock and the iteration order of the maps are arguments.
\<close>

section \<open>Assigning pending tasks\<close>

definition role_for_task :: "Task \<Rightarrow> NodeRole" where
  "role_for_task t =
     (case t of
        GetStorage \<Rightarrow> Disk
      | DiskWrite _ _ \<Rightarrow> Disk
      | DiskRead _ \<Rightarrow> Disk
      | Tcp _ _ \<Rightarrow> Internet
      | Udp _ _ \<Rightarrow> Internet
      | _ \<Rightarrow> Worker)"

text \<open>The predicate of the \<open>find\<close>: addressed to this node or to any, of its role, running nowhere.\<close>

definition eligible :: "MasterNode \<Rightarrow> string \<Rightarrow> NodeRole \<Rightarrow> string \<Rightarrow> PendingTask \<Rightarrow> bool" where
  "eligible m addr role tid p \<longleftrightarrow>
     (case target p of Some t \<Rightarrow> t = addr | None \<Rightarrow> True)
     \<and> role_for_task (task p) = role
     \<and> \<not> list_ex (\<lambda>n. hm_get (active_tasks n) tid \<noteq> None) (hm_values (connected_nodes m))"

definition next_task :: "hash_order \<Rightarrow> string \<Rightarrow> NodeRole \<Rightarrow> MasterNode \<Rightarrow> (string \<times> PendingTask) option" where
  "next_task ord addr role m =
     find (\<lambda>(tid, p). eligible m addr role tid p) (hm_iter ord (pending_tasks m))"

text \<open>The bookkeeping of one assignment, and its reversal after a failed write.\<close>

definition take_task :: "string \<Rightarrow> string \<Rightarrow> PendingTask \<Rightarrow> MasterNode \<Rightarrow> MasterNode" where
  "take_task addr tid p m =
     m\<lparr>pending_tasks := hm_remove tid (pending_tasks m),
       connected_nodes := hm_modify addr
         (\<lambda>n. n\<lparr>active_tasks := hm_insert tid (task p) (active_tasks n)\<rparr>) (connected_nodes m)\<rparr>"

definition untake_task :: "string \<Rightarrow> string \<Rightarrow> PendingTask \<Rightarrow> MasterNode \<Rightarrow> MasterNode" where
  "untake_task addr tid p m =
     m\<lparr>pending_tasks := hm_insert tid p (pending_tasks m),
       connected_nodes := hm_modify addr
         (\<lambda>n. n\<lparr>active_tasks := hm_remove tid (active_tasks n)\<rparr>) (connected_nodes m)\<rparr>"

lemma next_task_Some:
  assumes "next_task ord addr role m = Some (tid, p)"
  shows "hm_get (pending_tasks m) tid = Some p" and "eligible m addr role tid p"
  using find_SomeD [OF assms [unfolded next_task_def]] by (auto intro: hm_iter_get)

lemma next_task_shrinks:
  "next_task ord addr role m = Some (tid, p) \<Longrightarrow>
     length (pending_tasks (take_task addr tid p m)) < length (pending_tasks m)"
  by (auto dest: next_task_Some simp: take_task_def hm_remove_length)

function assign_loop ::
  "('a) mserde_scheme \<Rightarrow> hash_order \<Rightarrow> string \<Rightarrow> NodeRole \<Rightarrow> sock \<Rightarrow> MasterNode
     \<Rightarrow> unit result \<times> sock \<times> MasterNode" where
  "assign_loop J ord addr role s m =
     (case next_task ord addr role m of
        None \<Rightarrow> (Inr (), s, m)
      | Some (tid, p) \<Rightarrow>
          (let m' = take_task addr tid p m
           in case to_vec J (AssignTask tid (task p)) of
                None \<Rightarrow> (Inl Serde, s, m')
              | Some data \<Rightarrow>
                  (case write_length_prefixed data s of
                     (Inl e, s') \<Rightarrow> (Inl e, s', untake_task addr tid p m')
                   | (Inr _, s') \<Rightarrow> assign_loop J ord addr role s' m')))"
  by pat_completeness auto
termination
  by (relation "measure (\<lambda>(J, ord, addr, role, s, m). length (pending_tasks m))")
    (auto intro: next_task_shrinks)

declare assign_loop.simps [simp del]

definition send_pending_tasks ::
  "('a) mserde_scheme \<Rightarrow> hash_order \<Rightarrow> string \<Rightarrow> sock \<Rightarrow> MasterNode \<Rightarrow> unit result \<times> sock \<times> MasterNode" where
  "send_pending_tasks J ord addr s m =
     (case hm_get (connected_nodes m) addr of
        Some node \<Rightarrow>
          if is_worker node then assign_loop J ord addr (node_role node) s m else (Inr (), s, m)
      | None \<Rightarrow> (Inr (), s, m))"

section \<open>Ports\<close>

definition allocate_port :: "MasterNode \<Rightarrow> u16 option \<times> MasterNode" where
  "allocate_port m =
     (case available_ports m of
        [] \<Rightarrow> (None, m)
      | p # ps \<Rightarrow> (Some p, spawn_save_state (m\<lparr>available_ports := ps\<rparr>)))"

definition release_port :: "string \<Rightarrow> MasterNode \<Rightarrow> MasterNode" where
  "release_port addr m =
     (let port = (case hm_get (connected_nodes m) addr of None \<Rightarrow> None | Some n \<Rightarrow> node_port n);
          m1 = m\<lparr>connected_nodes := hm_modify addr (\<lambda>n. n\<lparr>node_port := None\<rparr>) (connected_nodes m)\<rparr>;
          m2 = (case port of
                  None \<Rightarrow> m1
                | Some p \<Rightarrow> m1\<lparr>available_ports := available_ports m1 @ [p]\<rparr>)
      in spawn_save_state m2)"

section \<open>Failover\<close>

definition failover_timeout :: "MasterNode \<Rightarrow> u64" where
  "failover_timeout m = failover_timeout_ms m * 2"

definition stale_nodes :: "hash_order \<Rightarrow> u64 \<Rightarrow> MasterNode \<Rightarrow> string list" where
  "stale_nodes ord now m =
     map fst (filter (\<lambda>(addr, info). failover_timeout m < sat_sub now (last_heartbeat info))
       (hm_iter ord (connected_nodes m)))"

text \<open>The tasks of a removed node go back into the queue, addressed to nobody.\<close>

definition requeue :: "hash_order \<Rightarrow> NodeInfo \<Rightarrow> MasterNode \<Rightarrow> MasterNode" where
  "requeue ord info m =
     m\<lparr>pending_tasks :=
         fold (\<lambda>(tid, p). hm_insert tid p)
           (map (\<lambda>(tid, t). (tid, \<lparr>task = t, target = None\<rparr>)) (hm_iter ord (active_tasks info)))
           (pending_tasks m)\<rparr>"

definition drop_stale :: "hash_order \<Rightarrow> string \<Rightarrow> MasterNode \<Rightarrow> MasterNode" where
  "drop_stale ord addr m =
     (let info_opt = hm_get (connected_nodes m) addr;
          m1 = m\<lparr>connected_nodes := hm_remove addr (connected_nodes m)\<rparr>;
          m2 = (case info_opt of Some info \<Rightarrow> requeue ord info m1 | None \<Rightarrow> m1)
      in release_port addr m2)"

definition cleanup_dead_nodes :: "hash_order \<Rightarrow> u64 \<Rightarrow> MasterNode \<Rightarrow> MasterNode" where
  "cleanup_dead_nodes ord now m =
     spawn_save_state (fold (drop_stale ord) (stale_nodes ord now m) m)"

section \<open>What an assignment does to the maps\<close>

named_theorems task_step \<open>field lemmas of the single bookkeeping steps\<close>

lemma take_task_fields [task_step]:
  "pending_tasks (take_task addr tid p m) = hm_remove tid (pending_tasks m)"
  "completed_tasks (take_task addr tid p m) = completed_tasks m"
  "available_ports (take_task addr tid p m) = available_ports m"
  "failover_timeout_ms (take_task addr tid p m) = failover_timeout_ms m"
  "connected_nodes (take_task addr tid p m) =
     hm_modify addr (\<lambda>n. n\<lparr>active_tasks := hm_insert tid (task p) (active_tasks n)\<rparr>) (connected_nodes m)"
  by (simp_all add: take_task_def)

lemma untake_task_fields [task_step]:
  "pending_tasks (untake_task addr tid p m) = hm_insert tid p (pending_tasks m)"
  "completed_tasks (untake_task addr tid p m) = completed_tasks m"
  "available_ports (untake_task addr tid p m) = available_ports m"
  "failover_timeout_ms (untake_task addr tid p m) = failover_timeout_ms m"
  "connected_nodes (untake_task addr tid p m) =
     hm_modify addr (\<lambda>n. n\<lparr>active_tasks := hm_remove tid (active_tasks n)\<rparr>) (connected_nodes m)"
  by (simp_all add: untake_task_def)

lemma list_ex_modify:
  assumes "\<And>v. P (f v) = P v"
  shows "list_ex P (hm_values (hm_modify k f m)) = list_ex P (hm_values m)"
  by (induction m) (auto simp: hm_values_def hm_modify_def assms split: if_splits)

lemma eligible_take_other:
  "tid' \<noteq> tid \<Longrightarrow> eligible (take_task addr tid p m) a role tid' q = eligible m a role tid' q"
  by (simp add: eligible_def task_step list_ex_modify)

lemma eligible_not_active: "eligible m addr role tid p \<Longrightarrow> \<not> active_on m a tid"
proof
  assume e: "eligible m addr role tid p" and "active_on m a tid"
  then obtain n where "hm_get (connected_nodes m) a = Some n" and n: "hm_get (active_tasks n) tid \<noteq> None"
    by (auto simp: active_on_def)
  then have "n \<in> set (hm_values (connected_nodes m))"
    by (force simp: hm_values_def dest: hm_get_entry)
  with e n show False by (auto simp: eligible_def list_ex_iff)
qed

lemma active_on_take:
  "active_on (take_task addr tid p m) a t \<longleftrightarrow>
     active_on m a t \<or> a = addr \<and> t = tid \<and> hm_get (connected_nodes m) addr \<noteq> None"
  by (auto simp: active_on_def task_step split: if_splits)

lemma active_on_untake:
  "active_on (untake_task addr tid p m) a t \<longleftrightarrow> active_on m a t \<and> \<not> (a = addr \<and> t = tid)"
  by (auto simp: active_on_def task_step split: if_splits)

lemma pending_ids_take [simp]: "pending_ids (take_task addr tid p m) = pending_ids m - {tid}"
  by (auto simp: pending_ids_iff task_step split: if_splits)

lemma pending_ids_untake [simp]: "pending_ids (untake_task addr tid p m) = insert tid (pending_ids m)"
  by (auto simp: pending_ids_iff task_step split: if_splits)

lemma completed_ids_take [simp]:
  "completed_ids (take_task addr tid p m) = completed_ids m"
  "completed_ids (untake_task addr tid p m) = completed_ids m"
  by (simp_all add: completed_ids_def task_step)

text \<open>An invariant of the loop: kept by an assignment, and by an assignment that is undone.\<close>

lemma assign_loop_invariant:
  assumes "I m"
    and take: "\<And>m tid p. I m \<Longrightarrow> next_task ord addr role m = Some (tid, p) \<Longrightarrow> I (take_task addr tid p m)"
    and undo: "\<And>m tid p. I m \<Longrightarrow> next_task ord addr role m = Some (tid, p) \<Longrightarrow>
      I (untake_task addr tid p (take_task addr tid p m))"
  shows "I (snd (snd (assign_loop J ord addr role s m)))"
  using assms(1)
proof (induction "length (pending_tasks m)" arbitrary: s m rule: less_induct)
  case less
  show ?case
  proof (cases "next_task ord addr role m")
    case None
    with less.prems show ?thesis by (simp add: assign_loop.simps [of J ord addr role s m])
  next
    case (Some tp)
    obtain tid p where tp: "tp = (tid, p)" by (cases tp)
    note nt = Some [unfolded tp]
    show ?thesis
    proof (cases "to_vec J (AssignTask tid (task p))")
      case None
      with nt less.prems show ?thesis
        by (simp add: assign_loop.simps [of J ord addr role s m] take)
    next
      case (Some data)
      obtain r s' where w: "write_length_prefixed data s = (r, s')" by (cases "write_length_prefixed data s")
      show ?thesis
      proof (cases r)
        case (Inl e)
        with nt Some w less.prems show ?thesis
          by (simp add: assign_loop.simps [of J ord addr role s m] undo)
      next
        case (Inr u)
        have "I (snd (snd (assign_loop J ord addr role s' (take_task addr tid p m))))"
          using less.hyps [OF next_task_shrinks [OF nt]] take [OF less.prems nt] by blast
        with nt Some w Inr show ?thesis
          by (simp add: assign_loop.simps [of J ord addr role s m])
      qed
    qed
  qed
qed

lemma send_pending_invariant:
  assumes "I m"
    and "\<And>m n tid p. I m \<Longrightarrow> hm_get (connected_nodes m) addr = Some n \<Longrightarrow> is_worker n \<Longrightarrow>
      hm_get (pending_tasks m) tid = Some p \<Longrightarrow> eligible m addr (node_role n) tid p \<Longrightarrow>
      I (take_task addr tid p m)"
    and "\<And>m n tid p. I m \<Longrightarrow> hm_get (connected_nodes m) addr = Some n \<Longrightarrow> is_worker n \<Longrightarrow>
      hm_get (pending_tasks m) tid = Some p \<Longrightarrow> eligible m addr (node_role n) tid p \<Longrightarrow>
      I (untake_task addr tid p (take_task addr tid p m))"
  shows "I (snd (snd (send_pending_tasks J ord addr s m)))"
proof (cases "hm_get (connected_nodes m) addr")
  case None
  with assms(1) show ?thesis by (simp add: send_pending_tasks_def)
next
  case (Some n)
  show ?thesis
  proof (cases "is_worker n")
    case False
    with assms(1) Some show ?thesis by (simp add: send_pending_tasks_def)
  next
    case True
    let ?I = "\<lambda>m. I m \<and> (\<exists>n'. hm_get (connected_nodes m) addr = Some n' \<and> is_worker n' \<and> node_role n' = node_role n)"
    have "?I (snd (snd (assign_loop J ord addr (node_role n) s m)))"
    proof (rule assign_loop_invariant)
      show "?I m" using assms(1) Some True by auto
    next
      fix m tid p
      assume I: "?I m" and "next_task ord addr (node_role n) m = Some (tid, p)"
      note e = next_task_Some [OF this(2)]
      from I obtain n' where n': "hm_get (connected_nodes m) addr = Some n'" "is_worker n'"
        "node_role n' = node_role n" by blast
      show "?I (take_task addr tid p m)"
        using I n' e assms(2) [of m n' tid p] by (auto simp: task_step)
      show "?I (untake_task addr tid p (take_task addr tid p m))"
        using I n' e assms(3) [of m n' tid p] by (auto simp: task_step)
    qed
    with Some True show ?thesis by (simp add: send_pending_tasks_def)
  qed
qed

section \<open>The whole assignment loop\<close>

text \<open>The pending tasks the node is going to get, as a map.\<close>

definition assigned :: "MasterNode \<Rightarrow> string \<Rightarrow> NodeRole \<Rightarrow> string \<Rightarrow> Task option" where
  "assigned m addr role tid =
     (case hm_get (pending_tasks m) tid of
        Some p \<Rightarrow> if eligible m addr role tid p then Some (task p) else None
      | None \<Rightarrow> None)"

lemma assigned_take:
  "assigned (take_task addr tid p m) a role = (assigned m a role)(tid := None)"
  by (rule ext) (auto simp: assigned_def task_step eligible_take_other split: option.splits)

lemma next_task_None:
  assumes "lawful_order ord" and "next_task ord addr role m = None"
  shows "assigned m addr role = Map.empty"
proof
  fix tid
  show "assigned m addr role tid = None"
  proof (cases "hm_get (pending_tasks m) tid")
    case (Some p)
    then have "(tid, p) \<in> set (hm_iter ord (pending_tasks m))"
      by (simp add: hm_iter_iff [OF assms(1)])
    with assms(2) Some show ?thesis
      by (auto simp: next_task_def find_None_iff assigned_def)
  qed (simp add: assigned_def)
qed

lemma next_task_assigned:
  "next_task ord addr role m = Some (tid, p) \<Longrightarrow> assigned m addr role tid = Some (task p)"
  by (simp add: assigned_def next_task_Some)

definition assign_frames :: "('a) serde_scheme \<Rightarrow> (string \<times> Task) list \<Rightarrow> u8 list" where
  "assign_frames J ts = concat (map (\<lambda>(tid, t). msg_frame J (AssignTask tid t)) ts)"

text \<open>
  The state after a run of the loop that wrote every message, told from the state before it.
\<close>

definition assign_post ::
  "('a) serde_scheme \<Rightarrow> string \<Rightarrow> NodeInfo \<Rightarrow> (string \<rightharpoonup> Task) \<Rightarrow> sock \<Rightarrow> MasterNode \<Rightarrow> sock \<Rightarrow> MasterNode \<Rightarrow> bool" where
  "assign_post J addr n as s m s' m' \<longleftrightarrow>
     hm_get (pending_tasks m') = hm_get (pending_tasks m) |` (- dom as)
     \<and> (\<exists>A. hm_get A = hm_get (active_tasks n) ++ as
          \<and> hm_get (connected_nodes m') = (hm_get (connected_nodes m))(addr \<mapsto> n\<lparr>active_tasks := A\<rparr>))
     \<and> (\<exists>ts. distinct (map fst ts) \<and> map_of ts = as \<and> out s' = out s @ assign_frames J ts)
     \<and> completed_tasks m' = completed_tasks m \<and> available_ports m' = available_ports m"

lemma assign_post_refl:
  assumes "hm_get (connected_nodes m) addr = Some n"
  shows "assign_post J addr n Map.empty s m s m"
proof -
  have "hm_get (active_tasks n) = hm_get (active_tasks n) ++ Map.empty \<and>
      hm_get (connected_nodes m) = (hm_get (connected_nodes m))(addr \<mapsto> n\<lparr>active_tasks := active_tasks n\<rparr>)"
    using assms by (auto simp: fun_eq_iff)
  moreover have "distinct (map fst ([] :: (string \<times> Task) list)) \<and> map_of [] = (Map.empty :: string \<rightharpoonup> Task)
      \<and> out s = out s @ assign_frames J []"
    by (simp add: assign_frames_def)
  ultimately show ?thesis unfolding assign_post_def by auto
qed

lemma assign_post_step:
  assumes "hm_get (connected_nodes m) addr = Some n"
    and as: "as tid = Some (task p)"
    and sent: "out s1 = out s @ msg_frame J (AssignTask tid (task p))"
    and post: "assign_post J addr (n\<lparr>active_tasks := hm_insert tid (task p) (active_tasks n)\<rparr>)
      (as(tid := None)) s1 (take_task addr tid p m) s' m'"
  shows "assign_post J addr n as s m s' m'"
proof -
  from post obtain A ts where
    pend: "hm_get (pending_tasks m') = (hm_get (pending_tasks m))(tid := None) |` (- dom (as(tid := None)))"
    and A: "hm_get A = (hm_get (active_tasks n))(tid \<mapsto> task p) ++ as(tid := None)"
    and nodes: "hm_get (connected_nodes m') =
      (hm_get (connected_nodes m))(addr \<mapsto> n\<lparr>active_tasks := A\<rparr>)"
    and ts: "distinct (map fst ts)" "map_of ts = as(tid := None)" "out s' = out s1 @ assign_frames J ts"
    and rest: "completed_tasks m' = completed_tasks m" "available_ports m' = available_ports m"
    using assms(1) by (auto simp: assign_post_def task_step)
  have "hm_get (pending_tasks m') = hm_get (pending_tasks m) |` (- dom as)"
    unfolding pend using as by (auto simp: restrict_map_def fun_eq_iff)
  moreover have "hm_get A = hm_get (active_tasks n) ++ as"
    unfolding A using as by (auto simp: map_add_def fun_eq_iff split: option.splits)
  moreover have "tid \<notin> fst ` set ts"
    using ts(2) by (metis fun_upd_same map_of_eq_None_iff)
  then have "distinct (map fst ((tid, task p) # ts))" using ts(1) by simp
  moreover have "map_of ((tid, task p) # ts) = as" using ts(2) as by auto
  moreover have "out s' = out s @ assign_frames J ((tid, task p) # ts)"
    using ts(3) sent by (simp add: assign_frames_def)
  ultimately show ?thesis unfolding assign_post_def using nodes rest by blast
qed

lemma assign_loop_post:
  assumes "lawful_order ord" and "hm_get (connected_nodes m) addr = Some n"
    and "assign_loop J ord addr role s m = (Inr u, s', m')"
  shows "assign_post J addr n (assigned m addr role) s m s' m'"
  using assms(2,3)
proof (induction "length (pending_tasks m)" arbitrary: s m n rule: less_induct)
  case less
  show ?case
  proof (cases "next_task ord addr role m")
    case None
    with less.prems have "s' = s" "m' = m" by (simp_all add: assign_loop.simps [of J ord addr role s m])
    with next_task_None [OF assms(1) None] less.prems(1) show ?thesis
      by (simp add: assign_post_refl)
  next
    case (Some tp)
    obtain tid p where tp: "tp = (tid, p)" by (cases tp)
    note nt = Some [unfolded tp]
    from less.prems(2) nt obtain data s1 where
      data: "to_vec J (AssignTask tid (task p)) = Some data"
      and w: "write_length_prefixed data s = (Inr (), s1)"
      and rec: "assign_loop J ord addr role s1 (take_task addr tid p m) = (Inr u, s', m')"
      by (auto simp: assign_loop.simps [of J ord addr role s m] Let_def split: option.splits prod.splits sum.splits)
    have sent: "out s1 = out s @ msg_frame J (AssignTask tid (task p))"
      using write_length_prefixed_ok(1) [OF w] data by (simp add: msg_frame_def)
    have node: "hm_get (connected_nodes (take_task addr tid p m)) addr =
        Some (n\<lparr>active_tasks := hm_insert tid (task p) (active_tasks n)\<rparr>)"
      using less.prems(1) by (simp add: task_step)
    show ?thesis
      using assign_post_step [OF less.prems(1), of "assigned m addr role", OF next_task_assigned [OF nt] sent]
        less.hyps [OF next_task_shrinks [OF nt] node rec]
      by (simp add: assigned_take)
  qed
qed

section \<open>Invariants of task assignment\<close>

text \<open>No task is worked on by two nodes.\<close>

definition single_active :: "MasterNode \<Rightarrow> bool" where
  "single_active m \<longleftrightarrow> (\<forall>a b tid. active_on m a tid \<and> active_on m b tid \<longrightarrow> a = b)"

lemma single_active_take:
  "single_active m \<Longrightarrow> eligible m addr role tid p \<Longrightarrow> single_active (take_task addr tid p m)"
  by (auto simp: single_active_def active_on_take dest: eligible_not_active)

lemma single_active_mono:
  "single_active m \<Longrightarrow> (\<And>a t. active_on m' a t \<Longrightarrow> active_on m a t) \<Longrightarrow> single_active m'"
  unfolding single_active_def by blast

lemma known_ids_take:
  "hm_get (connected_nodes m) addr \<noteq> None \<Longrightarrow> hm_get (pending_tasks m) tid \<noteq> None \<Longrightarrow>
     known_ids (take_task addr tid p m) = known_ids m"
  by (auto simp: known_ids_def active_ids_def active_on_take pending_ids_iff)

lemma known_ids_untake_take:
  "hm_get (pending_tasks m) tid \<noteq> None \<Longrightarrow> eligible m addr role tid p \<Longrightarrow>
     known_ids (untake_task addr tid p (take_task addr tid p m)) = known_ids m"
  by (auto simp: known_ids_def active_ids_def active_on_take active_on_untake pending_ids_iff
      dest: eligible_not_active)

lemma send_pending_known_ids [simp]:
  "known_ids (snd (snd (send_pending_tasks J ord addr s m))) = known_ids m"
  by (rule send_pending_invariant [where I = "\<lambda>m'. known_ids m' = known_ids m"])
    (auto simp: known_ids_take known_ids_untake_take)

lemma send_pending_single_active:
  "single_active m \<Longrightarrow> single_active (snd (snd (send_pending_tasks J ord addr s m)))"
proof (rule send_pending_invariant [where I = single_active])
  fix m n tid p
  assume I: "single_active m" and e: "eligible m addr (node_role n) tid p"
  from single_active_take [OF this] show t: "single_active (take_task addr tid p m)" .
  show "single_active (untake_task addr tid p (take_task addr tid p m))"
    by (rule single_active_mono [OF t]) (simp add: active_on_untake)
qed

lemma send_pending_completed [simp]:
  "completed_tasks (snd (snd (send_pending_tasks J ord addr s m))) = completed_tasks m"
  by (rule send_pending_invariant [where I = "\<lambda>m'. completed_tasks m' = completed_tasks m"])
    (auto simp: task_step)

lemma send_pending_available [simp]:
  "available_ports (snd (snd (send_pending_tasks J ord addr s m))) = available_ports m"
  by (rule send_pending_invariant [where I = "\<lambda>m'. available_ports m' = available_ports m"])
    (auto simp: task_step)

lemma send_pending_timeout [simp]:
  "failover_timeout_ms (snd (snd (send_pending_tasks J ord addr s m))) = failover_timeout_ms m"
  by (rule send_pending_invariant [where I = "\<lambda>m'. failover_timeout_ms m' = failover_timeout_ms m"])
    (auto simp: task_step)

text \<open>Apart from the active tasks of one node the assignment leaves the nodes alone.\<close>

definition node_static :: "NodeInfo \<Rightarrow> string \<times> u64 \<times> u16 option \<times> bool \<times> NodeRole" where
  "node_static n = (node_addr n, last_heartbeat n, node_port n, is_worker n, node_role n)"

lemma send_pending_static [simp]:
  "map_option node_static (hm_get (connected_nodes (snd (snd (send_pending_tasks J ord addr s m)))) a) =
     map_option node_static (hm_get (connected_nodes m) a)"
  by (rule send_pending_invariant [where I = "\<lambda>m'.
        map_option node_static (hm_get (connected_nodes m') a) = map_option node_static (hm_get (connected_nodes m) a)"])
    (auto simp: task_step node_static_def option.map_comp comp_def)

lemma maps_wf_take: "maps_wf m \<Longrightarrow> maps_wf (take_task addr tid p m)"
  by (auto simp: maps_wf_def task_step split: if_splits)

lemma maps_wf_untake: "maps_wf m \<Longrightarrow> maps_wf (untake_task addr tid p m)"
  by (auto simp: maps_wf_def task_step split: if_splits)

lemma send_pending_maps_wf: "maps_wf m \<Longrightarrow> maps_wf (snd (snd (send_pending_tasks J ord addr s m)))"
  by (rule send_pending_invariant [where I = maps_wf]) (auto simp: maps_wf_take maps_wf_untake)

section \<open>Ports and failover, field by field\<close>

lemma allocate_port_fields [simp]:
  "connected_nodes (snd (allocate_port m)) = connected_nodes m"
  "pending_tasks (snd (allocate_port m)) = pending_tasks m"
  "completed_tasks (snd (allocate_port m)) = completed_tasks m"
  "failover_timeout_ms (snd (allocate_port m)) = failover_timeout_ms m"
  "available_ports (snd (allocate_port m)) = tl (available_ports m)"
  by (simp_all add: allocate_port_def split: list.splits)

lemma release_port_fields [simp]:
  "pending_tasks (release_port addr m) = pending_tasks m"
  "completed_tasks (release_port addr m) = completed_tasks m"
  "failover_timeout_ms (release_port addr m) = failover_timeout_ms m"
  "connected_nodes (release_port addr m) = hm_modify addr (\<lambda>n. n\<lparr>node_port := None\<rparr>) (connected_nodes m)"
  by (simp_all add: release_port_def Let_def split: option.splits)

lemma release_port_available:
  "available_ports (release_port addr m) = available_ports m @
     (case hm_get (connected_nodes m) addr of
        Some n \<Rightarrow> (case node_port n of Some p \<Rightarrow> [p] | None \<Rightarrow> []) | None \<Rightarrow> [])"
  by (simp add: release_port_def Let_def split: option.splits)

lemma requeue_fields [simp]:
  "connected_nodes (requeue ord info m) = connected_nodes m"
  "completed_tasks (requeue ord info m) = completed_tasks m"
  "available_ports (requeue ord info m) = available_ports m"
  "failover_timeout_ms (requeue ord info m) = failover_timeout_ms m"
  by (simp_all add: requeue_def)

lemma map_of_map_snd: "map_of (map (\<lambda>(k, v). (k, f v)) xs) k = map_option f (map_of xs k)"
  by (induction xs) auto

lemma requeue_pending:
  assumes "lawful_order ord" and "hm_wf (pending_tasks m)" and "hm_wf (active_tasks info)"
  shows "hm_get (pending_tasks (requeue ord info m)) t =
     (case hm_get (active_tasks info) t of
        Some tk \<Rightarrow> Some \<lparr>task = tk, target = None\<rparr> | None \<Rightarrow> hm_get (pending_tasks m) t)"
    and "hm_wf (pending_tasks (requeue ord info m))"
proof -
  let ?es = "map (\<lambda>(tid, t). (tid, \<lparr>task = t, target = None\<rparr>)) (hm_iter ord (active_tasks info))"
  have "map fst ?es = map fst (hm_iter ord (active_tasks info))" by (simp add: comp_def split_def)
  then have "distinct (map fst ?es)" using distinct_hm_iter [OF assms(1,3)] by presburger
  from hm.look_put_all_distinct [OF assms(2) this]
  show "hm_get (pending_tasks (requeue ord info m)) t =
     (case hm_get (active_tasks info) t of
        Some tk \<Rightarrow> Some \<lparr>task = tk, target = None\<rparr> | None \<Rightarrow> hm_get (pending_tasks m) t)"
    by (simp add: requeue_def map_add_def map_of_map_snd map_of_hm_iter [OF assms(1,3)] split: option.splits)
  show "hm_wf (pending_tasks (requeue ord info m))"
    using hm.wf_put_all [OF assms(2)] by (simp add: requeue_def)
qed

lemma drop_stale_fields [simp]:
  "hm_get (connected_nodes (drop_stale ord addr m)) = (hm_get (connected_nodes m))(addr := None)"
  "completed_tasks (drop_stale ord addr m) = completed_tasks m"
  "available_ports (drop_stale ord addr m) = available_ports m"
  "failover_timeout_ms (drop_stale ord addr m) = failover_timeout_ms m"
  by (auto simp: drop_stale_def Let_def release_port_available split: option.splits)

lemma drop_stale_pending:
  assumes "lawful_order ord" and "maps_wf m"
  shows "hm_get (pending_tasks (drop_stale ord addr m)) t =
     (case hm_get (connected_nodes m) addr of
        None \<Rightarrow> hm_get (pending_tasks m) t
      | Some n \<Rightarrow>
          (case hm_get (active_tasks n) t of
             Some tk \<Rightarrow> Some \<lparr>task = tk, target = None\<rparr> | None \<Rightarrow> hm_get (pending_tasks m) t))"
    and "maps_wf (drop_stale ord addr m)"
proof -
  show "hm_get (pending_tasks (drop_stale ord addr m)) t =
     (case hm_get (connected_nodes m) addr of
        None \<Rightarrow> hm_get (pending_tasks m) t
      | Some n \<Rightarrow>
          (case hm_get (active_tasks n) t of
             Some tk \<Rightarrow> Some \<lparr>task = tk, target = None\<rparr> | None \<Rightarrow> hm_get (pending_tasks m) t))"
    using assms(2) by (auto simp: drop_stale_def Let_def maps_wf_def requeue_pending(1) [OF assms(1)]
        split: option.splits)
  have "hm_wf (pending_tasks (drop_stale ord addr m))"
    using assms(2) by (auto simp: drop_stale_def Let_def maps_wf_def requeue_pending(2) [OF assms(1)]
        split: option.splits)
  moreover have "hm_wf (connected_nodes (drop_stale ord addr m))"
    using assms(2) by (auto simp: drop_stale_def Let_def maps_wf_def split: option.splits)
  ultimately show "maps_wf (drop_stale ord addr m)"
    using assms(2) by (auto simp: maps_wf_def split: if_splits)
qed

lemma drop_stale_active_on:
  "active_on (drop_stale ord addr m) a t \<longleftrightarrow> active_on m a t \<and> a \<noteq> addr"
  by (auto simp: active_on_def)

lemma drop_stale_pending_ids:
  "lawful_order ord \<Longrightarrow> maps_wf m \<Longrightarrow>
     pending_ids (drop_stale ord addr m) = pending_ids m \<union> {t. active_on m addr t}"
  by (auto simp: pending_ids_iff drop_stale_pending active_on_def split: option.splits)

text \<open>Any number of nodes dropped one after the other.\<close>

lemma drop_all:
  assumes "lawful_order ord" and "maps_wf m"
  shows "maps_wf (fold (drop_stale ord) xs m)"
    and "hm_get (connected_nodes (fold (drop_stale ord) xs m)) a =
      (if a \<in> set xs then None else hm_get (connected_nodes m) a)"
    and "available_ports (fold (drop_stale ord) xs m) = available_ports m"
    and "completed_tasks (fold (drop_stale ord) xs m) = completed_tasks m"
    and "failover_timeout_ms (fold (drop_stale ord) xs m) = failover_timeout_ms m"
    and "active_on (fold (drop_stale ord) xs m) a t \<longleftrightarrow> active_on m a t \<and> a \<notin> set xs"
    and "pending_ids (fold (drop_stale ord) xs m) = pending_ids m \<union> {t. \<exists>a \<in> set xs. active_on m a t}"
  using assms(2)
  by (induction xs arbitrary: m)
    (auto simp: drop_stale_pending(2) [OF assms(1)] drop_stale_active_on drop_stale_pending_ids [OF assms(1)])

definition node_stale :: "u64 \<Rightarrow> MasterNode \<Rightarrow> string \<Rightarrow> bool" where
  "node_stale now m addr \<longleftrightarrow>
     (case hm_get (connected_nodes m) addr of
        None \<Rightarrow> False | Some n \<Rightarrow> failover_timeout m < sat_sub now (last_heartbeat n))"

lemma set_stale_nodes:
  "lawful_order ord \<Longrightarrow> set (stale_nodes ord now m) = {addr. node_stale now m addr}"
  by (force simp: stale_nodes_def node_stale_def hm_iter_iff split: option.splits)

lemma cleanup_fields:
  assumes "lawful_order ord" and "maps_wf m"
  shows "maps_wf (cleanup_dead_nodes ord now m)"
    and "hm_get (connected_nodes (cleanup_dead_nodes ord now m)) a =
      (if node_stale now m a then None else hm_get (connected_nodes m) a)"
    and "completed_tasks (cleanup_dead_nodes ord now m) = completed_tasks m"
    and "active_on (cleanup_dead_nodes ord now m) a t \<longleftrightarrow> active_on m a t \<and> \<not> node_stale now m a"
    and "pending_ids (cleanup_dead_nodes ord now m) =
      pending_ids m \<union> {t. \<exists>a. node_stale now m a \<and> active_on m a t}"
proof -
  let ?xs = "stale_nodes ord now m"
  note d = drop_all [OF assms, of ?xs] and st = set_stale_nodes [OF assms(1), of now m]
  show "maps_wf (cleanup_dead_nodes ord now m)"
    using d(1) by (simp add: cleanup_dead_nodes_def maps_wf_def)
  show "hm_get (connected_nodes (cleanup_dead_nodes ord now m)) a =
      (if node_stale now m a then None else hm_get (connected_nodes m) a)"
    using d(2) st by (simp add: cleanup_dead_nodes_def)
  show "completed_tasks (cleanup_dead_nodes ord now m) = completed_tasks m"
    using d(4) by (simp add: cleanup_dead_nodes_def)
  show "active_on (cleanup_dead_nodes ord now m) a t \<longleftrightarrow> active_on m a t \<and> \<not> node_stale now m a"
    using d(6) [of a t] st by (simp add: cleanup_dead_nodes_def active_on_def)
  show "pending_ids (cleanup_dead_nodes ord now m) =
      pending_ids m \<union> {t. \<exists>a. node_stale now m a \<and> active_on m a t}"
    using d(7) st by (auto simp: cleanup_dead_nodes_def pending_ids_def)
qed

lemma fold_drop_available [simp]:
  "available_ports (fold (drop_stale ord) xs m) = available_ports m"
  by (induction xs arbitrary: m) simp_all

end
