(* ===== verification/MasterPeer.thy ===== *)
theory MasterPeer
  imports MasterTasks
begin

text \<open>
  Synchronisation of two masters (CPCluster_masterNode/src/lib.rs): \<open>merge_state\<close> takes over
  what the own maps do not have, \<open>handle_peer_connection\<close> is the side that was called,
  \<open>connect_to_peer\<close> the side that calls.
\<close>

section \<open>Merging\<close>

definition merge_into :: "hash_order \<Rightarrow> 'v hmap \<Rightarrow> 'v hmap \<Rightarrow> 'v hmap" where
  "merge_into ord incoming own = fold (\<lambda>(k, v). hm_or_insert k v) (hm_iter ord incoming) own"

definition merge_state :: "hash_order \<Rightarrow> PeerState \<Rightarrow> MasterNode \<Rightarrow> MasterNode" where
  "merge_state ord st m =
     spawn_save_state
       (m\<lparr>connected_nodes := merge_into ord (ps_connected_nodes st) (connected_nodes m),
         pending_tasks := merge_into ord (ps_pending_tasks st) (pending_tasks m),
         completed_tasks := merge_into ord (ps_completed_tasks st) (completed_tasks m)\<rparr>)"

section \<open>The exchange\<close>

definition handle_peer_connection ::
  "('a) mserde_scheme \<Rightarrow> hash_order \<Rightarrow> sock \<Rightarrow> MasterNode \<Rightarrow> unit result \<times> sock \<times> MasterNode" where
  "handle_peer_connection J ord s m =
     (case read_length_prefixed s of
        (Inl e, s1) \<Rightarrow> (Inl e, s1, m)
      | (Inr data, s1) \<Rightarrow>
          (case peer_from_slice J data of
             None \<Rightarrow> (Inl Serde, s1, m)
           | Some st \<Rightarrow>
               (let m1 = merge_state ord st m;
                    local_state = collect_state m1
                in case peer_to_vec J local_state of
                     None \<Rightarrow> (Inl Serde, s1, m1)
                   | Some resp \<Rightarrow> (let (r, s2) = write_length_prefixed resp s1 in (r, s2, m1)))))"

definition master_sync_token :: string where
  "master_sync_token = ''MASTER_SYNC''"

text \<open>The inner async block of \<open>connect_to_peer\<close>.\<close>

definition peer_exchange ::
  "('a) mserde_scheme \<Rightarrow> hash_order \<Rightarrow> sock \<Rightarrow> MasterNode \<Rightarrow> unit result \<times> sock \<times> MasterNode" where
  "peer_exchange J ord s m =
     (case peer_to_vec J (collect_state m) of
        None \<Rightarrow> (Inl Serde, s, m)
      | Some data \<Rightarrow>
          (case write_length_prefixed data s of
             (Inl e, s1) \<Rightarrow> (Inl e, s1, m)
           | (Inr _, s1) \<Rightarrow>
               (case read_length_prefixed s1 of
                  (Inl e, s2) \<Rightarrow> (Inl e, s2, m)
                | (Inr resp, s2) \<Rightarrow>
                    (case peer_from_slice J resp of
                       None \<Rightarrow> (Inl Serde, s2, m)
                     | Some other \<Rightarrow> (Inr (), s2, merge_state ord other m)))))"

text \<open>
  \<open>conn\<close> is the outcome of \<open>TcpStream::connect\<close>; every failure is logged and ends the attempt.
\<close>

definition connect_to_peer ::
  "('a) mserde_scheme \<Rightarrow> hash_order \<Rightarrow> sock result \<Rightarrow> MasterNode \<Rightarrow> sock option \<times> MasterNode" where
  "connect_to_peer J ord conn m =
     (case conn of
        Inl _ \<Rightarrow> (None, m)
      | Inr s \<Rightarrow>
          (case write_length_prefixed (as_bytes master_sync_token) s of
             (Inl _, s1) \<Rightarrow> (Some s1, m)
           | (Inr _, s1) \<Rightarrow>
               (let (_, s2, m') = peer_exchange J ord s1 m in (Some s2, m'))))"

section \<open>What a merge does\<close>

lemma merge_into_get:
  assumes "lawful_order ord" and "hm_wf incoming" and "hm_wf own"
  shows "hm_get (merge_into ord incoming own) = hm_get incoming ++ hm_get own"
    and "hm_wf (merge_into ord incoming own)"
  using hm.look_put_new_all [OF assms(3), of "hm_iter ord incoming"] hm.wf_put_new_all [OF assms(3)]
  by (simp_all add: merge_into_def map_of_hm_iter [OF assms(1,2)])

definition peer_wf :: "PeerState \<Rightarrow> bool" where
  "peer_wf st \<longleftrightarrow> hm_wf (ps_connected_nodes st) \<and> hm_wf (ps_pending_tasks st) \<and> hm_wf (ps_completed_tasks st)
     \<and> (\<forall>addr n. hm_get (ps_connected_nodes st) addr = Some n \<longrightarrow> hm_wf (active_tasks n))"

lemma peer_wf_collect [simp]: "peer_wf (collect_state m) = maps_wf m"
  by (simp add: peer_wf_def maps_wf_def collect_state_def)

lemma merge_state_fields [simp]:
  "available_ports (merge_state ord st m) = available_ports m"
  "failover_timeout_ms (merge_state ord st m) = failover_timeout_ms m"
  "state_file (merge_state ord st m) = state_file m"
  by (simp_all add: merge_state_def)

lemma merge_state_get:
  assumes "lawful_order ord" and "peer_wf st" and "maps_wf m"
  shows "hm_get (connected_nodes (merge_state ord st m)) = hm_get (ps_connected_nodes st) ++ hm_get (connected_nodes m)"
    and "hm_get (pending_tasks (merge_state ord st m)) = hm_get (ps_pending_tasks st) ++ hm_get (pending_tasks m)"
    and "hm_get (completed_tasks (merge_state ord st m)) = hm_get (ps_completed_tasks st) ++ hm_get (completed_tasks m)"
    and "maps_wf (merge_state ord st m)"
proof -
  show n: "hm_get (connected_nodes (merge_state ord st m)) = hm_get (ps_connected_nodes st) ++ hm_get (connected_nodes m)"
    and "hm_get (pending_tasks (merge_state ord st m)) = hm_get (ps_pending_tasks st) ++ hm_get (pending_tasks m)"
    and "hm_get (completed_tasks (merge_state ord st m)) = hm_get (ps_completed_tasks st) ++ hm_get (completed_tasks m)"
    using assms(2,3) by (simp_all add: merge_state_def merge_into_get [OF assms(1)] peer_wf_def maps_wf_def)
  show "maps_wf (merge_state ord st m)"
    unfolding maps_wf_def n using assms(2,3)
    by (auto simp: merge_state_def merge_into_get [OF assms(1)] peer_wf_def maps_wf_def map_add_Some_iff)
qed

text \<open>Two states with the same entries, whatever the order of their maps.\<close>

definition same_maps :: "MasterNode \<Rightarrow> MasterNode \<Rightarrow> bool" where
  "same_maps m m' \<longleftrightarrow> hm_get (connected_nodes m) = hm_get (connected_nodes m')
     \<and> hm_get (pending_tasks m) = hm_get (pending_tasks m')
     \<and> hm_get (completed_tasks m) = hm_get (completed_tasks m')"

text \<open>The keys of the three maps.\<close>

definition state_keys :: "MasterNode \<Rightarrow> string set \<times> string set \<times> string set" where
  "state_keys m = (dom (hm_get (connected_nodes m)), pending_ids m, completed_ids m)"

definition peer_ok :: "('a) mserde_scheme \<Rightarrow> PeerState \<Rightarrow> bool" where
  "peer_ok J st \<longleftrightarrow> (\<exists>b. peer_to_vec J st = Some b \<and> fits_u32 b \<and> peer_from_slice J b = Some st)"

definition peer_frame :: "('a) mserde_scheme \<Rightarrow> PeerState \<Rightarrow> u8 list" where
  "peer_frame J st = (case peer_to_vec J st of None \<Rightarrow> [] | Some b \<Rightarrow> frame b)"

lemma handle_peer_connection_ok:
  assumes "peer_ok J st" and "peer_ok J (collect_state (merge_state ord st m))"
    and "inp s = peer_frame J st @ r" and "room s = None"
  shows "handle_peer_connection J ord s m =
    (Inr (), s\<lparr>inp := r, out := out s @ peer_frame J (collect_state (merge_state ord st m))\<rparr>, merge_state ord st m)"
  using assms by (auto simp: peer_ok_def handle_peer_connection_def peer_frame_def Let_def
      read_length_prefixed_frame write_length_prefixed_None)

lemma connect_to_peer_ok:
  assumes "peer_ok J (collect_state m)" and "peer_ok J other"
    and "inp s = peer_frame J other @ r" and "room s = None"
  shows "connect_to_peer J ord (Inr s) m =
    (Some (s\<lparr>inp := r, out := out s @ frame (as_bytes master_sync_token) @ peer_frame J (collect_state m)\<rparr>),
     merge_state ord other m)"
  using assms by (auto simp: peer_ok_def connect_to_peer_def peer_exchange_def peer_frame_def Let_def
      read_length_prefixed_frame write_length_prefixed_None)

end
