(* ===== verification/MasterConn.thy ===== *)
theory MasterConn
  imports MasterPeer
begin

text \<open>
  \<open>handle_connection\<close> of CPCluster_masterNode/src/lib.rs: authentication, the request loop with
  one case per message, and the end of a connection. A connection is modelled from its first byte to
  its last on a socket that holds what the peer sends; the clock and the map order may change with
  every request. \<open>?\<close> in the code is a result \<open>Inl\<close> here, which leaves the loop without the
  clean-up after it.
\<close>

section \<open>One request\<close>

datatype flow = Go | Break

definition fresh_node :: "string \<Rightarrow> u64 \<Rightarrow> NodeInfo" where
  "fresh_node addr now =
     \<lparr>node_addr = addr, last_heartbeat = now, node_port = None, active_tasks = [],
      is_worker = False, node_role = Worker\<rparr>"

definition modify_node :: "string \<Rightarrow> (NodeInfo \<Rightarrow> NodeInfo) \<Rightarrow> MasterNode \<Rightarrow> MasterNode" where
  "modify_node addr f m = m\<lparr>connected_nodes := hm_modify addr f (connected_nodes m)\<rparr>"

definition remove_node :: "string \<Rightarrow> MasterNode \<Rightarrow> MasterNode" where
  "remove_node addr m = m\<lparr>connected_nodes := hm_remove addr (connected_nodes m)\<rparr>"

definition reply ::
  "('a) mserde_scheme \<Rightarrow> NodeMessage \<Rightarrow> sock \<Rightarrow> MasterNode \<Rightarrow> flow result \<times> sock \<times> MasterNode" where
  "reply J msg s m =
     (case send_msg J msg s of (Inl e, s') \<Rightarrow> (Inl e, s', m) | (Inr _, s') \<Rightarrow> (Inr Go, s', m))"

fun process_request ::
  "('a) mserde_scheme \<Rightarrow> hash_order \<Rightarrow> u64 \<Rightarrow> string \<Rightarrow> NodeMessage \<Rightarrow> sock \<Rightarrow> MasterNode
     \<Rightarrow> flow result \<times> sock \<times> MasterNode" where
  "process_request J ord now addr (RegisterRole role) s m =
     (Inr Go, s, modify_node addr (\<lambda>n. n\<lparr>node_role := role\<rparr>) m)"
| "process_request J ord now addr GetConnectedNodes s m =
     reply J (ConnectedNodes (ord (hm_keys (connected_nodes m)))) s m"
| "process_request J ord now addr (RequestConnection target_id) s m =
     (case allocate_port m of
        (Some port, m1) \<Rightarrow>
          (let m2 = modify_node addr (\<lambda>n. n\<lparr>node_port := Some port\<rparr>) m1
           in case hm_get (connected_nodes m2) target_id of
                Some n \<Rightarrow> reply J (ConnectionInfo (node_addr n) port) s m2
              | None \<Rightarrow> (Inr Go, s, m2))
      | (None, m1) \<Rightarrow> (Inr Go, s, m1))"
| "process_request J ord now addr (SubmitTask tid t) s m =
     reply J (TaskAccepted tid) s
       (spawn_save_state (m\<lparr>pending_tasks := hm_insert tid \<lparr>task = t, target = None\<rparr> (pending_tasks m)\<rparr>))"
| "process_request J ord now addr (GetTaskResult tid) s m =
     (case hm_get (completed_tasks m) tid of
        Some result \<Rightarrow> reply J (TaskResultMsg tid result) s m
      | None \<Rightarrow> reply J (DirectMessage ''Pending'') s m)"
| "process_request J ord now addr Disconnect s m =
     (Inr Break, s, spawn_save_state (remove_node addr (release_port addr m)))"
| "process_request J ord now addr Heartbeat s m =
     reply J HeartbeatAck s (modify_node addr (\<lambda>n. n\<lparr>last_heartbeat := now, is_worker := True\<rparr>) m)"
| "process_request J ord now addr (TaskResultMsg tid result) s m =
     (let m1 = modify_node addr (\<lambda>n. n\<lparr>active_tasks := hm_remove tid (active_tasks n)\<rparr>) m;
          m2 = m1\<lparr>pending_tasks := hm_remove tid (pending_tasks m1)\<rparr>;
          m3 = m2\<lparr>completed_tasks := hm_insert tid result (completed_tasks m2)\<rparr>
      in (Inr Go, s, spawn_save_state m3))"
| "process_request J ord now addr _ s m = (Inr Go, s, m)"

text \<open>The body of the loop after a message was read: the request, then the pending tasks.\<close>

definition handle_request ::
  "('a) mserde_scheme \<Rightarrow> hash_order \<Rightarrow> u64 \<Rightarrow> string \<Rightarrow> NodeMessage \<Rightarrow> sock \<Rightarrow> MasterNode
     \<Rightarrow> flow result \<times> sock \<times> MasterNode" where
  "handle_request J ord now addr req s m =
     (case process_request J ord now addr req s m of
        (Inr Go, s1, m1) \<Rightarrow> (let (_, s2, m2) = send_pending_tasks J ord addr s1 m1 in (Inr Go, s2, m2))
      | (r, s1, m1) \<Rightarrow> (r, s1, m1))"

section \<open>The loop and the connection\<close>

text \<open>One round: read, parse, handle. A read error is the peer's going away: \<open>break\<close>.\<close>

definition conn_round ::
  "('a) mserde_scheme \<Rightarrow> hash_order \<Rightarrow> u64 \<Rightarrow> string \<Rightarrow> sock \<Rightarrow> MasterNode \<Rightarrow> flow result \<times> sock \<times> MasterNode" where
  "conn_round J ord now addr s m =
     (case read_length_prefixed s of
        (Inl _, s1) \<Rightarrow> (Inr Break, s1, m)
      | (Inr data, s1) \<Rightarrow>
          (case from_slice J data of
             None \<Rightarrow> (Inl Serde, s1, m)
           | Some req \<Rightarrow> handle_request J ord now addr req s1 m))"

text \<open>Nothing but reading consumes input.\<close>

lemma write_inpD: "write_length_prefixed d s = (r, s') \<Longrightarrow> inp s' = inp s"
  by (metis write_length_prefixed_inp snd_conv)

lemma send_msg_inpD: "send_msg J msg s = (r, s') \<Longrightarrow> inp s' = inp s"
  by (metis send_msg_inp snd_conv)

lemma reply_inpD: "reply J msg s m = (r, s', m') \<Longrightarrow> inp s' = inp s"
  by (auto simp: reply_def dest: send_msg_inpD split: prod.splits sum.splits)

lemma reply_state: "reply J msg s m = (r, s', m') \<Longrightarrow> m' = m"
  by (auto simp: reply_def split: prod.splits sum.splits)

lemma reply_flow: "reply J msg s m = (Inr f, s', m') \<Longrightarrow> f = Go"
  by (auto simp: reply_def split: prod.splits sum.splits)

lemma process_request_inpD: "process_request J ord now addr req s m = (r, s', m') \<Longrightarrow> inp s' = inp s"
  by (cases req) (auto simp: Let_def dest: reply_inpD split: prod.splits option.splits)

lemma assign_loop_inpD: "assign_loop J ord addr role s m = (r, s', m') \<Longrightarrow> inp s' = inp s"
proof (induction "length (pending_tasks m)" arbitrary: s m rule: less_induct)
  case less
  show ?case
  proof (cases "next_task ord addr role m")
    case None
    with less.prems show ?thesis by (simp add: assign_loop.simps [of J ord addr role s m])
  next
    case (Some tp)
    obtain tid p where nt: "next_task ord addr role m = Some (tid, p)" using Some by (cases tp) simp
    note IH = less.hyps [OF next_task_shrinks [OF nt]]
    from nt less.prems show ?thesis
      by (auto simp: assign_loop.simps [of J ord addr role s m] Let_def dest!: write_inpD dest: IH
          split: option.splits prod.splits sum.splits)
  qed
qed

lemma send_pending_inpD: "send_pending_tasks J ord addr s m = (r, s', m') \<Longrightarrow> inp s' = inp s"
  by (auto simp: send_pending_tasks_def dest: assign_loop_inpD split: option.splits if_splits)

lemma handle_request_inpD: "handle_request J ord now addr req s m = (r, s', m') \<Longrightarrow> inp s' = inp s"
  by (auto simp: handle_request_def Let_def dest!: process_request_inpD send_pending_inpD
      split: prod.splits sum.splits flow.splits)

lemma conn_round_shrinks:
  assumes "conn_round J ord now addr s m = (Inr Go, s', m')"
  shows "length (inp s') < length (inp s)"
proof -
  from assms obtain data s1 req where r: "read_length_prefixed s = (Inr data, s1)"
    and h: "handle_request J ord now addr req s1 m = (Inr Go, s', m')"
    by (auto simp: conn_round_def split: prod.splits sum.splits option.splits)
  from handle_request_inpD [OF h] have "inp s' = inp s1" .
  with read_length_prefixed_shrinks [OF r] show ?thesis by simp
qed

function conn_loop ::
  "('a) mserde_scheme \<Rightarrow> (nat \<Rightarrow> hash_order) \<Rightarrow> (nat \<Rightarrow> u64) \<Rightarrow> string \<Rightarrow> nat \<Rightarrow> sock \<Rightarrow> MasterNode
     \<Rightarrow> unit result \<times> sock \<times> MasterNode" where
  "conn_loop J ords clk addr i s m =
     (case conn_round J (ords i) (clk i) addr s m of
        (Inl e, s1, m1) \<Rightarrow> (Inl e, s1, m1)
      | (Inr Break, s1, m1) \<Rightarrow> (Inr (), s1, m1)
      | (Inr Go, s1, m1) \<Rightarrow> conn_loop J ords clk addr (Suc i) s1 m1)"
  by pat_completeness auto
termination
  by (relation "measure (\<lambda>(J, ords, clk, addr, i, s, m). length (inp s))")
    (auto intro: conn_round_shrinks [OF sym])

declare conn_loop.simps [simp del]

text \<open>What has been written stays written.\<close>

lemma write_outD: "write_length_prefixed d s = (r, s') \<Longrightarrow> \<exists>tail. out s' = out s @ tail"
  by (auto simp: write_length_prefixed_frame write_all_def split: option.splits if_splits)

lemma reply_outD: "reply J msg s m = (r, s', m') \<Longrightarrow> \<exists>tail. out s' = out s @ tail"
  by (auto simp: reply_def send_msg_def dest!: write_outD split: prod.splits sum.splits option.splits)

lemma process_request_outD: "process_request J ord now addr req s m = (r, s', m') \<Longrightarrow> \<exists>tail. out s' = out s @ tail"
  by (cases req) (auto simp: Let_def dest: reply_outD split: prod.splits option.splits)

lemma assign_loop_outD: "assign_loop J ord addr role s m = (r, s', m') \<Longrightarrow> \<exists>tail. out s' = out s @ tail"
proof (induction "length (pending_tasks m)" arbitrary: s m rule: less_induct)
  case less
  show ?case
  proof (cases "next_task ord addr role m")
    case None
    with less.prems show ?thesis by (simp add: assign_loop.simps [of J ord addr role s m])
  next
    case (Some tp)
    obtain tid p where nt: "next_task ord addr role m = Some (tid, p)" using Some by (cases tp) simp
    note IH = less.hyps [OF next_task_shrinks [OF nt]]
    from nt less.prems show ?thesis
      by (fastforce simp: assign_loop.simps [of J ord addr role s m] Let_def dest!: write_outD dest: IH
          split: option.splits prod.splits sum.splits)
  qed
qed

lemma send_pending_outD: "send_pending_tasks J ord addr s m = (r, s', m') \<Longrightarrow> \<exists>tail. out s' = out s @ tail"
  by (auto simp: send_pending_tasks_def dest: assign_loop_outD split: option.splits if_splits)

lemma handle_request_outD: "handle_request J ord now addr req s m = (r, s', m') \<Longrightarrow> \<exists>tail. out s' = out s @ tail"
  by (fastforce simp: handle_request_def Let_def dest!: process_request_outD send_pending_outD
      split: prod.splits sum.splits flow.splits)

lemma conn_round_outD:
  assumes "conn_round J ord now addr s m = (r, s', m')"
  shows "\<exists>tail. out s' = out s @ tail"
proof -
  obtain d s1 where rd: "read_length_prefixed s = (d, s1)" by (cases "read_length_prefixed s")
  have "out s1 = out s" using read_length_prefixed_out(1) [of s] by (simp add: rd)
  with assms rd show ?thesis
    by (auto simp: conn_round_def dest: handle_request_outD split: sum.splits option.splits)
qed

lemma conn_loop_out: "conn_loop J ords clk addr i s m = (r, s', m') \<Longrightarrow> \<exists>tail. out s' = out s @ tail"
proof (induction "length (inp s)" arbitrary: i s m rule: less_induct)
  case less
  obtain r1 s1 m1 where rd: "conn_round J (ords i) (clk i) addr s m = (r1, s1, m1)"
    by (cases "conn_round J (ords i) (clk i) addr s m")
  from conn_round_outD [OF rd] obtain tail where out1: "out s1 = out s @ tail" by blast
  show ?case
  proof (cases "r1 = Inr Go")
    case True
    with rd less.prems have "conn_loop J ords clk addr (Suc i) s1 m1 = (r, s', m')"
      by (simp add: conn_loop.simps [of J ords clk addr i])
    from less.hyps [OF conn_round_shrinks [OF rd [unfolded True]] this] out1 show ?thesis by auto
  next
    case False
    with rd less.prems out1 show ?thesis
      by (auto simp: conn_loop.simps [of J ords clk addr i] split: sum.splits flow.splits)
  qed
qed

definition end_connection :: "string \<Rightarrow> MasterNode \<Rightarrow> MasterNode" where
  "end_connection addr m = spawn_save_state (remove_node addr m)"

definition enter_node :: "string \<Rightarrow> u64 \<Rightarrow> MasterNode \<Rightarrow> MasterNode" where
  "enter_node addr now m =
     spawn_save_state (m\<lparr>connected_nodes := hm_insert addr (fresh_node addr now) (connected_nodes m)\<rparr>)"

definition serve_client ::
  "('a) mserde_scheme \<Rightarrow> (nat \<Rightarrow> hash_order) \<Rightarrow> (nat \<Rightarrow> u64) \<Rightarrow> string \<Rightarrow> sock \<Rightarrow> MasterNode
     \<Rightarrow> unit result \<times> sock \<times> MasterNode" where
  "serve_client J ords clk addr s m =
     (case write_length_prefixed (as_bytes ''OK'') s of
        (Inl e, s1) \<Rightarrow> (Inl e, s1, m)
      | (Inr _, s1) \<Rightarrow>
          (let m1 = enter_node addr (clk 0) m;
               (_, s2, m2) = send_pending_tasks J (ords 0) addr s1 m1
           in case conn_loop J ords clk addr 1 s2 m2 of
                (Inl e, s3, m3) \<Rightarrow> (Inl e, s3, m3)
              | (Inr _, s3, m3) \<Rightarrow> (Inr (), s3, end_connection addr m3)))"

definition handle_connection ::
  "('a) mserde_scheme \<Rightarrow> (nat \<Rightarrow> hash_order) \<Rightarrow> (nat \<Rightarrow> u64) \<Rightarrow> string \<Rightarrow> string \<Rightarrow> sock \<Rightarrow> MasterNode
     \<Rightarrow> unit result \<times> sock \<times> MasterNode" where
  "handle_connection J ords clk token addr s m =
     (case read_length_prefixed s of
        (Inl e, s1) \<Rightarrow> (Inl e, s1, m)
      | (Inr token_bytes, s1) \<Rightarrow>
          (case from_utf8 token_bytes of
             Inl e \<Rightarrow> (Inl e, s1, m)
           | Inr received \<Rightarrow>
               (let received_token = trim received
                in if received_token = master_sync_token then handle_peer_connection J (ords 0) s1 m
                   else if received_token = token then serve_client J ords clk addr s1 m
                   else (let (r, s2) = write_length_prefixed (as_bytes ''Invalid token'') s1 in (r, s2, m)))))"

end
