(* ===== verification/MasterLocks.thy ===== *)
theory MasterLocks
  imports Messages
begin

text \<open>
  The locks of the master. Its four maps and queues are behind a \<open>tokio::sync::Mutex\<close> each, and
  the connections, the saves, the clean-up, the peers and the shell run concurrently. This theory
  keeps of every operation the order in which it takes and drops its guards, and asks whether threads
  that run such scripts can block each other for ever. A guard that is a temporary lives to the end of
  the statement (or of the \<open>if let\<close>, or of the body it is the value of) in which it was made.
\<close>

section \<open>Threads that take and drop locks\<close>

datatype 'l lop = Acq 'l | Rel 'l

text \<open>A thread: the locks it holds and what it still has to do. A configuration is a list of them.\<close>

type_synonym 'l thread = "'l list \<times> 'l lop list"

definition taken :: "'l thread list \<Rightarrow> 'l \<Rightarrow> bool" where
  "taken ts l \<longleftrightarrow> list_ex (\<lambda>(held, _). l \<in> set held) ts"

text \<open>A step of thread \<open>i\<close>; \<open>None\<close> when it has finished or waits for a lock.\<close>

definition lock_step :: "nat \<Rightarrow> 'l thread list \<Rightarrow> 'l thread list option" where
  "lock_step i ts =
     (if i < length ts then
        (case ts ! i of
           (held, []) \<Rightarrow> None
         | (held, Acq l # rest) \<Rightarrow> if taken ts l then None else Some (ts[i := (l # held, rest)])
         | (held, Rel l # rest) \<Rightarrow> Some (ts[i := (remove1 l held, rest)]))
      else None)"

inductive lock_run :: "'l thread list \<Rightarrow> 'l thread list \<Rightarrow> bool" where
  done_run: "lock_run ts ts"
| more_run: "lock_step i ts = Some ts1 \<Longrightarrow> lock_run ts1 ts2 \<Longrightarrow> lock_run ts ts2"

definition finished :: "'l thread list \<Rightarrow> bool" where
  "finished ts \<longleftrightarrow> (\<forall>t \<in> set ts. snd t = [])"

text \<open>Deadlock: somebody has work left, and nobody can go on.\<close>

definition deadlocked :: "'l thread list \<Rightarrow> bool" where
  "deadlocked ts \<longleftrightarrow> \<not> finished ts \<and> (\<forall>i. lock_step i ts = None)"

text \<open>A schedule is a list of thread numbers; following it is a way to compute a run.\<close>

fun follow :: "nat list \<Rightarrow> 'l thread list \<Rightarrow> 'l thread list option" where
  "follow [] ts = Some ts"
| "follow (i # is) ts = (case lock_step i ts of None \<Rightarrow> None | Some ts1 \<Rightarrow> follow is ts1)"

lemma follow_run: "follow is ts = Some ts' \<Longrightarrow> lock_run ts ts'"
  by (induction "is" arbitrary: ts) (auto split: option.splits intro: lock_run.intros)

lemma deadlockedI:
  "\<not> finished ts \<Longrightarrow> \<forall>i < length ts. lock_step i ts = None \<Longrightarrow> deadlocked ts"
  unfolding deadlocked_def by (metis lock_step_def)

section \<open>Locks taken in a fixed order\<close>

text \<open>
  A script is ranked when every lock it takes ranks above all it holds, it drops only what it holds,
  and holds nothing at its end.
\<close>

fun ranked :: "('l \<Rightarrow> nat) \<Rightarrow> 'l list \<Rightarrow> 'l lop list \<Rightarrow> bool" where
  "ranked rk held [] \<longleftrightarrow> held = []"
| "ranked rk held (Acq l # rest) \<longleftrightarrow> list_all (\<lambda>h. rk h < rk l) held \<and> ranked rk (l # held) rest"
| "ranked rk held (Rel l # rest) \<longleftrightarrow> l \<in> set held \<and> ranked rk (remove1 l held) rest"

lemma ranked_append: "ranked rk held xs \<Longrightarrow> ranked rk [] ys \<Longrightarrow> ranked rk held (xs @ ys)"
  by (induction rk held xs rule: ranked.induct) simp_all

lemma ranked_concat: "\<forall>xs \<in> set xss. ranked rk [] xs \<Longrightarrow> ranked rk [] (concat xss)"
  by (induction xss) (auto intro: ranked_append)

lemma ranked_nested:
  "sorted_wrt (\<lambda>a b. rk a < rk b) ls \<Longrightarrow> list_all (\<lambda>l. list_all (\<lambda>h. rk h < rk l) held) ls \<Longrightarrow>
     ranked rk (rev ls @ held) rest \<Longrightarrow> ranked rk held (map Acq ls @ rest)"
  by (induction ls arbitrary: held) (auto simp: list_all_iff)

lemma ranked_drop: "ranked rk held (map Rel held)"
  by (induction held) auto

text \<open>The work that is left, in all threads together: every step does some of it.\<close>

definition work :: "'l thread list \<Rightarrow> nat" where
  "work ts = sum_list (map (\<lambda>t. length (snd t)) ts)"

lemma sum_list_update_less:
  "i < length ns \<Longrightarrow> (x :: nat) < ns ! i \<Longrightarrow> sum_list (ns[i := x]) < sum_list ns"
  by (induction ns arbitrary: i) (auto split: nat.splits)

lemma lock_step_work: "lock_step i ts = Some ts' \<Longrightarrow> work ts' < work ts"
  by (auto simp: lock_step_def work_def map_update intro!: sum_list_update_less
      split: if_splits prod.splits list.splits lop.splits)

text \<open>
  The contract of a lock discipline: a class of scripts that take locks by rank. Threads that run
  scripts of the class cannot block each other, and every execution runs to its end.
\<close>

locale lock_discipline =
  fixes rank :: "'l \<Rightarrow> nat"
    and script :: "'o \<Rightarrow> 'l lop list"
    and safe :: "'o \<Rightarrow> bool"
  assumes safe_ranked: "safe x \<Longrightarrow> ranked rank [] (script x)"
begin

definition orderly :: "'l thread list \<Rightarrow> bool" where
  "orderly ts \<longleftrightarrow> (\<forall>(held, rest) \<in> set ts. ranked rank held rest)"

lemma orderly_start: "\<forall>xs \<in> set xss. \<forall>x \<in> set xs. safe x \<Longrightarrow>
    orderly (map (\<lambda>xs. ([], concat (map script xs))) xss)"
  by (auto simp: orderly_def intro!: ranked_concat safe_ranked)

lemma orderly_step:
  assumes "lock_step i ts = Some ts'" and "orderly ts"
  shows "orderly ts'"
proof -
  obtain held rest where t: "ts ! i = (held, rest)" by (cases "ts ! i")
  from assms(1) have i: "i < length ts" by (simp add: lock_step_def split: if_splits)
  with t assms(2) have r: "ranked rank held rest" by (force simp: orderly_def dest: nth_mem)
  from assms(1) i t obtain held' rest' where "ts' = ts[i := (held', rest')]" "ranked rank held' rest'"
    using r by (auto simp: lock_step_def split: list.splits lop.splits if_splits)
  with assms(2) show ?thesis by (auto simp: orderly_def dest!: set_update_subset_insert [THEN subsetD])
qed

lemma orderly_run: "lock_run ts ts' \<Longrightarrow> orderly ts \<Longrightarrow> orderly ts'"
  by (induction rule: lock_run.induct) (auto dest: orderly_step)

text \<open>Whoever waits for the lock of the highest rank waits for a thread that can go on.\<close>

lemma orderly_not_deadlocked:
  assumes "orderly ts"
  shows "\<not> deadlocked ts"
proof
  assume d: "deadlocked ts"
  have waits: "\<exists>l rest. ts ! i = (held, Acq l # rest) \<and> taken ts l"
    if "i < length ts" "ts ! i = (held, op # ops)" for i held op ops
    using d that by (cases op) (auto simp: deadlocked_def lock_step_def split: if_splits)
  let ?W = "{l. \<exists>i held rest. i < length ts \<and> ts ! i = (held, Acq l # rest)}"
  have "?W \<subseteq> (\<lambda>i. case snd (ts ! i) of Acq l # _ \<Rightarrow> l | _ \<Rightarrow> undefined) ` {..< length ts}"
    by (force split: list.splits lop.splits)
  then have fin: "finite ?W" by (rule finite_subset) simp
  from d obtain i where "i < length ts" "snd (ts ! i) \<noteq> []"
    by (auto simp: deadlocked_def finished_def in_set_conv_nth)
  with waits [of i "fst (ts ! i)"] have "?W \<noteq> {}" by (cases "ts ! i", cases "snd (ts ! i)") fastforce+
  then have "Max (rank ` ?W) \<in> rank ` ?W" using fin by (intro Max_in) auto
  then obtain l where l: "l \<in> ?W" and m: "rank l = Max (rank ` ?W)" by force
  have top: "rank l' \<le> rank l" if "l' \<in> ?W" for l'
    unfolding m using fin that by (intro Max_ge) auto
  from l waits obtain held rest where "\<exists>i < length ts. ts ! i = (held, Acq l # rest)" "taken ts l" by fastforce
  then obtain held' rest' where t: "(held', rest') \<in> set ts" "l \<in> set held'"
    by (auto simp: taken_def list_ex_iff)
  from t(1) obtain j where "j < length ts" "ts ! j = (held', rest')" by (auto simp: in_set_conv_nth)
  with t(2) have j: "j < length ts" "ts ! j = (held', rest')" "l \<in> set held'" by simp_all
  with assms have r: "ranked rank held' rest'" by (force simp: orderly_def dest: nth_mem)
  with j(3) obtain op ops where "rest' = op # ops" by (cases rest') auto
  with j waits obtain l' ops' where l': "rest' = Acq l' # ops'" by fastforce
  with j have "l' \<in> ?W" by blast
  from top [OF this] r l' j(3) show False by (auto simp: list_all_iff)
qed

text \<open>So every run can be continued until everybody has finished.\<close>

lemma orderly_completes: "orderly ts \<Longrightarrow> \<exists>ts'. lock_run ts ts' \<and> finished ts'"
proof (induction "work ts" arbitrary: ts rule: less_induct)
  case less
  show ?case
  proof (cases "finished ts")
    case True
    then show ?thesis using lock_run.done_run by blast
  next
    case False
    with orderly_not_deadlocked [OF less.prems] obtain i ts1 where st: "lock_step i ts = Some ts1"
      by (auto simp: deadlocked_def)
    from less.hyps [OF lock_step_work [OF st] orderly_step [OF st less.prems]] st show ?thesis
      using lock_run.more_run by blast
  qed
qed

end

section \<open>The scripts of the master\<close>

datatype mlock = LNodes | LPorts | LPending | LCompleted

text \<open>Locks taken one inside the other and dropped together; a statement that takes one lock.\<close>

definition nested :: "mlock list \<Rightarrow> mlock lop list" where
  "nested ls = map Acq ls @ map Rel (rev ls)"

definition single :: "mlock \<Rightarrow> mlock lop list" where
  "single l = nested [l]"

text \<open>The four guards of \<open>let state = MasterState {..}\<close> are temporaries of one statement.\<close>

definition save_locks :: "mlock lop list" where
  "save_locks = nested [LNodes, LPorts, LPending, LCompleted]"

definition collect_locks :: "mlock lop list" where
  "collect_locks = nested [LNodes, LPending, LCompleted]"

definition merge_locks :: "mlock lop list" where
  "merge_locks = single LNodes @ single LPending @ single LCompleted"

text \<open>
  \<open>send_pending_tasks\<close>: the look at the role; for every task that is sent, the choice, which holds
  \<open>pending\<close> and takes \<open>nodes\<close>, and the note in \<open>active_tasks\<close>; at the end a choice that finds
  nothing, or a task whose message cannot be encoded, or cannot be written and is put back.
\<close>

datatype assign_end = NotWorker | NothingLeft | EncodeFailed | WriteFailed

definition choose_locks :: "mlock lop list" where
  "choose_locks = nested [LPending, LNodes]"

definition assign_locks :: "nat \<Rightarrow> assign_end \<Rightarrow> mlock lop list" where
  "assign_locks sent fin =
     single LNodes @
     (case fin of
        NotWorker \<Rightarrow> []
      | NothingLeft \<Rightarrow> concat (replicate sent (choose_locks @ single LNodes)) @ choose_locks
      | EncodeFailed \<Rightarrow> concat (replicate sent (choose_locks @ single LNodes)) @ choose_locks @ single LNodes
      | WriteFailed \<Rightarrow> concat (replicate sent (choose_locks @ single LNodes))
          @ choose_locks @ single LNodes @ single LPending @ single LNodes)"

definition allocate_locks :: "mlock lop list" where
  "allocate_locks = single LPorts"

definition release_locks :: "bool \<Rightarrow> mlock lop list" where
  "release_locks had_port = single LNodes @ (if had_port then single LPorts else [])"

text \<open>Per stale node: whether it was still there, whether a port was found.\<close>

definition cleanup_locks :: "(bool \<times> bool) list \<Rightarrow> mlock lop list" where
  "cleanup_locks stale =
     single LNodes @
     concat (map (\<lambda>(there, had_port). single LNodes @ (if there then single LPending else [])
       @ release_locks had_port) stale)"

text \<open>\<open>port\<close>: there was a port to hand out or to take back.\<close>

definition request_locks :: "bool \<Rightarrow> NodeMessage \<Rightarrow> mlock lop list" where
  "request_locks port req =
     (case req of
        RegisterRole _ \<Rightarrow> single LNodes
      | GetConnectedNodes \<Rightarrow> single LNodes
      | RequestConnection _ \<Rightarrow> allocate_locks @ (if port then single LNodes @ single LNodes else [])
      | SubmitTask _ _ \<Rightarrow> single LPending
      | GetTaskResult _ \<Rightarrow> single LCompleted
      | Disconnect \<Rightarrow> release_locks port @ single LNodes
      | Heartbeat \<Rightarrow> single LNodes
      | TaskResultMsg _ _ \<Rightarrow> single LNodes @ single LPending @ single LCompleted
      | _ \<Rightarrow> [])"

text \<open>
  \<open>if let Some(result) = master.completed_tasks.lock().await.remove(&id) { save_state(master).await; .. }\<close>:
  the guard of the scrutinee lives to the end of the body.
\<close>

definition poll_found_locks :: "mlock lop list" where
  "poll_found_locks = Acq LCompleted # save_locks @ [Rel LCompleted]"

text \<open>The branch after the timeout, which has dropped the polling future and its guards.\<close>

definition poll_timeout_locks :: "mlock lop list" where
  "poll_timeout_locks = single LPending @ save_locks"

text \<open>The listing commands of the shell; the status of a task is looked for in up to three places.\<close>

definition tasks_locks :: "mlock lop list" where
  "tasks_locks = single LNodes @ single LPending @ single LCompleted"

definition status_locks :: "nat \<Rightarrow> mlock lop list" where
  "status_locks places = concat (map single (take places [LPending, LNodes, LCompleted]))"

datatype master_op =
    OpSave
  | OpCollect
  | OpMerge
  | OpAssign nat assign_end
  | OpCleanup "(bool \<times> bool) list"
  | OpEnter
  | OpRequest bool NodeMessage
  | OpLeave
  | OpShellAdd
  | OpPollMiss
  | OpPollFound
  | OpPollTimeout
  | OpNodes
  | OpTasks
  | OpStatus nat
  | OpLive

fun op_locks :: "master_op \<Rightarrow> mlock lop list" where
  "op_locks OpSave = save_locks"
| "op_locks OpCollect = collect_locks"
| "op_locks OpMerge = merge_locks"
| "op_locks (OpAssign sent fin) = assign_locks sent fin"
| "op_locks (OpCleanup stale) = cleanup_locks stale"
| "op_locks OpEnter = single LNodes"
| "op_locks (OpRequest port req) = request_locks port req"
| "op_locks OpLeave = single LNodes"
| "op_locks OpShellAdd = single LPending"
| "op_locks OpPollMiss = single LCompleted"
| "op_locks OpPollFound = poll_found_locks"
| "op_locks OpPollTimeout = poll_timeout_locks"
| "op_locks OpNodes = single LNodes"
| "op_locks OpTasks = tasks_locks"
| "op_locks (OpStatus places) = status_locks places"
| "op_locks OpLive = single LNodes"

text \<open>The order in which \<open>save_state\<close> takes the locks.\<close>

fun lock_rank :: "mlock \<Rightarrow> nat" where
  "lock_rank LNodes = 0"
| "lock_rank LPorts = 1"
| "lock_rank LPending = 2"
| "lock_rank LCompleted = 3"

text \<open>All operations but a task assignment to a worker and the answered poll of the shell.\<close>

definition keeps_order :: "master_op \<Rightarrow> bool" where
  "keeps_order x = (case x of OpAssign _ fin \<Rightarrow> fin = NotWorker | OpPollFound \<Rightarrow> False | _ \<Rightarrow> True)"

lemma ranked_single [simp]: "ranked lock_rank [] (single l)"
  by (simp add: single_def nested_def)

lemmas lock_scripts = save_locks_def collect_locks_def merge_locks_def assign_locks_def allocate_locks_def
  release_locks_def request_locks_def poll_timeout_locks_def tasks_locks_def status_locks_def

interpretation locks: lock_discipline lock_rank op_locks keeps_order
proof unfold_locales
  fix x
  assume "keeps_order x"
  moreover have "ranked lock_rank [] (cleanup_locks stale)" for stale
    by (auto simp: cleanup_locks_def release_locks_def intro!: ranked_append ranked_concat)
  moreover have "ranked lock_rank [] (request_locks port req)" for port req
    by (auto simp: request_locks_def release_locks_def allocate_locks_def intro!: ranked_append split: NodeMessage.splits)
  ultimately show "ranked lock_rank [] (op_locks x)"
    by (cases x) (auto simp: keeps_order_def lock_scripts nested_def intro!: ranked_append ranked_concat)
qed

section \<open>Deadlocks and their absence\<close>

text \<open>Threads that have not started, each with the operations it is going to do.\<close>

definition start_threads :: "master_op list list \<Rightarrow> mlock thread list" where
  "start_threads xss = map (\<lambda>xs. ([], concat (map op_locks xs))) xss"

text \<open>
  C13: without the assignment of tasks to workers and without the shell's polls, the master cannot
  block: any number of threads, each doing any sequence of the other operations, can always go on
  until all have finished, whatever has happened so far.
\<close>

theorem ordered_operations_never_block:
  assumes "\<forall>xs \<in> set xss. \<forall>x \<in> set xs. keeps_order x" and "lock_run (start_threads xss) ts"
  shows "\<not> deadlocked ts \<and> (\<exists>ts'. lock_run ts ts' \<and> finished ts')"
proof -
  have "locks.orderly ts"
    using locks.orderly_run [OF assms(2)] locks.orderly_start [OF assms(1)] by (simp add: start_threads_def)
  then show ?thesis using locks.orderly_not_deadlocked locks.orderly_completes by blast
qed

theorem ordered_operations_never_block_witness:
  "\<not> deadlocked (start_threads [[OpRequest True Heartbeat, OpAssign 0 NotWorker], [OpSave], [OpCollect, OpMerge]])"
  using ordered_operations_never_block [OF _ lock_run.done_run,
      of "[[OpRequest True Heartbeat, OpAssign 0 NotWorker], [OpSave], [OpCollect, OpMerge]]"]
  by (simp add: keeps_order_def)

text \<open>
  C1: the master can block for ever. \<open>send_pending_tasks\<close> holds \<open>pending_tasks\<close> when it takes
  \<open>connected_nodes\<close>; \<open>save_state\<close> and \<open>collect_state\<close> hold \<open>connected_nodes\<close> when they take
  \<open>pending_tasks\<close>. A worker with nothing to do and one save that is running suffice: there is an
  interleaving after which each holds what the other one waits for.
\<close>

theorem save_and_assignment_deadlock:
  "(\<exists>ts. lock_run (start_threads [[OpSave], [OpAssign 0 NothingLeft]]) ts \<and> deadlocked ts)
   \<and> (\<exists>ts. lock_run (start_threads [[OpCollect], [OpAssign 0 NothingLeft]]) ts \<and> deadlocked ts)"
proof
  have "follow [1, 1, 1, 0, 0] (start_threads [[OpSave], [OpAssign 0 NothingLeft]]) =
      Some [([LPorts, LNodes], drop 2 save_locks), ([LPending], Acq LNodes # map Rel [LNodes, LPending])]"
    by code_simp
  moreover have "deadlocked [([LPorts, LNodes], drop 2 save_locks), ([LPending], Acq LNodes # map Rel [LNodes, LPending])]"
    by (rule deadlockedI)
      (auto simp: finished_def save_locks_def nested_def lock_step_def taken_def less_Suc_eq numeral_2_eq_2)
  ultimately show "\<exists>ts. lock_run (start_threads [[OpSave], [OpAssign 0 NothingLeft]]) ts \<and> deadlocked ts"
    by (blast dest: follow_run)
next
  have "follow [1, 1, 1, 0] (start_threads [[OpCollect], [OpAssign 0 NothingLeft]]) =
      Some [([LNodes], drop 1 collect_locks), ([LPending], Acq LNodes # map Rel [LNodes, LPending])]"
    by code_simp
  moreover have "deadlocked [([LNodes], drop 1 collect_locks), ([LPending], Acq LNodes # map Rel [LNodes, LPending])]"
    by (rule deadlockedI)
      (auto simp: finished_def collect_locks_def nested_def lock_step_def taken_def less_Suc_eq numeral_2_eq_2)
  ultimately show "\<exists>ts. lock_run (start_threads [[OpCollect], [OpAssign 0 NothingLeft]]) ts \<and> deadlocked ts"
    by (blast dest: follow_run)
qed

text \<open>The five stages of a thread that found the answer: the sixth lock operation never happens.\<close>

definition found_stage :: "nat \<Rightarrow> mlock thread" where
  "found_stage k = (rev (take k [LCompleted, LNodes, LPorts, LPending]), drop k poll_found_locks)"

lemma found_script: "poll_found_locks =
    map Acq [LCompleted, LNodes, LPorts, LPending, LCompleted] @ map Rel [LCompleted, LPending, LPorts, LNodes, LCompleted]"
  by (simp add: poll_found_locks_def save_locks_def nested_def)

lemma found_stage_step:
  assumes "lock_step i ts = Some ts'" and "ts \<noteq> []" and "ts ! 0 = found_stage k" and "k \<le> 4"
  shows "ts' \<noteq> [] \<and> (\<exists>k' \<le> 4. ts' ! 0 = found_stage k')"
proof (cases i)
  case (Suc j)
  with assms show ?thesis
    by (auto simp: lock_step_def split: if_splits prod.splits list.splits lop.splits)
next
  case 0
  have k: "k = 0 \<or> k = 1 \<or> k = 2 \<or> k = 3 \<or> k = 4" using assms(4) by linarith
  have "taken ts LCompleted" if "k = 4"
  proof -
    have "ts ! 0 \<in> set ts" using assms(2) by simp
    then show ?thesis unfolding taken_def list_ex_iff assms(3) that
      by (rule bexI [rotated]) (simp add: found_stage_def)
  qed
  with k 0 assms(1,2,3) have "ts' = ts[0 := found_stage (Suc k)] \<and> k < 4"
    by (auto simp: found_stage_def found_script lock_step_def numeral_eq_Suc split: if_splits)
  with assms(2) show ?thesis by (intro conjI exI [of _ "Suc k"]) auto
qed

lemma found_stage_run:
  "lock_run ts ts' \<Longrightarrow> ts \<noteq> [] \<Longrightarrow> ts ! 0 = found_stage k \<Longrightarrow> k \<le> 4 \<Longrightarrow>
     ts' \<noteq> [] \<and> (\<exists>k' \<le> 4. ts' ! 0 = found_stage k')"
  by (induction arbitrary: k rule: lock_run.induct) (auto dest!: found_stage_step)

text \<open>No operation begins with dropping a lock.\<close>

definition begins_acq :: "'l lop list \<Rightarrow> bool" where
  "begins_acq xs = (case xs of Rel _ # _ \<Rightarrow> False | _ \<Rightarrow> True)"

lemma begins_acq_append [intro]: "begins_acq xs \<Longrightarrow> begins_acq ys \<Longrightarrow> begins_acq (xs @ ys)"
  by (cases xs) (auto simp: begins_acq_def)

lemma begins_acq_concat: "\<forall>xs \<in> set xss. begins_acq xs \<Longrightarrow> begins_acq (concat xss)"
  by (induction xss) (auto simp: begins_acq_def intro!: begins_acq_append [unfolded begins_acq_def])

lemma begins_acq_nested [simp]: "begins_acq (nested ls)" "begins_acq (single l)" "begins_acq []"
  by (cases ls; simp add: nested_def single_def begins_acq_def)+

lemma begins_acq_op: "begins_acq (op_locks x)"
proof (cases x)
  case (OpAssign sent fin)
  then show ?thesis by (auto simp: assign_locks_def intro: begins_acq_append simp: begins_acq_def single_def nested_def)
next
  case (OpRequest port req)
  then show ?thesis
    by (auto simp: request_locks_def allocate_locks_def release_locks_def intro!: begins_acq_append split: NodeMessage.splits)
next
  case (OpCleanup stale)
  then show ?thesis by (simp add: cleanup_locks_def single_def nested_def begins_acq_def)
next
  case (OpStatus places)
  then show ?thesis by (auto simp: status_locks_def intro!: begins_acq_concat)
qed (auto simp: save_locks_def collect_locks_def merge_locks_def found_script poll_timeout_locks_def tasks_locks_def
    begins_acq_def single_def nested_def)

text \<open>The timeout of the poll, which thread 0 is running.\<close>

definition cancel_poll :: "mlock thread list \<Rightarrow> mlock thread list" where
  "cancel_poll ts = ts[0 := ([], poll_timeout_locks)]"

lemma cancelled_poll_finishes:
  assumes "\<forall>xs \<in> set xss. \<forall>x \<in> set xs. keeps_order x"
  shows "\<exists>ts'. lock_run (([], poll_timeout_locks) # start_threads xss) ts' \<and> finished ts'"
proof -
  have "locks.orderly (start_threads ([OpPollTimeout] # xss))"
    unfolding start_threads_def by (rule locks.orderly_start) (use assms in \<open>auto simp: keeps_order_def\<close>)
  from locks.orderly_completes [OF this] show ?thesis by (simp add: start_threads_def)
qed

text \<open>
  C14: when the shell's poll finds the answer it has asked for, it locks itself out: it still holds
  \<open>completed_tasks\<close> when \<open>save_state\<close> wants that lock, so it gets no further, whatever the other threads
  do, and it can bring everything to a halt, since it holds all four locks by then. Only the timeout, which
  drops the poll with its guards, ends this; after it everything can finish, but the answer is lost.
\<close>

theorem found_answer_blocks:
  assumes "lock_run (start_threads ([OpPollFound] # xss)) ts" and "\<forall>xs \<in> set xss. \<forall>x \<in> set xs. keeps_order x"
  shows "\<not> finished ts
    \<and> (\<exists>ts. lock_run (start_threads ([OpPollFound] # xss)) ts
          \<and> fst (ts ! 0) = [LPending, LPorts, LNodes, LCompleted] \<and> deadlocked ts
          \<and> (\<exists>ts'. lock_run (cancel_poll ts) ts' \<and> finished ts'))"
proof
  have st: "start_threads ([OpPollFound] # xss) = found_stage 0 # start_threads xss"
    by (simp add: start_threads_def found_stage_def)
  from found_stage_run [OF assms(1) [unfolded st], of 0] obtain k where
    "ts \<noteq> []" "k \<le> 4" "ts ! 0 = found_stage k" by auto
  then have "snd (ts ! 0) \<noteq> []" by (simp add: found_stage_def found_script)
  with \<open>ts \<noteq> []\<close> show "\<not> finished ts" unfolding finished_def by (meson length_greater_0_conv nth_mem)
  have fresh: "\<not> taken (start_threads xss) l" for l
    by (auto simp: taken_def start_threads_def list_ex_iff)
  let ?ts = "found_stage 4 # start_threads xss"
  have "follow [0, 0, 0, 0] (found_stage 0 # start_threads xss) = Some ?ts"
    using fresh by (simp add: found_stage_def found_script lock_step_def taken_def)
  then have run: "lock_run (found_stage 0 # start_threads xss) ?ts" by (rule follow_run)
  have all: "taken ?ts l" for l by (cases l) (simp_all add: taken_def found_stage_def)
  have "lock_step i ?ts = None" if "i < length ?ts" for i
  proof (cases i)
    case 0
    then show ?thesis using all by (simp add: lock_step_def found_stage_def found_script)
  next
    case (Suc j)
    with that obtain xs where "?ts ! i = ([], concat (map op_locks xs))"
      by (auto simp: start_threads_def)
    moreover have "begins_acq (concat (map op_locks xs))"
      by (rule begins_acq_concat) (simp add: begins_acq_op)
    ultimately show ?thesis using all
      by (cases "concat (map op_locks xs)")
        (auto simp: lock_step_def begins_acq_def simp del: concat_eq_Nil_conv split: lop.splits)
  qed
  then have "deadlocked ?ts"
    by (intro deadlockedI) (auto simp: finished_def found_stage_def found_script)
  with run cancelled_poll_finishes [OF assms(2)] show "\<exists>ts. lock_run (start_threads ([OpPollFound] # xss)) ts
      \<and> fst (ts ! 0) = [LPending, LPorts, LNodes, LCompleted] \<and> deadlocked ts
      \<and> (\<exists>ts'. lock_run (cancel_poll ts) ts' \<and> finished ts')"
    unfolding st by (intro exI [of _ ?ts]) (simp add: found_stage_def cancel_poll_def)
qed

theorem found_answer_blocks_witness: "\<not> finished (start_threads [[OpPollFound], [OpRequest True Heartbeat]])"
  using found_answer_blocks [OF lock_run.done_run, of "[[OpRequest True Heartbeat]]"] by (simp add: keeps_order_def)

end
