(* ===== verification/MasterShell.thy ===== *)
theory MasterShell
  imports MasterConn MasterLocks
begin

text \<open>
  The interactive shell of the master (CPCluster_masterNode/src/shell.rs): how a line is cut into
  commands, how a command is recognised, what it does to the master, and \<open>submit_task_for_node\<close>,
  which queues a task for one node and polls for its result while the connections go on. Printed
  lines are values of \<open>shell_out\<close>; their text is not modelled.
\<close>

section \<open>Commands\<close>

datatype shell_cmd =
    CmdNodes
  | CmdTasks
  | CmdTask string
  | CmdTaskUsage
  | CmdAddTask Task
  | CmdAddTaskUsage
  | CmdAddTaskUnknown
  | CmdGetGlobalRam
  | CmdGetStorage
  | CmdExit
  | CmdEmpty
  | CmdUnknown

text \<open>The arms of the \<open>match\<close> on the trimmed command, in their order.\<close>

definition parse_cmd :: "string \<Rightarrow> shell_cmd" where
  "parse_cmd piece =
     (let cmd = trim piece
      in if cmd = ''nodes'' then CmdNodes
         else if cmd = ''tasks'' then CmdTasks
         else if starts_with ''task'' (trim_start cmd) then
           (let parts = split_whitespace cmd
            in if length parts \<noteq> 2 then CmdTaskUsage else CmdTask (parts ! 1))
         else if starts_with ''addtask'' (trim_start cmd) then
           (let parts = splitn 3 CHR '' '' cmd
            in if length parts < 3 then CmdAddTaskUsage
               else if parts ! 1 = ''compute'' then CmdAddTask (Compute (parts ! 2))
               else if parts ! 1 = ''http'' then CmdAddTask (HttpRequest (parts ! 2))
               else CmdAddTaskUnknown)
         else if cmd = ''getglobalram'' then CmdGetGlobalRam
         else if cmd = ''getstorage'' then CmdGetStorage
         else if cmd = ''exit'' \<or> cmd = ''quit'' then CmdExit
         else if cmd = '''' then CmdEmpty
         else CmdUnknown)"

datatype shell_out =
    OutNode string NodeRole
  | OutNoNodes
  | OutActive string string Task
  | OutNoActive
  | OutPending string PendingTask
  | OutNoPending
  | OutCompleted string TaskResult
  | OutNoCompleted
  | OutUsage
  | OutIsPending string
  | OutIsRunning string
  | OutFinished string TaskResult
  | OutNotFound string
  | OutUnknownType
  | OutQueued string
  | OutNoneAvailable
  | OutHeader string
  | OutText string
  | OutError string
  | OutUnexpected TaskResult
  | OutTimedOut
  | OutExiting
  | OutUnknown

section \<open>Asking one node\<close>

text \<open>
  What the shell does not control during one command: the fresh UUID, what the connections do to
  the master between two polls, how many polls fit into the timeout, the time, the order of the
  maps, the fate of a write of the state file.
\<close>

record shell_env =
  fresh_id :: string
  others :: "nat \<Rightarrow> MasterNode \<Rightarrow> MasterNode"
  polls :: nat
  wall :: u64
  order :: hash_order
  write_fate :: fate

fun poll_result :: "(nat \<Rightarrow> MasterNode \<Rightarrow> MasterNode) \<Rightarrow> string \<Rightarrow> nat \<Rightarrow> nat \<Rightarrow> MasterNode
     \<Rightarrow> TaskResult option \<times> MasterNode" where
  "poll_result env tid i 0 m = (None, m)"
| "poll_result env tid i (Suc n) m =
     (case hm_get (completed_tasks m) tid of
        Some result \<Rightarrow> (Some result, m\<lparr>completed_tasks := hm_remove tid (completed_tasks m)\<rparr>)
      | None \<Rightarrow> poll_result env tid (Suc i) n (env i m))"

text \<open>
  A script blocks itself when it takes a lock that its own task holds. The body of the
  \<open>if let\<close> in the poll calls \<open>save_state\<close> with the guard of \<open>completed_tasks\<close> still alive, so it
  waits, with no other thread able to change that, until the timeout drops the whole future.
\<close>

definition blocks_itself :: "mlock list \<Rightarrow> mlock lop list \<Rightarrow> bool" where
  "blocks_itself held script = list_ex (\<lambda>x. case x of Acq l \<Rightarrow> l \<in> set held | Rel _ \<Rightarrow> False) script"

definition submit_task_for_node ::
  "('a) mserde_scheme \<Rightarrow> shell_env \<Rightarrow> string \<Rightarrow> Task \<Rightarrow> MasterNode \<Rightarrow> files
     \<Rightarrow> TaskResult option \<times> MasterNode \<times> files" where
  "submit_task_for_node J w tgt t m fs =
     (let tid = fresh_id w;
          m1 = m\<lparr>pending_tasks := hm_insert tid \<lparr>task = t, target = Some tgt\<rparr> (pending_tasks m)\<rparr>;
          fs1 = save_state J (write_fate w) m1 fs;
          timed_out = (\<lambda>m2. let m3 = m2\<lparr>pending_tasks := hm_remove tid (pending_tasks m2)\<rparr>
              in (None, m3, save_state J (write_fate w) m3 fs1))
      in case poll_result (others w) tid 0 (polls w) m1 of
           (Some result, m2) \<Rightarrow>
             if blocks_itself [LCompleted] save_locks then timed_out m2
             else (Some result, m2, save_state J (write_fate w) m2 fs1)
         | (None, m2) \<Rightarrow> timed_out m2)"

definition show_answer :: "TaskResult option \<Rightarrow> shell_out" where
  "show_answer res =
     (case res of
        Some (Response r) \<Rightarrow> OutText (trim r)
      | Some (Error e) \<Rightarrow> OutError e
      | Some other \<Rightarrow> OutUnexpected other
      | None \<Rightarrow> OutTimedOut)"

text \<open>The \<open>k\<close>-th use of the environment belongs to the \<open>k\<close>-th task the shell creates.\<close>

fun ask_nodes :: "('a) mserde_scheme \<Rightarrow> (nat \<Rightarrow> shell_env) \<Rightarrow> Task \<Rightarrow> string list \<Rightarrow> nat \<Rightarrow> MasterNode \<Rightarrow> files
     \<Rightarrow> shell_out list \<times> nat \<times> MasterNode \<times> files" where
  "ask_nodes J ws t [] k m fs = ([], k, m, fs)"
| "ask_nodes J ws t (addr # addrs) k m fs =
     (let (res, m1, fs1) = submit_task_for_node J (ws k) addr t m fs;
          (outs, k', m', fs') = ask_nodes J ws t addrs (Suc k) m1 fs1
      in (OutHeader addr # show_answer res # outs, k', m', fs'))"

text \<open>The live nodes of a role.\<close>

definition live_nodes :: "hash_order \<Rightarrow> u64 \<Rightarrow> NodeRole \<Rightarrow> MasterNode \<Rightarrow> string list" where
  "live_nodes ord now role m =
     map (\<lambda>(_, n). node_addr n)
       (filter (\<lambda>(_, n). node_role n = role \<and> sat_sub now (last_heartbeat n) \<le> failover_timeout m)
         (hm_iter ord (connected_nodes m)))"

section \<open>Executing commands\<close>

definition list_nodes :: "hash_order \<Rightarrow> MasterNode \<Rightarrow> shell_out list" where
  "list_nodes ord m =
     (if connected_nodes m = [] then [OutNoNodes]
      else map (\<lambda>(addr, n). OutNode addr (node_role n)) (hm_iter ord (connected_nodes m)))"

definition list_tasks :: "hash_order \<Rightarrow> MasterNode \<Rightarrow> shell_out list" where
  "list_tasks ord m =
     (let active = concat (map (\<lambda>(addr, n). map (\<lambda>(tid, t). OutActive addr tid t) (hm_iter ord (active_tasks n)))
            (hm_iter ord (connected_nodes m)))
      in (if active = [] then [OutNoActive] else active)
         @ (if pending_tasks m = [] then [OutNoPending]
            else map (\<lambda>(tid, p). OutPending tid p) (hm_iter ord (pending_tasks m)))
         @ (if completed_tasks m = [] then [OutNoCompleted]
            else map (\<lambda>(tid, r). OutCompleted tid r) (hm_iter ord (completed_tasks m))))"

definition task_status :: "string \<Rightarrow> MasterNode \<Rightarrow> shell_out" where
  "task_status tid m =
     (if hm_get (pending_tasks m) tid \<noteq> None then OutIsPending tid
      else if list_ex (\<lambda>n. hm_get (active_tasks n) tid \<noteq> None) (hm_values (connected_nodes m))
        then OutIsRunning tid
      else case hm_get (completed_tasks m) tid of
             Some result \<Rightarrow> OutFinished tid result
           | None \<Rightarrow> OutNotFound tid)"

definition add_task :: "string \<Rightarrow> Task \<Rightarrow> MasterNode \<Rightarrow> MasterNode" where
  "add_task tid t m = m\<lparr>pending_tasks := hm_insert tid \<lparr>task = t, target = None\<rparr> (pending_tasks m)\<rparr>"

text \<open>Whether the shell goes on, what it printed, the next environment, the master, the files.\<close>

fun exec_cmd :: "('a) mserde_scheme \<Rightarrow> (nat \<Rightarrow> shell_env) \<Rightarrow> shell_cmd \<Rightarrow> nat \<Rightarrow> MasterNode \<Rightarrow> files
     \<Rightarrow> flow \<times> shell_out list \<times> nat \<times> MasterNode \<times> files" where
  "exec_cmd J ws CmdNodes k m fs = (Go, list_nodes (order (ws k)) m, k, m, fs)"
| "exec_cmd J ws CmdTasks k m fs = (Go, list_tasks (order (ws k)) m, k, m, fs)"
| "exec_cmd J ws CmdTaskUsage k m fs = (Go, [OutUsage], k, m, fs)"
| "exec_cmd J ws (CmdTask tid) k m fs = (Go, [task_status tid m], k, m, fs)"
| "exec_cmd J ws CmdAddTaskUsage k m fs = (Go, [OutUsage], k, m, fs)"
| "exec_cmd J ws CmdAddTaskUnknown k m fs = (Go, [OutUnknownType], Suc k, m, fs)"
| "exec_cmd J ws (CmdAddTask t) k m fs =
     (let tid = fresh_id (ws k); m1 = add_task tid t m
      in (Go, [OutQueued tid], Suc k, m1, save_state J (write_fate (ws k)) m1 fs))"
| "exec_cmd J ws CmdGetGlobalRam k m fs =
     (let nodes = live_nodes (order (ws k)) (wall (ws k)) Worker m
      in if nodes = [] then (Go, [OutNoneAvailable], k, m, fs)
         else (let (outs, k', m', fs') = ask_nodes J ws GetGlobalRam nodes k m fs in (Go, outs, k', m', fs')))"
| "exec_cmd J ws CmdGetStorage k m fs =
     (let nodes = live_nodes (order (ws k)) (wall (ws k)) Disk m
      in if nodes = [] then (Go, [OutNoneAvailable], k, m, fs)
         else (let (outs, k', m', fs') = ask_nodes J ws GetStorage nodes k m fs in (Go, outs, k', m', fs')))"
| "exec_cmd J ws CmdExit k m fs = (Break, [OutExiting], k, m, fs)"
| "exec_cmd J ws CmdEmpty k m fs = (Go, [], k, m, fs)"
| "exec_cmd J ws CmdUnknown k m fs = (Go, [OutUnknown], k, m, fs)"

fun exec_cmds :: "('a) mserde_scheme \<Rightarrow> (nat \<Rightarrow> shell_env) \<Rightarrow> shell_cmd list \<Rightarrow> nat \<Rightarrow> MasterNode \<Rightarrow> files
     \<Rightarrow> flow \<times> shell_out list \<times> nat \<times> MasterNode \<times> files" where
  "exec_cmds J ws [] k m fs = (Go, [], k, m, fs)"
| "exec_cmds J ws (c # cs) k m fs =
     (case exec_cmd J ws c k m fs of
        (Break, outs, k1, m1, fs1) \<Rightarrow> (Break, outs, k1, m1, fs1)
      | (Go, outs, k1, m1, fs1) \<Rightarrow>
          (let (f, outs', k2, m2, fs2) = exec_cmds J ws cs k1 m1 fs1 in (f, outs @ outs', k2, m2, fs2)))"

definition parse_line :: "string \<Rightarrow> shell_cmd list" where
  "parse_line line = map parse_cmd (split_on CHR '';'' line)"

fun run_shell :: "('a) mserde_scheme \<Rightarrow> (nat \<Rightarrow> shell_env) \<Rightarrow> string list \<Rightarrow> nat \<Rightarrow> MasterNode \<Rightarrow> files
     \<Rightarrow> shell_out list \<times> nat \<times> MasterNode \<times> files" where
  "run_shell J ws [] k m fs = ([], k, m, fs)"
| "run_shell J ws (line # lines) k m fs =
     (case exec_cmds J ws (parse_line line) k m fs of
        (Break, outs, k1, m1, fs1) \<Rightarrow> (outs, k1, m1, fs1)
      | (Go, outs, k1, m1, fs1) \<Rightarrow>
          (let (outs', k2, m2, fs2) = run_shell J ws lines k1 m1 fs1 in (outs @ outs', k2, m2, fs2)))"

end
