(* ===== verification/MasterSystem.thy ===== *)
theory MasterSystem
  imports MasterShell
begin

text \<open>
  The master as a state machine: its start (\<open>run\<close> of CPCluster_masterNode/src/lib.rs), the
  steps its connections, the clean-up task, the peers and the shell take in any interleaving, and the
  invariants of every state it can reach. One step is one request of one connection (with the
  assignment of pending tasks that follows it), one clean-up, one merge, one action of the shell.
\<close>

section \<open>Start\<close>

text \<open>\<open>(config.min_port..=config.max_port).collect()\<close>\<close>

definition port_range :: "u16 \<Rightarrow> u16 \<Rightarrow> u16 list" where
  "port_range lo hi = map word_of_nat [unat lo ..< Suc (unat hi)]"

definition init_master :: "Config \<Rightarrow> MasterNode" where
  "init_master c =
     \<lparr>connected_nodes = [], available_ports = port_range (min_port c) (max_port c),
      failover_timeout_ms = cfg_failover_timeout_ms c, pending_tasks = [], completed_tasks = [],
      state_file = cfg_state_file c, spawned_saves = 0\<rparr>"

text \<open>The address the master binds and publishes in the join file.\<close>

definition listen_addr :: "Config \<Rightarrow> string \<times> u16" where
  "listen_addr c =
     (let addr = (case master_addresses c of a # _ \<Rightarrow> a | [] \<Rightarrow> ''127.0.0.1:55000'');
          parts = split_on CHR '':'' addr;
          ip = (case parts of p # _ \<Rightarrow> p | [] \<Rightarrow> ''127.0.0.1'');
          port_str = (case parts of _ # q # _ \<Rightarrow> q | _ \<Rightarrow> ''55000'')
      in (ip, case parse_u16 port_str of Some p \<Rightarrow> p | None \<Rightarrow> 55000))"

definition join_info_of :: "string \<Rightarrow> Config \<Rightarrow> JoinInfo" where
  "join_info_of token c =
     (let (ip, port) = listen_addr c in \<lparr>join_token = token, join_ip = ip, join_port = port\<rparr>)"

definition start_master :: "('a) mserde_scheme \<Rightarrow> files \<Rightarrow> Config \<Rightarrow> MasterNode" where
  "start_master J fs c = load_state J fs (init_master c)"

section \<open>Ports as a pool\<close>

text \<open>Free ports and owners: nobody owns a free port, no port has two owners.\<close>

definition exclusive :: "'p list \<Rightarrow> ('k \<Rightarrow> 'p option) \<Rightarrow> bool" where
  "exclusive free owner \<longleftrightarrow>
     distinct free \<and> (\<forall>k p. owner k = Some p \<longrightarrow> p \<notin> set free)
     \<and> (\<forall>k k' p. owner k = Some p \<and> owner k' = Some p \<longrightarrow> k = k')"

lemma exclusive_sub:
  "exclusive free owner \<Longrightarrow> (\<And>k p. owner' k = Some p \<Longrightarrow> owner k = Some p) \<Longrightarrow> exclusive free owner'"
  unfolding exclusive_def by blast

text \<open>
  The contract of a pool that hands the first free item to a key and takes a key's item back.
\<close>

locale port_pool =
  fixes free :: "'s \<Rightarrow> 'p list"
    and owner :: "'s \<Rightarrow> 'k \<Rightarrow> 'p option"
    and grant :: "'k \<Rightarrow> 's \<Rightarrow> 's"
    and reclaim :: "'k \<Rightarrow> 's \<Rightarrow> 's"
  assumes free_grant: "free (grant k s) = tl (free s)"
    and owner_grant: "owner (grant k s) k' = owner s k' \<or>
      k' = k \<and> free s \<noteq> [] \<and> owner (grant k s) k' = Some (hd (free s))"
    and free_reclaim: "free (reclaim k s) = free s @ (case owner s k of None \<Rightarrow> [] | Some p \<Rightarrow> [p])"
    and owner_reclaim: "owner (reclaim k s) = (owner s)(k := None)"
begin

lemma grant_exclusive:
  assumes "exclusive (free s) (owner s)"
  shows "exclusive (free (grant k s)) (owner (grant k s))"
proof (cases "free s")
  case Nil
  then have "owner (grant k s) k' = owner s k'" for k' using owner_grant [of k s k'] by simp
  then have "owner (grant k s) = owner s" by (rule ext)
  with assms Nil show ?thesis by (simp add: free_grant)
next
  case (Cons p ps)
  have ow: "owner (grant k s) k' = Some q \<Longrightarrow> owner s k' = Some q \<or> k' = k \<and> q = p" for k' q
    using owner_grant [of k s k'] Cons by auto
  from assms Cons have "distinct (p # ps)" "\<And>k q. owner s k = Some q \<Longrightarrow> q \<noteq> p \<and> q \<notin> set ps"
    "\<And>k k' q. owner s k = Some q \<Longrightarrow> owner s k' = Some q \<Longrightarrow> k = k'"
    unfolding exclusive_def by auto
  with Cons show ?thesis
    unfolding exclusive_def free_grant by (auto dest!: ow)
qed

lemma reclaim_exclusive:
  assumes "exclusive (free s) (owner s)"
  shows "exclusive (free (reclaim k s)) (owner (reclaim k s))"
  using assms unfolding exclusive_def free_reclaim owner_reclaim
  by (auto split: option.splits if_splits)

text \<open>Taking back loses nothing, granting loses at most what the key had before.\<close>

lemma reclaim_conserves:
  "set (free (reclaim k s)) \<union> ran (owner (reclaim k s)) = set (free s) \<union> ran (owner s)"
proof (cases "owner s k")
  case None
  then have "(owner s)(k := None) = owner s" by auto
  with None show ?thesis by (simp add: free_reclaim owner_reclaim)
next
  case (Some p)
  then have "ran (owner s) = insert p (ran ((owner s)(k := None)))" by (force simp: ran_def)
  with Some show ?thesis by (simp add: free_reclaim owner_reclaim)
qed

lemma pool_within:
  "set (free (reclaim k s)) \<union> ran (owner (reclaim k s)) \<subseteq> set (free s) \<union> ran (owner s)"
  "set (free (grant k s)) \<union> ran (owner (grant k s)) \<subseteq> set (free s) \<union> ran (owner s)"
proof -
  show "set (free (reclaim k s)) \<union> ran (owner (reclaim k s)) \<subseteq> set (free s) \<union> ran (owner s)"
    by (simp add: reclaim_conserves)
  have "owner (grant k s) k' = Some p \<Longrightarrow> p \<in> set (free s) \<union> ran (owner s)" for k' p
    using owner_grant [of k s k'] by (auto simp: ran_def dest: hd_in_set)
  then show "set (free (grant k s)) \<union> ran (owner (grant k s)) \<subseteq> set (free s) \<union> ran (owner s)"
    unfolding free_grant by (cases "free s") (auto simp: ran_def)
qed

end

definition port_of :: "MasterNode \<Rightarrow> string \<Rightarrow> u16 option" where
  "port_of m addr = (case hm_get (connected_nodes m) addr of None \<Rightarrow> None | Some n \<Rightarrow> node_port n)"

text \<open>What a \<open>RequestConnection\<close> does to the ports.\<close>

definition grant_port :: "string \<Rightarrow> MasterNode \<Rightarrow> MasterNode" where
  "grant_port addr m =
     (case allocate_port m of
        (Some port, m1) \<Rightarrow> modify_node addr (\<lambda>n. n\<lparr>node_port := Some port\<rparr>) m1
      | (None, m1) \<Rightarrow> m1)"

interpretation ports: port_pool available_ports port_of grant_port release_port
proof unfold_locales
  fix k k' :: string and s :: MasterNode
  show "available_ports (grant_port k s) = tl (available_ports s)"
    by (simp add: grant_port_def allocate_port_def modify_node_def split: list.splits)
  show "port_of (grant_port k s) k' = port_of s k' \<or>
      k' = k \<and> available_ports s \<noteq> [] \<and> port_of (grant_port k s) k' = Some (hd (available_ports s))"
    by (auto simp: grant_port_def allocate_port_def modify_node_def port_of_def split: list.splits option.splits)
  show "available_ports (release_port k s) = available_ports s @ (case port_of s k of None \<Rightarrow> [] | Some p \<Rightarrow> [p])"
    by (simp add: release_port_available port_of_def split: option.splits)
  show "port_of (release_port k s) = (port_of s)(k := None)"
    by (rule ext) (auto simp: port_of_def split: option.splits)
qed

definition ports_exclusive :: "MasterNode \<Rightarrow> bool" where
  "ports_exclusive m \<longleftrightarrow> exclusive (available_ports m) (port_of m)"

definition ports_used :: "MasterNode \<Rightarrow> u16 set" where
  "ports_used m = set (available_ports m) \<union> ran (port_of m)"

section \<open>Steps\<close>

datatype action =
    Enter string
  | Request string NodeMessage
  | Leave string
  | Cleanup
  | Peer PeerState
  | ShellAdd string Task
  | ShellSubmit string string Task
  | ShellCollect string
  | ShellTimeout string
  | SaveRuns

inductive master_step :: "('a) mserde_scheme \<Rightarrow> MasterNode \<Rightarrow> action \<Rightarrow> MasterNode \<Rightarrow> bool" for J where
  enter: "lawful_order ord \<Longrightarrow> send_pending_tasks J ord addr s (enter_node addr now m) = (r, s', m') \<Longrightarrow>
    master_step J m (Enter addr) m'"
| request: "lawful_order ord \<Longrightarrow> handle_request J ord now addr req s m = (r, s', m') \<Longrightarrow>
    master_step J m (Request addr req) m'"
| leave: "master_step J m (Leave addr) (end_connection addr m)"
| cleanup: "lawful_order ord \<Longrightarrow> master_step J m Cleanup (cleanup_dead_nodes ord now m)"
| peer: "lawful_order ord \<Longrightarrow> peer_wf st \<Longrightarrow> master_step J m (Peer st) (merge_state ord st m)"
| shell_add: "master_step J m (ShellAdd tid t) (add_task tid t m)"
| shell_submit: "master_step J m (ShellSubmit tid tgt t)
    (m\<lparr>pending_tasks := hm_insert tid \<lparr>task = t, target = Some tgt\<rparr> (pending_tasks m)\<rparr>)"
| shell_collect: "hm_get (completed_tasks m) tid \<noteq> None \<Longrightarrow> master_step J m (ShellCollect tid)
    (m\<lparr>completed_tasks := hm_remove tid (completed_tasks m)\<rparr>)"
| shell_timeout: "master_step J m (ShellTimeout tid)
    (m\<lparr>pending_tasks := hm_remove tid (pending_tasks m)\<rparr>)"
| save_runs: "master_step J m SaveRuns (m\<lparr>spawned_saves := spawned_saves m - 1\<rparr>)"

inductive master_run :: "('a) mserde_scheme \<Rightarrow> MasterNode \<Rightarrow> action list \<Rightarrow> MasterNode \<Rightarrow> bool" for J where
  run_nil: "master_run J m [] m"
| run_cons: "master_step J m a m1 \<Longrightarrow> master_run J m1 as m2 \<Longrightarrow> master_run J m (a # as) m2"

inductive_simps master_run_Nil [simp]: "master_run J m [] m'"
inductive_simps master_run_Cons: "master_run J m (a # as) m'"

inductive_cases step_enterE: "master_step J m (Enter addr) m'"
inductive_cases step_requestE: "master_step J m (Request addr req) m'"
inductive_cases step_leaveE: "master_step J m (Leave addr) m'"
inductive_cases step_cleanupE: "master_step J m Cleanup m'"
inductive_cases step_peerE: "master_step J m (Peer st) m'"

lemma master_run_append:
  "master_run J m as m1 \<Longrightarrow> master_run J m1 bs m2 \<Longrightarrow> master_run J m (as @ bs) m2"
  by (induction rule: master_run.induct) (auto intro: master_run.intros)

text \<open>An invariant that the steps of a class keep holds along every run of such steps.\<close>

lemma master_run_invariant:
  assumes "master_run J m as m'" and "I m" and "\<forall>a \<in> set as. allowed a"
    and "\<And>m a m'. master_step J m a m' \<Longrightarrow> allowed a \<Longrightarrow> I m \<Longrightarrow> I m'"
  shows "I m'"
  using assms by (induction rule: master_run.induct) auto

section \<open>The effect of a request on the state\<close>

text \<open>Whether the answer can be written makes no difference to the state a request leaves.\<close>

fun request_effect :: "u64 \<Rightarrow> string \<Rightarrow> NodeMessage \<Rightarrow> MasterNode \<Rightarrow> MasterNode" where
  "request_effect now addr (RegisterRole role) m = modify_node addr (\<lambda>n. n\<lparr>node_role := role\<rparr>) m"
| "request_effect now addr (RequestConnection t) m = grant_port addr m"
| "request_effect now addr (SubmitTask tid t) m =
     spawn_save_state (m\<lparr>pending_tasks := hm_insert tid \<lparr>task = t, target = None\<rparr> (pending_tasks m)\<rparr>)"
| "request_effect now addr Disconnect m = spawn_save_state (remove_node addr (release_port addr m))"
| "request_effect now addr Heartbeat m =
     modify_node addr (\<lambda>n. n\<lparr>last_heartbeat := now, is_worker := True\<rparr>) m"
| "request_effect now addr (TaskResultMsg tid result) m =
     spawn_save_state
       (modify_node addr (\<lambda>n. n\<lparr>active_tasks := hm_remove tid (active_tasks n)\<rparr>) m
        \<lparr>pending_tasks := hm_remove tid (pending_tasks m),
         completed_tasks := hm_insert tid result (completed_tasks m)\<rparr>)"
| "request_effect now addr _ m = m"

lemma process_request_effect:
  "process_request J ord now addr req s m = (r, s', m') \<Longrightarrow> m' = request_effect now addr req m"
  by (cases req)
    (auto simp: Let_def grant_port_def modify_node_def dest: reply_state split: prod.splits option.splits)

lemma process_request_break:
  "process_request J ord now addr req s m = (r, s', m') \<Longrightarrow> r = Inr Break \<longleftrightarrow> req = Disconnect"
  by (cases req) (auto simp: Let_def dest: reply_flow split: prod.splits option.splits)

lemma handle_request_effect:
  assumes "handle_request J ord now addr req s m = (r, s', m')"
  shows "m' = request_effect now addr req m \<or>
    (\<exists>s1. m' = snd (snd (send_pending_tasks J ord addr s1 (request_effect now addr req m))))"
proof -
  obtain r1 s1 m1 where p: "process_request J ord now addr req s m = (r1, s1, m1)"
    by (cases "process_request J ord now addr req s m")
  note e = process_request_effect [OF p]
  show ?thesis
    using assms unfolding handle_request_def p e
    by (cases r1) (auto simp: Let_def split: prod.splits flow.splits intro: exI [of _ s1])
qed

lemma handle_request_keeps:
  assumes "handle_request J ord now addr req s m = (r, s', m')"
    and "I (request_effect now addr req m)"
    and "\<And>m s1. I m \<Longrightarrow> I (snd (snd (send_pending_tasks J ord addr s1 m)))"
  shows "I m'"
  using handle_request_effect [OF assms(1)] assms(2,3) by auto

lemma modify_node_fields [simp]:
  "pending_tasks (modify_node addr f m) = pending_tasks m"
  "completed_tasks (modify_node addr f m) = completed_tasks m"
  "available_ports (modify_node addr f m) = available_ports m"
  "connected_nodes (modify_node addr f m) = hm_modify addr f (connected_nodes m)"
  by (simp_all add: modify_node_def)

lemma remove_node_fields [simp]:
  "pending_tasks (remove_node addr m) = pending_tasks m"
  "completed_tasks (remove_node addr m) = completed_tasks m"
  "available_ports (remove_node addr m) = available_ports m"
  "connected_nodes (remove_node addr m) = hm_remove addr (connected_nodes m)"
  by (simp_all add: remove_node_def)

lemma enter_node_fields [simp]:
  "pending_tasks (enter_node addr now m) = pending_tasks m"
  "completed_tasks (enter_node addr now m) = completed_tasks m"
  "available_ports (enter_node addr now m) = available_ports m"
  "connected_nodes (enter_node addr now m) = hm_insert addr (fresh_node addr now) (connected_nodes m)"
  by (simp_all add: enter_node_def)

lemma end_connection_fields [simp]:
  "pending_tasks (end_connection addr m) = pending_tasks m"
  "completed_tasks (end_connection addr m) = completed_tasks m"
  "available_ports (end_connection addr m) = available_ports m"
  "connected_nodes (end_connection addr m) = hm_remove addr (connected_nodes m)"
  by (simp_all add: end_connection_def)

lemma grant_port_fields [simp]:
  "pending_tasks (grant_port addr m) = pending_tasks m"
  "completed_tasks (grant_port addr m) = completed_tasks m"
  by (auto simp: grant_port_def allocate_port_def split: list.splits)

lemma grant_port_nodes:
  "connected_nodes (grant_port addr m) = connected_nodes m \<or>
   (\<exists>p. connected_nodes (grant_port addr m) = hm_modify addr (\<lambda>n. n\<lparr>node_port := p\<rparr>) (connected_nodes m))"
  by (auto simp: grant_port_def allocate_port_def split: list.splits)

section \<open>Well-formed maps\<close>

lemma maps_wf_cong:
  assumes "hm_get (connected_nodes m') = hm_get (connected_nodes m)" "hm_wf (connected_nodes m')"
    and "hm_wf (pending_tasks m')" "hm_wf (completed_tasks m')" and "maps_wf m"
  shows "maps_wf m'"
  using assms by (auto simp: maps_wf_def)

lemma maps_wf_nodes:
  "maps_wf m \<Longrightarrow> hm_get (connected_nodes m) a = Some n \<Longrightarrow> hm_wf (active_tasks n)"
  by (auto simp: maps_wf_def)

lemma maps_wf_request_effect: "maps_wf m \<Longrightarrow> maps_wf (request_effect now addr req m)"
proof (cases req)
  case (RequestConnection t)
  assume "maps_wf m"
  with grant_port_nodes [of addr m] show ?thesis unfolding RequestConnection
    by (auto simp: maps_wf_def split: if_splits)
qed (auto simp: maps_wf_def split: if_splits)

lemma maps_wf_step: "master_step J m a m' \<Longrightarrow> maps_wf m \<Longrightarrow> maps_wf m'"
proof (induction rule: master_step.induct)
  case (enter ord addr s now m r s' m')
  have "maps_wf (enter_node addr now m)"
    using enter.prems by (auto simp: maps_wf_def fresh_node_def split: if_splits)
  from send_pending_maps_wf [OF this, of J ord addr s] enter.hyps show ?case by simp
next
  case (request ord now addr req s m r s' m')
  show ?case
    by (rule handle_request_keeps [where I = maps_wf, OF request.hyps(2)])
      (auto intro: maps_wf_request_effect send_pending_maps_wf request.prems)
next
  case (cleanup ord m now)
  then show ?case by (simp add: cleanup_fields(1))
next
  case (peer ord st m)
  then show ?case by (simp add: merge_state_get(4))
qed (auto simp: maps_wf_def add_task_def split: if_splits)

section \<open>Ports\<close>

lemma send_pending_port_of [simp]:
  "port_of (snd (snd (send_pending_tasks J ord addr s m))) = port_of m"
proof
  fix a
  show "port_of (snd (snd (send_pending_tasks J ord addr s m))) a = port_of m a"
    using send_pending_static [of J ord addr s m a]
    by (auto simp: port_of_def node_static_def simp del: send_pending_static split: option.splits)
qed

lemma port_of_frame:
  "port_of (m\<lparr>pending_tasks := x\<rparr>) = port_of m" "port_of (m\<lparr>completed_tasks := y\<rparr>) = port_of m"
  "port_of (m\<lparr>spawned_saves := z\<rparr>) = port_of m" "port_of (spawn_save_state m) = port_of m"
  by (simp_all add: port_of_def [abs_def])

lemma port_of_modify:
  "(\<And>n. node_port (f n) = node_port n) \<Longrightarrow> port_of (modify_node addr f m) = port_of m"
  by (rule ext) (simp add: port_of_def split: option.splits)

lemma port_of_remove: "port_of (remove_node addr m) = (port_of m)(addr := None)"
  by (rule ext) (simp add: port_of_def)

lemma port_of_enter: "port_of (enter_node addr now m) = (port_of m)(addr := None)"
  by (rule ext) (simp add: port_of_def fresh_node_def)

lemma port_of_end: "port_of (end_connection addr m) = (port_of m)(addr := None)"
  by (rule ext) (simp add: port_of_def)

lemma port_of_cleanup:
  "lawful_order ord \<Longrightarrow> maps_wf m \<Longrightarrow>
     port_of (cleanup_dead_nodes ord now m) = (\<lambda>a. if node_stale now m a then None else port_of m a)"
  by (rule ext) (simp add: port_of_def cleanup_fields(2))

lemma cleanup_available: "available_ports (cleanup_dead_nodes ord now m) = available_ports m"
  by (simp add: cleanup_dead_nodes_def)

lemmas port_frame = port_of_frame port_of_modify port_of_remove port_of_enter port_of_end

text \<open>What a step other than a merge can do to free ports and owners.\<close>

definition standalone :: "action \<Rightarrow> bool" where
  "standalone a \<longleftrightarrow> (case a of Peer _ \<Rightarrow> False | _ \<Rightarrow> True)"

lemma exclusive_request_effect:
  assumes "ports_exclusive m"
  shows "ports_exclusive (request_effect now addr req m)"
proof (cases req)
  case (RequestConnection t)
  then show ?thesis using assms ports.grant_exclusive by (simp add: ports_exclusive_def)
next
  case Disconnect
  have "exclusive (available_ports (release_port addr m)) (port_of (release_port addr m))"
    using assms ports.reclaim_exclusive by (simp add: ports_exclusive_def)
  then show ?thesis unfolding Disconnect
    by (auto simp: ports_exclusive_def port_frame intro: exclusive_sub split: if_splits)
qed (use assms in \<open>auto simp: ports_exclusive_def port_frame\<close>)

lemma used_request_effect: "ports_used (request_effect now addr req m) \<subseteq> ports_used m"
proof (cases req)
  case (RequestConnection t)
  then show ?thesis using ports.pool_within(2) by (simp add: ports_used_def)
next
  case Disconnect
  have "set (available_ports (release_port addr m)) \<union> ran (port_of (release_port addr m)) \<subseteq> ports_used m"
    using ports.pool_within(1) by (simp add: ports_used_def)
  then show ?thesis unfolding Disconnect
    by (force simp: ports_used_def port_frame ran_def split: if_splits)
qed (auto simp: ports_used_def port_frame)

lemma exclusive_used_step:
  assumes "master_step J m a m'" and "standalone a" and "maps_wf m" and "ports_exclusive m"
  shows "ports_exclusive m' \<and> ports_used m' \<subseteq> ports_used m"
  using assms
proof (induction rule: master_step.induct)
  case (enter ord addr s now m r s' m')
  then have m': "m' = snd (snd (send_pending_tasks J ord addr s (enter_node addr now m)))" by simp
  show ?case using enter.prems(3) unfolding m'
    by (auto simp: ports_exclusive_def ports_used_def port_frame ran_def
        intro: exclusive_sub split: if_splits)
next
  case (request ord now addr req s m r s' m')
  show ?case
  proof (rule handle_request_keeps [where I = "\<lambda>m'. ports_exclusive m' \<and> ports_used m' \<subseteq> ports_used m",
        OF request.hyps(2)])
    show "ports_exclusive (request_effect now addr req m) \<and> ports_used (request_effect now addr req m) \<subseteq> ports_used m"
      by (simp add: exclusive_request_effect request.prems used_request_effect)
  qed (simp add: ports_exclusive_def ports_used_def)
next
  case (cleanup ord m now)
  then show ?case
    by (auto simp: ports_exclusive_def ports_used_def port_of_cleanup cleanup_available ran_def
        intro: exclusive_sub split: if_splits)
qed (auto simp: ports_exclusive_def ports_used_def port_frame add_task_def standalone_def ran_def
    intro: exclusive_sub split: if_splits)

section \<open>Tasks\<close>

lemma active_on_frame [simp]:
  "active_on (m\<lparr>pending_tasks := x\<rparr>) a t = active_on m a t"
  "active_on (m\<lparr>completed_tasks := y\<rparr>) a t = active_on m a t"
  "active_on (m\<lparr>spawned_saves := z\<rparr>) a t = active_on m a t"
  "active_on (spawn_save_state m) a t = active_on m a t"
  by (simp_all add: active_on_def)

lemma active_on_modify:
  "(\<And>n. active_tasks (f n) = active_tasks n) \<Longrightarrow> active_on (modify_node addr f m) a t = active_on m a t"
  by (auto simp: active_on_def)

lemma active_on_grant [simp]: "active_on (grant_port addr m) a t = active_on m a t"
  using grant_port_nodes [of addr m] by (auto simp: active_on_def split: if_splits)

lemma active_on_release [simp]: "active_on (release_port addr m) a t = active_on m a t"
  by (auto simp: active_on_def)

lemma active_on_remove [simp]: "active_on (remove_node addr m) a t \<longleftrightarrow> active_on m a t \<and> a \<noteq> addr"
  by (auto simp: active_on_def)

lemma active_on_enter [simp]: "active_on (enter_node addr now m) a t \<longleftrightarrow> active_on m a t \<and> a \<noteq> addr"
  by (auto simp: active_on_def fresh_node_def)

lemma active_on_end [simp]: "active_on (end_connection addr m) a t \<longleftrightarrow> active_on m a t \<and> a \<noteq> addr"
  by (auto simp: active_on_def)

lemma active_on_finish [simp]:
  "active_on (modify_node addr (\<lambda>n. n\<lparr>active_tasks := hm_remove tid (active_tasks n)\<rparr>) m) a t \<longleftrightarrow>
     active_on m a t \<and> \<not> (a = addr \<and> t = tid)"
  by (auto simp: active_on_def split: if_splits)

lemma active_on_request_effect: "active_on (request_effect now addr req m) a t \<Longrightarrow> active_on m a t"
  by (cases req) (simp_all add: active_on_modify)

lemma single_active_step:
  assumes "master_step J m a m'" and "standalone a" and "maps_wf m" and "single_active m"
  shows "single_active m'"
  using assms
proof (induction rule: master_step.induct)
  case (enter ord addr s now m r s' m')
  have "single_active (enter_node addr now m)"
    by (rule single_active_mono [OF enter.prems(3)]) simp
  from send_pending_single_active [OF this, of J ord addr s] enter.hyps show ?case by simp
next
  case (request ord now addr req s m r s' m')
  show ?case
  proof (rule handle_request_keeps [where I = single_active, OF request.hyps(2)])
    show "single_active (request_effect now addr req m)"
      by (rule single_active_mono [OF request.prems(3)]) (rule active_on_request_effect)
  qed (rule send_pending_single_active)
next
  case (cleanup ord m now)
  show ?case
    by (rule single_active_mono [OF cleanup.prems(3)]) (simp add: cleanup_fields(4) cleanup)
qed (auto simp: standalone_def add_task_def elim: single_active_mono)

text \<open>The ids a step may forget: those of the node whose entry goes, and what the shell takes.\<close>

definition may_forget :: "action \<Rightarrow> MasterNode \<Rightarrow> string set" where
  "may_forget a m =
     (case a of
        Enter addr \<Rightarrow> {t. active_on m addr t}
      | Leave addr \<Rightarrow> {t. active_on m addr t}
      | Request addr Disconnect \<Rightarrow> {t. active_on m addr t}
      | ShellCollect tid \<Rightarrow> {tid}
      | ShellTimeout tid \<Rightarrow> {tid}
      | _ \<Rightarrow> {})"

lemma pending_ids_frame [simp]:
  "pending_ids (m\<lparr>completed_tasks := y\<rparr>) = pending_ids m"
  "pending_ids (m\<lparr>spawned_saves := z\<rparr>) = pending_ids m"
  "pending_ids (spawn_save_state m) = pending_ids m"
  "pending_ids (modify_node addr f m) = pending_ids m"
  "pending_ids (grant_port addr m) = pending_ids m"
  "pending_ids (release_port addr m) = pending_ids m"
  "pending_ids (remove_node addr m) = pending_ids m"
  "pending_ids (enter_node addr now m) = pending_ids m"
  "pending_ids (end_connection addr m) = pending_ids m"
  by (simp_all add: pending_ids_def)

lemma completed_ids_frame [simp]:
  "completed_ids (m\<lparr>pending_tasks := y\<rparr>) = completed_ids m"
  "completed_ids (m\<lparr>spawned_saves := z\<rparr>) = completed_ids m"
  "completed_ids (spawn_save_state m) = completed_ids m"
  "completed_ids (modify_node addr f m) = completed_ids m"
  "completed_ids (grant_port addr m) = completed_ids m"
  "completed_ids (release_port addr m) = completed_ids m"
  "completed_ids (remove_node addr m) = completed_ids m"
  "completed_ids (enter_node addr now m) = completed_ids m"
  "completed_ids (end_connection addr m) = completed_ids m"
  by (simp_all add: completed_ids_def)

lemma ids_insert [simp]:
  "pending_ids (m\<lparr>pending_tasks := hm_insert tid p (pending_tasks m)\<rparr>) = insert tid (pending_ids m)"
  "pending_ids (m\<lparr>pending_tasks := hm_remove tid (pending_tasks m)\<rparr>) = pending_ids m - {tid}"
  "completed_ids (m\<lparr>completed_tasks := hm_insert tid r (completed_tasks m)\<rparr>) = insert tid (completed_ids m)"
  "completed_ids (m\<lparr>completed_tasks := hm_remove tid (completed_tasks m)\<rparr>) = completed_ids m - {tid}"
  by (auto simp: pending_ids_iff completed_ids_iff split: if_splits)

lemma known_ids_request_effect:
  "known_ids m - may_forget (Request addr req) m \<subseteq> known_ids (request_effect now addr req m)"
proof (cases req)
  case (TaskResultMsg tid result)
  then show ?thesis
    by (auto simp: known_ids_def may_forget_def active_ids_def pending_ids_iff completed_ids_iff
        split: if_splits)
qed (auto simp: known_ids_def may_forget_def active_ids_def active_on_modify)

lemma known_ids_step:
  assumes "master_step J m a m'" and "maps_wf m"
  shows "known_ids m - may_forget a m \<subseteq> known_ids m'"
  using assms
proof (induction rule: master_step.induct)
  case (enter ord addr s now m r s' m')
  then have "known_ids m' = known_ids (enter_node addr now m)"
    using send_pending_known_ids [of J ord addr s "enter_node addr now m"] by simp
  then show ?case by (auto simp: known_ids_def may_forget_def active_ids_def)
next
  case (request ord now addr req s m r s' m')
  show ?case
    by (rule handle_request_keeps [where I = "\<lambda>m'. known_ids m - may_forget (Request addr req) m \<subseteq> known_ids m'",
          OF request.hyps(2)]) (simp_all add: known_ids_request_effect)
next
  case (cleanup ord m now)
  have "completed_ids (cleanup_dead_nodes ord now m) = completed_ids m"
    by (simp add: completed_ids_def cleanup_fields(3) cleanup)
  then show ?case
    by (auto simp: known_ids_def active_ids_def cleanup_fields cleanup)
next
  case (peer ord st m)
  then show ?case
    by (auto simp: known_ids_def active_ids_def active_on_def pending_ids_iff completed_ids_iff
        merge_state_get map_add_Some_iff)
qed (auto simp: known_ids_def may_forget_def active_ids_def add_task_def)

section \<open>Connections as runs\<close>

text \<open>The merge of a peer that parsed: HashMaps that come out of serde_json have distinct keys.\<close>

definition peer_parse_wf :: "('a) mserde_scheme \<Rightarrow> bool" where
  "peer_parse_wf J \<longleftrightarrow> (\<forall>b st. peer_from_slice J b = Some st \<longrightarrow> peer_wf st)"

definition of_connection :: "string \<Rightarrow> action \<Rightarrow> bool" where
  "of_connection addr a \<longleftrightarrow>
     (case a of Enter x \<Rightarrow> x = addr | Request x _ \<Rightarrow> x = addr | Leave x \<Rightarrow> x = addr | Peer _ \<Rightarrow> True | _ \<Rightarrow> False)"

lemma conn_round_run:
  assumes "conn_round J ord now addr s m = (r, s', m')" and "lawful_order ord"
  shows "\<exists>as. master_run J m as m' \<and> (\<forall>a \<in> set as. \<exists>req. a = Request addr req)"
proof (cases "m' = m")
  case True
  then show ?thesis by (intro exI [of _ "[]"]) simp
next
  case False
  with assms(1) obtain s1 req where h: "handle_request J ord now addr req s1 m = (r, s', m')"
    by (auto simp: conn_round_def split: prod.splits sum.splits option.splits)
  from master_step.request [OF assms(2) h] show ?thesis
    by (intro exI [of _ "[Request addr req]"]) (simp add: master_run_Cons)
qed

lemma conn_loop_run:
  assumes "\<And>i. lawful_order (ords i)"
    and "conn_loop J ords clk addr i s m = (r, s', m')"
  shows "\<exists>as. master_run J m as m' \<and> (\<forall>a \<in> set as. \<exists>req. a = Request addr req)"
  using assms(2)
proof (induction "length (inp s)" arbitrary: i s m rule: less_induct)
  case less
  obtain r1 s1 m1 where rd: "conn_round J (ords i) (clk i) addr s m = (r1, s1, m1)"
    by (cases "conn_round J (ords i) (clk i) addr s m")
  from conn_round_run [OF rd assms(1)] obtain as where
    as: "master_run J m as m1" "\<forall>a \<in> set as. \<exists>req. a = Request addr req" by blast
  show ?case
  proof (cases "r1 = Inr Go")
    case True
    with rd less.prems have rest: "conn_loop J ords clk addr (Suc i) s1 m1 = (r, s', m')"
      by (simp add: conn_loop.simps [of J ords clk addr i])
    from less.hyps [OF conn_round_shrinks [OF rd [unfolded True]] rest] obtain bs where
      "master_run J m1 bs m'" "\<forall>a \<in> set bs. \<exists>req. a = Request addr req" by blast
    with as show ?thesis by (intro exI [of _ "as @ bs"]) (auto intro: master_run_append)
  next
    case False
    with rd less.prems have "m' = m1"
      by (auto simp: conn_loop.simps [of J ords clk addr i] split: sum.splits flow.splits)
    with as show ?thesis by blast
  qed
qed

lemma serve_client_run:
  assumes ords: "\<And>i. lawful_order (ords i)"
    and srv: "serve_client J ords clk addr s m = (r, s', m')"
  shows "\<exists>as. master_run J m as m' \<and> (\<forall>a \<in> set as. of_connection addr a)"
proof (cases "write_length_prefixed (as_bytes ''OK'') s")
  case (Pair w s1)
  show ?thesis
  proof (cases w)
    case (Inl e)
    with Pair srv have "m' = m" by (simp add: serve_client_def)
    then show ?thesis by (intro exI [of _ "[]"]) simp
  next
    case (Inr u)
    obtain r2 s2 m2 where sp: "send_pending_tasks J (ords 0) addr s1 (enter_node addr (clk 0) m) = (r2, s2, m2)"
      by (cases "send_pending_tasks J (ords 0) addr s1 (enter_node addr (clk 0) m)")
    obtain r3 s3 m3 where cl: "conn_loop J ords clk addr 1 s2 m2 = (r3, s3, m3)"
      by (cases "conn_loop J ords clk addr 1 s2 m2")
    from conn_loop_run [OF ords cl] obtain as where
      as: "master_run J m2 as m3" "\<forall>a \<in> set as. \<exists>req. a = Request addr req" by blast
    have run: "master_run J m (Enter addr # as) m3"
      using master_step.enter [OF ords sp] as(1) by (simp add: master_run_Cons) blast
    from srv Pair Inr sp cl have "m' = m3 \<or> m' = end_connection addr m3"
      by (auto simp: serve_client_def split: sum.splits)
    then show ?thesis
    proof
      assume "m' = m3"
      with run as(2) show ?thesis
        by (intro exI [of _ "Enter addr # as"]) (auto simp: of_connection_def)
    next
      assume m': "m' = end_connection addr m3"
      have "master_run J m3 [Leave addr] m'"
        unfolding m' by (auto simp: master_run_Cons intro: master_step.leave)
      from master_run_append [OF run this] as(2) show ?thesis
        by (intro exI [of _ "(Enter addr # as) @ [Leave addr]"]) (auto simp: of_connection_def)
    qed
  qed
qed

lemma handle_peer_connection_run:
  assumes "lawful_order ord" and "peer_parse_wf J" and "handle_peer_connection J ord s m = (r, s', m')"
  shows "m' = m \<or> (\<exists>st. peer_wf st \<and> m' = merge_state ord st m)"
  using assms by (auto simp: handle_peer_connection_def peer_parse_wf_def Let_def
      split: prod.splits sum.splits option.splits)

end
