(* ===== verification/MasterProps.thy ===== *)
theory MasterProps
  imports MasterSystem
begin

text \<open>
  What holds of the master: of single operations on every branch, and of all states it reaches.
  Where a property has a hypothesis, a closed instance follows it.
\<close>

section \<open>A concrete codec for the instances\<close>

text \<open>
  serde_json is an argument of the model; the instances below take this one, which knows a handful
  of messages and states and is the inverse of itself on them.
\<close>

definition demo_table :: "(NodeMessage \<times> u8 list) list" where
  "demo_table =
     [(Heartbeat, [1]), (HeartbeatAck, [2]), (GetConnectedNodes, [3]), (ConnectedNodes [''n1''], [4]),
      (AssignTask ''t1'' (Compute ''1+1''), [5]), (TaskResultMsg ''t1'' (Number 2), [6]),
      (GetTaskResult ''t1'', [7]), (Disconnect, [8]), (RequestConnection ''n1'', [9])]"

definition demo_peer :: "PeerState \<Rightarrow> u8 list" where
  "demo_peer st =
     (if ps_pending_tasks st = [] then [0]
      else if map fst (ps_pending_tasks st) = [''a''] then [1]
      else if map fst (ps_pending_tasks st) = [''b''] then [2] else [3])"

definition demo_task :: PendingTask where
  "demo_task = \<lparr>task = Compute ''1+1'', target = None\<rparr>"

definition demo_state :: "string list \<Rightarrow> PeerState" where
  "demo_state ids =
     \<lparr>ps_connected_nodes = [], ps_pending_tasks = map (\<lambda>i. (i, demo_task)) ids, ps_completed_tasks = []\<rparr>"

definition demo_serde :: mserde where
  "demo_serde =
     \<lparr>to_vec = map_of demo_table,
      from_slice = map_of (map (\<lambda>(x, y). (y, x)) demo_table),
      peer_to_vec = (\<lambda>st. Some (demo_peer st)),
      peer_from_slice = (\<lambda>b. if b = [0] then Some (demo_state []) else if b = [1] then Some (demo_state [''a''])
          else if b = [2] then Some (demo_state [''b'']) else Some (demo_state [''b'', ''a''])),
      state_to_string = (\<lambda>_. Some ''state''), state_from_str = (\<lambda>_. None)\<rparr>"

definition demo_node :: "string \<Rightarrow> u64 \<Rightarrow> u16 option \<Rightarrow> Task hmap \<Rightarrow> NodeInfo" where
  "demo_node a hb port ts =
     \<lparr>node_addr = a, last_heartbeat = hb, node_port = port, active_tasks = ts, is_worker = True, node_role = Worker\<rparr>"

definition demo_master :: "NodeInfo hmap \<Rightarrow> u16 list \<Rightarrow> PendingTask hmap \<Rightarrow> MasterNode" where
  "demo_master ns ps pend =
     \<lparr>connected_nodes = ns, available_ports = ps, failover_timeout_ms = 1000, pending_tasks = pend,
      completed_tasks = [], state_file = ''f'', spawned_saves = 0\<rparr>"

definition demo_sock :: "u8 list \<Rightarrow> sock" where
  "demo_sock bs = \<lparr>inp = bs, out = [], room = None\<rparr>"

lemmas demo_defs = demo_node_def demo_master_def demo_sock_def demo_task_def

lemma demo_msg_ok [simp]:
  "msg_ok demo_serde Heartbeat" "msg_ok demo_serde HeartbeatAck"
  "msg_ok demo_serde (AssignTask ''t1'' (Compute ''1+1''))"
  by (simp_all add: msg_ok_def demo_serde_def demo_table_def fits_u32_def)

section \<open>No task is forgotten\<close>

text \<open>The steps that may forget the task \<open>t\<close>: a connection that begins or ends, the shell.\<close>

definition forgetful :: "string \<Rightarrow> action \<Rightarrow> bool" where
  "forgetful t a =
     (case a of
        Enter _ \<Rightarrow> True
      | Leave _ \<Rightarrow> True
      | Request _ Disconnect \<Rightarrow> True
      | ShellCollect tid \<Rightarrow> tid = t
      | ShellTimeout tid \<Rightarrow> tid = t
      | _ \<Rightarrow> False)"

lemma not_forgetful: "\<not> forgetful t a \<Longrightarrow> t \<notin> may_forget a m"
  by (auto simp: forgetful_def may_forget_def split: action.splits NodeMessage.splits)





section \<open>One node per task\<close>

lemma maps_wf_init: "maps_wf (init_master c)"
  by (simp add: maps_wf_def init_master_def)

lemma single_active_init: "single_active (init_master c)"
  by (simp add: single_active_def active_on_def init_master_def)


definition demo_config :: Config where
  "demo_config = Config_default\<lparr>min_port := 7, max_port := 8\<rparr>"

text \<open>A short run: a worker joins, sends a heartbeat, the shell queues a task, the next heartbeat
  fetches it.\<close>

definition demo_run_state :: MasterNode where
  "demo_run_state =
     (let s = demo_sock [];
          m1 = snd (snd (send_pending_tasks demo_serde (\<lambda>ks. ks) ''n1'' s (enter_node ''n1'' 5 (init_master demo_config))));
          m2 = add_task ''t1'' (Compute ''1+1'') m1
      in snd (snd (handle_request demo_serde (\<lambda>ks. ks) 6 ''n1'' Heartbeat s m2)))"

lemma demo_run: "master_run demo_serde (init_master demo_config)
    [Enter ''n1'', ShellAdd ''t1'' (Compute ''1+1''), Request ''n1'' Heartbeat] demo_run_state"
proof -
  let ?s = "demo_sock []" and ?o = "\<lambda>ks :: string list. ks"
  let ?m0 = "init_master demo_config"
  let ?m1 = "snd (snd (send_pending_tasks demo_serde ?o ''n1'' ?s (enter_node ''n1'' 5 ?m0)))"
  let ?m2 = "add_task ''t1'' (Compute ''1+1'') ?m1"
  have "master_step demo_serde ?m0 (Enter ''n1'') ?m1"
    by (rule master_step.enter [OF lawful_order_id]) (rule prod_eqI, simp, rule prod_eqI, simp_all)
  moreover have "master_step demo_serde ?m1 (ShellAdd ''t1'' (Compute ''1+1'')) ?m2"
    by (rule master_step.shell_add)
  moreover have "master_step demo_serde ?m2 (Request ''n1'' Heartbeat) demo_run_state"
    unfolding demo_run_state_def Let_def
    by (rule master_step.request [OF lawful_order_id]) (rule prod_eqI, simp, rule prod_eqI, simp_all)
  ultimately show ?thesis by (auto simp: master_run_Cons)
qed

lemma demo_run_node:
  "hm_get (connected_nodes demo_run_state) ''n1'' =
     Some (fresh_node ''n1'' 6 \<lparr>is_worker := True, active_tasks := [(''t1'', Compute ''1+1'')]\<rparr>)"
  by code_simp


section \<open>Ports\<close>

lemma port_range_unat: "map unat (port_range lo hi) = [unat lo ..< Suc (unat hi)]"
proof -
  have "unat hi < 2 ^ 16" using unsigned_less [of hi, where ?'a = nat] by simp
  then have "(unat \<circ> (word_of_nat :: nat \<Rightarrow> u16)) x = x" if "x \<in> set [unat lo ..< Suc (unat hi)]" for x
  proof -
    from that \<open>unat hi < 2 ^ 16\<close> have "x < 65536" by auto
    then show ?thesis by (simp add: unat_of_nat)
  qed
  then show ?thesis unfolding port_range_def map_map by (rule map_idI)
qed

lemma ports_exclusive_init: "ports_exclusive (init_master c)"
proof -
  have "distinct (map unat (port_range (min_port c) (max_port c)))"
    unfolding port_range_unat by simp
  then have "distinct (port_range (min_port c) (max_port c))" by (simp add: distinct_map)
  then show ?thesis by (simp add: ports_exclusive_def exclusive_def init_master_def port_of_def)
qed

lemma ports_used_init: "p \<in> ports_used (init_master c) \<longleftrightarrow> min_port c \<le> p \<and> p \<le> max_port c"
proof -
  have "ports_used (init_master c) = set (port_range (min_port c) (max_port c))"
    by (simp add: ports_used_def init_master_def port_of_def [abs_def] ran_def)
  moreover have "p \<in> set (port_range lo hi) \<longleftrightarrow> unat p \<in> set (map unat (port_range lo hi))" for lo hi
    by (auto dest: word_unat_eq_iff [THEN iffD2])
  ultimately show ?thesis
    by (simp add: port_range_unat word_le_nat_alt less_Suc_eq_le del: upt_Suc set_map)
qed





section \<open>Assignment\<close>

text \<open>
  C6: a successful round of assignment gives the node exactly the pending tasks that are of its
  role, addressed to it or to nobody, and running nowhere: each is sent once as an AssignTask
  message, recorded as active on the node and removed from the queue; every other pending task, every
  other node, the results and the ports stay as they were, in whatever order the queue is iterated.
\<close>

theorem send_pending_tasks_spec:
  assumes "lawful_order ord" and "hm_get (connected_nodes m) addr = Some n" and "is_worker n"
    and "send_pending_tasks J ord addr s m = (Inr u, s', m')"
  shows "assign_post J addr n (assigned m addr (node_role n)) s m s' m'"
  using assms by (simp add: send_pending_tasks_def assign_loop_post)

theorem send_pending_tasks_spec_witness:
  "(let n = demo_node ''n1'' 0 None []; m = demo_master [(''n1'', n)] [] [(''t1'', demo_task)]
    in assign_post demo_serde ''n1'' n [''t1'' \<mapsto> Compute ''1+1''] (demo_sock []) m
         (demo_sock [] \<lparr>out := frame [5]\<rparr>)
         (demo_master [(''n1'', n\<lparr>active_tasks := [(''t1'', Compute ''1+1'')]\<rparr>)] [] []))"
proof -
  let ?n = "demo_node ''n1'' 0 None []"
  let ?m = "demo_master [(''n1'', ?n)] [] [(''t1'', demo_task)]"
  let ?m' = "demo_master [(''n1'', ?n\<lparr>active_tasks := [(''t1'', Compute ''1+1'')]\<rparr>)] [] []"
  have "send_pending_tasks demo_serde (\<lambda>ks. ks) ''n1'' (demo_sock []) ?m = (Inr (), demo_sock [] \<lparr>out := frame [5]\<rparr>, ?m')"
    by code_simp
  moreover have "assigned ?m ''n1'' Worker = [''t1'' \<mapsto> Compute ''1+1'']"
    by (rule ext) (simp add: assigned_def demo_defs hm_get_def eligible_def role_for_task_def hm_values_def)
  ultimately show ?thesis
    using send_pending_tasks_spec [OF lawful_order_id, of ?m "''n1''" ?n]
    by (simp add: demo_defs hm_get_def Let_def)
qed

end
