(* ===== verification/MasterShellProps.thy ===== *)
theory MasterShellProps
  imports MasterProps
begin

text \<open>What holds of the shell: which command a line is, what the answers can be, what stays behind.\<close>

text \<open>An environment in which the node \<open>n1\<close> answers the task \<open>q\<close> between two polls.\<close>

definition demo_env :: shell_env where
  "demo_env =
     \<lparr>fresh_id = ''q'',
      others = (\<lambda>i m. m\<lparr>completed_tasks := hm_insert ''q'' (Response ''ok'') (completed_tasks m),
          pending_tasks := hm_remove ''q'' (pending_tasks m)\<rparr>),
      polls = 3, wall = 1, order = (\<lambda>ks. ks), write_fate = None\<rparr>"

section \<open>Reading a line\<close>

lemma parse_addtask:
  assumes "kind = ''compute'' \<and> t = Compute arg \<or> kind = ''http'' \<and> t = HttpRequest arg"
    and "arg \<noteq> []" and "graphic (last arg)"
  shows "parse_cmd (''addtask '' @ kind @ CHR '' '' # arg) = CmdAddTask t"
proof -
  let ?cmd = "''addtask '' @ kind @ CHR '' '' # arg"
  have g: "graphic (hd ?cmd)" "graphic (last ?cmd)" using assms by (auto simp: graphic_def)
  then have t: "trim ?cmd = ?cmd" by (intro trim_graphic) simp
  have ts: "trim_start ?cmd = ?cmd"
    by (simp add: trim_start_def trim_front.simps ws_len_graphic graphic_def)
  have sp: "splitn 3 CHR '' '' ?cmd = [''addtask'', kind, arg]"
    using assms(1) by (auto simp: numeral_3_eq_3)
  show ?thesis unfolding parse_cmd_def Let_def t ts sp
    using assms(1) by (auto simp: starts_with_def)
qed

text \<open>
  A line \<open>addtask compute <expression>\<close> or \<open>addtask http <url>\<close> is one command that queues
  exactly this task, under a fresh id and for any node, blanks in the argument included; the one
  exception is an argument with a semicolon: the line is cut there, the task gets the part before
  it and the rest is read as further commands.
\<close>

theorem addtask_line:
  assumes "kind = ''compute'' \<and> t = Compute arg \<or> kind = ''http'' \<and> t = HttpRequest arg"
    and "arg \<noteq> []" and "graphic (last arg)" and "CHR '';'' \<notin> set arg"
  shows "exec_cmds J ws (parse_line (''addtask '' @ kind @ CHR '' '' # arg)) k m fs =
      (Go, [OutQueued (fresh_id (ws k))], Suc k, add_task (fresh_id (ws k)) t m,
       save_state J (write_fate (ws k)) (add_task (fresh_id (ws k)) t m) fs)
    \<and> parse_line (''addtask '' @ kind @ CHR '' '' # arg @ CHR '';'' # rest) = CmdAddTask t # parse_line rest"
proof
  note p = parse_addtask [OF assms(1-3)]
  have k: "CHR '';'' \<notin> set kind" using assms(1) by auto
  have "CHR '';'' \<notin> set (''addtask '' @ kind @ CHR '' '' # arg)" using k assms(4) by simp
  from split_on_none [OF this] split_on_append [OF this] p
  show "exec_cmds J ws (parse_line (''addtask '' @ kind @ CHR '' '' # arg)) k m fs =
      (Go, [OutQueued (fresh_id (ws k))], Suc k, add_task (fresh_id (ws k)) t m,
       save_state J (write_fate (ws k)) (add_task (fresh_id (ws k)) t m) fs)"
    and "parse_line (''addtask '' @ kind @ CHR '' '' # arg @ CHR '';'' # rest) = CmdAddTask t # parse_line rest"
    by (simp_all add: parse_line_def Let_def)
qed

theorem addtask_line_witness:
  "parse_line ''addtask http http://h/?a=1;b=2'' = [CmdAddTask (HttpRequest ''http://h/?a=1''), CmdUnknown]"
proof -
  have "parse_line ''b=2'' = [CmdUnknown]" by code_simp
  with addtask_line [of "''http''" "HttpRequest ''http://h/?a=1''" "''http://h/?a=1''" demo_serde "\<lambda>_. demo_env" 0
      "demo_master [] [] []" Map.empty "''b=2''"]
  show ?thesis by (simp add: graphic_def)
qed

section \<open>The status of a task\<close>

lemma list_ex_active:
  "maps_wf m \<Longrightarrow>
     list_ex (\<lambda>n. hm_get (active_tasks n) tid \<noteq> None) (hm_values (connected_nodes m)) \<longleftrightarrow> tid \<in> active_ids m"
  by (force simp: active_ids_def active_on_def hm_values_def maps_wf_def hm_wf_def hm_get_def list_ex_iff
      split: option.splits)

text \<open>
  \<open>task <id>\<close> tells the truth about the maps of the master: pending, else running on some node,
  else finished with exactly the recorded result, and not found exactly when the master knows
  nothing of the task.
\<close>

theorem task_status_correct:
  assumes "maps_wf m"
  shows "(task_status tid m = OutIsPending tid \<longleftrightarrow> tid \<in> pending_ids m)
    \<and> (task_status tid m = OutIsRunning tid \<longleftrightarrow> tid \<in> active_ids m - pending_ids m)
    \<and> (task_status tid m = OutFinished tid r \<longleftrightarrow>
        tid \<notin> pending_ids m \<union> active_ids m \<and> hm_get (completed_tasks m) tid = Some r)
    \<and> (task_status tid m = OutNotFound tid \<longleftrightarrow> tid \<notin> known_ids m)"
  unfolding task_status_def list_ex_active [OF assms]
  by (auto simp: known_ids_def pending_ids_iff completed_ids_iff split: option.splits)

theorem task_status_correct_witness:
  "task_status ''t9'' (demo_master [(''n1'', demo_node ''n1'' 0 None [(''t1'', Compute ''1+1'')])] [] [])
     = OutNotFound ''t9''"
proof -
  let ?m = "demo_master [(''n1'', demo_node ''n1'' 0 None [(''t1'', Compute ''1+1'')])] [] []"
  have "maps_wf ?m" by (simp add: maps_wf_def demo_defs hm_wf_def hm_get_def)
  moreover have "''t9'' \<notin> known_ids ?m"
    by (auto simp: known_ids_def pending_ids_iff completed_ids_iff active_ids_def active_on_def demo_defs
        hm_get_def split: if_splits)
  ultimately show ?thesis using task_status_correct [of ?m "''t9''"] by blast
qed

section \<open>Asking the nodes\<close>

lemma save_blocks_itself: "blocks_itself [LCompleted] save_locks"
  by code_simp

lemma submit_task_None: "fst (submit_task_for_node J w tgt t m fs) = None"
  by (simp add: submit_task_for_node_def Let_def save_blocks_itself split: prod.splits option.splits)

lemma ask_nodes_outs:
  "ask_nodes J ws t addrs k m fs = (outs, k', m', fs') \<Longrightarrow> outs = concat (map (\<lambda>a. [OutHeader a, OutTimedOut]) addrs)"
proof (induction addrs arbitrary: k m fs outs k' m' fs')
  case (Cons addr addrs)
  obtain res m1 fs1 where s: "submit_task_for_node J (ws k) addr t m fs = (res, m1, fs1)"
    by (cases "submit_task_for_node J (ws k) addr t m fs")
  with submit_task_None [of J "ws k" addr t m fs] have "res = None" by simp
  with s Cons show ?case by (auto simp: show_answer_def split: prod.splits)
qed simp

text \<open>
  C33: the shell never shows what a node has answered: since the poll that finds the result blocks
  itself, \<open>getglobalram\<close> and \<open>getstorage\<close> print a time-out for every live node of the role, whatever
  the nodes do.
\<close>

theorem shell_never_shows_answers:
  assumes "exec_cmd J ws c k m fs = (f, outs, k', m', fs')"
    and "c = CmdGetGlobalRam \<and> role = Worker \<or> c = CmdGetStorage \<and> role = Disk"
  shows "outs = (let nodes = live_nodes (order (ws k)) (wall (ws k)) role m
      in if nodes = [] then [OutNoneAvailable] else concat (map (\<lambda>a. [OutHeader a, OutTimedOut]) nodes))"
  using assms by (auto simp: Let_def dest: ask_nodes_outs split: prod.splits if_splits)

theorem shell_never_shows_answers_witness:
  "fst (snd (exec_cmd demo_serde (\<lambda>_. demo_env) CmdGetGlobalRam 0
     (demo_master [(''n1'', demo_node ''n1'' 0 None [])] [] []) Map.empty)) = [OutHeader ''n1'', OutTimedOut]"
proof -
  let ?m = "demo_master [(''n1'', demo_node ''n1'' 0 None [])] [] []"
  have l: "live_nodes (order demo_env) (wall demo_env) Worker ?m = [''n1'']" by code_simp
  obtain f outs k' m' fs' where e:
    "exec_cmd demo_serde (\<lambda>_. demo_env) CmdGetGlobalRam 0 ?m Map.empty = (f, outs, k', m', fs')"
    by (cases "exec_cmd demo_serde (\<lambda>_. demo_env) CmdGetGlobalRam 0 ?m Map.empty")
  have "CmdGetGlobalRam = CmdGetGlobalRam \<and> Worker = Worker \<or> CmdGetGlobalRam = CmdGetStorage \<and> Worker = Disk"
    by simp
  from shell_never_shows_answers [OF e this] have "outs = [OutHeader ''n1'', OutTimedOut]"
    unfolding l by simp
  with e show ?thesis by (simp del: exec_cmd.simps)
qed

end
