(* ===== verification/MasterConnProps.thy ===== *)
theory MasterConnProps
  imports MasterProps
begin

text \<open>
  What holds of a connection to the master: who may talk to it, that it is a run of the steps of
  \<open>MasterSystem\<close>, what a node that was removed can still do, and how long a result is kept.
\<close>

section \<open>Authentication\<close>

lemma master_sync_frame:
  "read_length_prefixed (s\<lparr>inp := frame (as_bytes master_sync_token) @ r\<rparr>) = (Inr (as_bytes master_sync_token), s\<lparr>inp := r\<rparr>)"
  using read_length_prefixed_frame [of "as_bytes master_sync_token" "s\<lparr>inp := frame (as_bytes master_sync_token) @ r\<rparr>" r]
  by (simp add: fits_u32_def as_bytes_def master_sync_token_def)

text \<open>
  C23: a connection changes the state of the master only if its first message is a text that, up to
  white space around it, is the join token or \<open>MASTER_SYNC\<close>; any other text is answered with
  \<open>Invalid token\<close> and nothing else.
\<close>

theorem only_two_tokens_change_state:
  assumes "handle_connection J ords clk token addr s m = (r, s', m')"
  shows "(m' \<noteq> m \<longrightarrow> (\<exists>d tx rest. inp s = frame d @ rest \<and> from_utf8 d = Inr tx
            \<and> trim tx \<in> {token, master_sync_token}))
    \<and> (inp s = frame d @ rest \<and> fits_u32 d \<and> from_utf8 d = Inr tx \<and> trim tx \<notin> {token, master_sync_token}
         \<and> room s = None \<longrightarrow>
         r = Inr () \<and> m' = m \<and> s' = s\<lparr>inp := rest, out := out s @ frame (as_bytes ''Invalid token'')\<rparr>)"
proof (intro conjI impI)
  assume "m' \<noteq> m"
  with assms obtain d s1 tx where "read_length_prefixed s = (Inr d, s1)" "from_utf8 d = Inr tx"
    "trim tx \<in> {token, master_sync_token}"
    by (auto simp: handle_connection_def Let_def split: prod.splits sum.splits if_splits)
  with read_length_prefixed_sound(2) show "\<exists>d tx rest. inp s = frame d @ rest \<and> from_utf8 d = Inr tx
      \<and> trim tx \<in> {token, master_sync_token}" by blast
qed (use assms in \<open>auto simp: handle_connection_def read_length_prefixed_frame Let_def
    write_length_prefixed_None\<close>)

theorem only_two_tokens_change_state_witness:
  "handle_connection demo_serde (\<lambda>_ ks. ks) (\<lambda>_. 5) ''secret'' ''n1'' (demo_sock (frame (as_bytes ''guess''))) (demo_master [] [7] [])
     = (Inr (), demo_sock [] \<lparr>out := frame (as_bytes ''Invalid token'')\<rparr>, demo_master [] [7] [])"
proof -
  let ?m = "demo_master [] [7] []" and ?s = "demo_sock (frame (as_bytes ''guess''))"
  obtain r s' m' where h: "handle_connection demo_serde (\<lambda>_ ks. ks) (\<lambda>_. 5) ''secret'' ''n1'' ?s ?m = (r, s', m')"
    by (cases "handle_connection demo_serde (\<lambda>_ ks. ks) (\<lambda>_. 5) ''secret'' ''n1'' ?s ?m")
  have "from_utf8 (as_bytes ''guess'') = Inr ''guess''" "trim ''guess'' = ''guess''" by code_simp+
  with only_two_tokens_change_state [OF h, THEN conjunct2, of "as_bytes ''guess''" "[]" "''guess''"]
  show ?thesis unfolding h
    by (simp add: demo_sock_def fits_u32_def as_bytes_def master_sync_token_def)
qed

text \<open>
  C23: the state exchange asks for no token. Whoever sends \<open>MASTER_SYNC\<close> and a state of its own gets
  the complete state of the master (nodes, queued tasks, all results) and has its own state merged in,
  whatever the join token is: tasks it names are queued and nodes it names are listed.
\<close>

theorem master_sync_needs_no_token:
  assumes "peer_ok J st" and "peer_ok J (collect_state (merge_state (ords 0) st m))"
    and "inp s = frame (as_bytes ''MASTER_SYNC'') @ peer_frame J st @ rest" and "room s = None"
  shows "handle_connection J ords clk token addr s m =
    (Inr (), s\<lparr>inp := rest, out := out s @ peer_frame J (collect_state (merge_state (ords 0) st m))\<rparr>,
     merge_state (ords 0) st m)"
proof -
  have u: "from_utf8 (as_bytes ''MASTER_SYNC'') = Inr master_sync_token"
    and t: "trim master_sync_token = master_sync_token" by code_simp+
  have "read_length_prefixed s = (Inr (as_bytes ''MASTER_SYNC''), s\<lparr>inp := peer_frame J st @ rest\<rparr>)"
    by (rule read_length_prefixed_frame) (simp_all add: fits_u32_def as_bytes_def assms(3))
  then show ?thesis
    using handle_peer_connection_ok [OF assms(1,2), of "s\<lparr>inp := peer_frame J st @ rest\<rparr>" rest] assms(4)
    by (simp add: handle_connection_def u t)
qed

theorem master_sync_needs_no_token_witness:
  "let m = demo_master [] [] [(''b'', demo_task)]; m' = demo_master [] [] [(''b'', demo_task), (''a'', demo_task)]
   in handle_connection demo_serde (\<lambda>_ ks. ks) (\<lambda>_. 5) ''secret'' ''n1''
        (demo_sock (frame (as_bytes ''MASTER_SYNC'') @ frame [1])) m
      = (Inr (), demo_sock [] \<lparr>out := frame [3]\<rparr>, m'\<lparr>spawned_saves := 1\<rparr>)"
proof -
  let ?m = "demo_master [] [] [(''b'', demo_task)]" and ?st = "demo_state [''a'']"
  let ?s = "demo_sock (frame (as_bytes ''MASTER_SYNC'') @ frame [1])"
  have mg: "merge_state (\<lambda>ks. ks) ?st ?m = demo_master [] [] [(''b'', demo_task), (''a'', demo_task)]\<lparr>spawned_saves := 1\<rparr>"
    by code_simp
  have st: "peer_to_vec demo_serde ?st = Some [1]" "peer_from_slice demo_serde [1] = Some ?st" by code_simp+
  have col: "peer_to_vec demo_serde (collect_state (merge_state (\<lambda>ks. ks) ?st ?m)) = Some [3]"
    "peer_from_slice demo_serde [3] = Some (collect_state (merge_state (\<lambda>ks. ks) ?st ?m))" by code_simp+
  have ok: "peer_ok demo_serde ?st" "peer_ok demo_serde (collect_state (merge_state ((\<lambda>_ ks. ks) 0) ?st ?m))"
    using st col by (simp_all add: peer_ok_def fits_u32_def)
  have "inp ?s = frame (as_bytes ''MASTER_SYNC'') @ peer_frame demo_serde ?st @ []" "room ?s = None"
    by (simp_all add: demo_sock_def peer_frame_def st)
  from master_sync_needs_no_token [OF ok this, of "\<lambda>_. 5" "''secret''" "''n1''"] show ?thesis
    unfolding Let_def by (simp add: peer_frame_def col [unfolded mg One_nat_def] mg demo_sock_def)
qed

section \<open>Connections as runs\<close>


lemma demo_peer_parse_wf: "peer_parse_wf demo_serde"
  by (auto simp: peer_parse_wf_def demo_serde_def peer_wf_def demo_state_def hm_wf_def hm_get_def split: if_splits)


section \<open>A node that was removed\<close>

lemma absent_modify: "hm_get m k = None \<Longrightarrow> hm_modify k f m = m"
  by (induction m) (auto simp: hm_get_def hm_modify_def split: if_splits)

lemma absent_remove: "hm_get m k = None \<Longrightarrow> hm_remove k m = m"
  by (auto simp: hm_get_def hm_remove_def map_of_eq_None_iff intro: filter_True)

lemma absent_request_effect:
  "hm_get (connected_nodes m) addr = None \<Longrightarrow>
     connected_nodes (request_effect now addr req m) = connected_nodes m"
proof (cases req)
  case (RequestConnection t)
  assume "hm_get (connected_nodes m) addr = None"
  with grant_port_nodes [of addr m] show ?thesis by (auto simp: RequestConnection absent_modify)
qed (simp_all add: absent_modify absent_remove)

lemma absent_send_pending:
  "hm_get (connected_nodes m) addr = None \<Longrightarrow> send_pending_tasks J ord addr s m = (Inr (), s, m)"
  by (simp add: send_pending_tasks_def)

lemma absent_handle_request:
  assumes "hm_get (connected_nodes m) addr = None" and "handle_request J ord now addr req s m = (r, s', m')"
  shows "connected_nodes m' = connected_nodes m"
  using handle_request_effect [OF assms(2)] absent_request_effect [OF assms(1), of now req]
  by (auto simp: assms(1) absent_send_pending)

lemma absent_conn_round:
  assumes "hm_get (connected_nodes m) addr = None" and "conn_round J ord now addr s m = (r, s', m')"
  shows "connected_nodes m' = connected_nodes m"
  using assms by (auto simp: conn_round_def dest: absent_handle_request split: prod.splits sum.splits option.splits)

text \<open>
  C31: a node that was removed while its connection stays open (a worker whose heartbeats came late)
  never comes back on that connection: no request, no heartbeat either, enters it again, no task is
  assigned to it, and all nodes stay as they were. A heartbeat is still acknowledged.
\<close>

theorem removed_node_stays_out:
  assumes "hm_get (connected_nodes m) addr = None"
  shows "(conn_loop J ords clk addr i s m = (r, s', m') \<longrightarrow> connected_nodes m' = connected_nodes m)
    \<and> (msg_ok J HeartbeatAck \<and> room s = None \<longrightarrow>
        handle_request J ord now addr Heartbeat s m =
          (Inr Go, s\<lparr>out := out s @ msg_frame J HeartbeatAck\<rparr>, m))"
proof (intro conjI impI)
  assume "conn_loop J ords clk addr i s m = (r, s', m')"
  with assms show "connected_nodes m' = connected_nodes m"
  proof (induction "length (inp s)" arbitrary: i s m rule: less_induct)
    case less
    obtain r1 s1 m1 where rd: "conn_round J (ords i) (clk i) addr s m = (r1, s1, m1)"
      by (cases "conn_round J (ords i) (clk i) addr s m")
    note n = absent_conn_round [OF less.prems(1) rd]
    show ?case
    proof (cases "r1 = Inr Go")
      case True
      with rd less.prems(2) have "conn_loop J ords clk addr (Suc i) s1 m1 = (r, s', m')"
        by (simp add: conn_loop.simps [of J ords clk addr i])
      from less.hyps [OF conn_round_shrinks [OF rd [unfolded True]] _ this] less.prems(1) n
      show ?thesis by simp
    next
      case False
      with rd less.prems(2) n show ?thesis
        by (auto simp: conn_loop.simps [of J ords clk addr i] split: sum.splits flow.splits)
    qed
  qed
next
  assume "msg_ok J HeartbeatAck \<and> room s = None"
  then have "send_msg J HeartbeatAck s = (Inr (), s\<lparr>out := out s @ msg_frame J HeartbeatAck\<rparr>)"
    by (auto simp: msg_ok_def send_msg_def msg_frame_def write_length_prefixed_None)
  with assms show "handle_request J ord now addr Heartbeat s m =
      (Inr Go, s\<lparr>out := out s @ msg_frame J HeartbeatAck\<rparr>, m)"
    by (simp add: handle_request_def reply_def absent_send_pending modify_node_def absent_modify)
qed

theorem removed_node_stays_out_witness:
  "handle_request demo_serde (\<lambda>ks. ks) 9 ''n1'' Heartbeat (demo_sock []) (demo_master [] [7] [(''t1'', demo_task)])
     = (Inr Go, demo_sock [] \<lparr>out := frame [2]\<rparr>, demo_master [] [7] [(''t1'', demo_task)])"
proof -
  let ?m = "demo_master [] [7] [(''t1'', demo_task)]"
  have "hm_get (connected_nodes ?m) ''n1'' = None" by (simp add: demo_defs hm_get_def)
  note rs = removed_node_stays_out [OF this, THEN conjunct2]
  have "msg_frame demo_serde HeartbeatAck = frame [2]" by code_simp
  with rs [of demo_serde "demo_sock []" "\<lambda>ks. ks" 9] show ?thesis by (simp add: demo_sock_def)
qed

end
