(* ===== verification/MasterFailover.thy ===== *)
theory MasterFailover
  imports MasterConnProps
begin

text \<open>
  What holds of the paths on which something goes wrong: an assignment whose write breaks, the
  clean-up of dead nodes, and of the exchange of two masters.
\<close>

section \<open>An assignment that breaks off\<close>

lemma assign_post_undo:
  assumes "hm_get (connected_nodes m) addr = Some n" and "hm_get (pending_tasks m) tid = Some p"
    and "eligible m addr role tid p"
  shows "assign_post J addr n Map.empty s m s (untake_task addr tid p (take_task addr tid p m))"
proof -
  have free: "hm_get (active_tasks n) tid = None"
    using eligible_not_active [OF assms(3), of addr] assms(1) by (auto simp: active_on_def)
  let ?A = "hm_remove tid (hm_insert tid (task p) (active_tasks n))"
  have "hm_get ?A = hm_get (active_tasks n) ++ Map.empty" using free by auto
  moreover have "hm_get (connected_nodes (untake_task addr tid p (take_task addr tid p m))) =
      (hm_get (connected_nodes m))(addr \<mapsto> n\<lparr>active_tasks := ?A\<rparr>)"
    using assms(1) by (auto simp: task_step)
  moreover have "hm_get (pending_tasks (untake_task addr tid p (take_task addr tid p m))) =
      hm_get (pending_tasks m) |` (- dom Map.empty)"
    using assms(2) by (auto simp: task_step restrict_map_def)
  moreover have "\<exists>ts :: (string \<times> Task) list. distinct (map fst ts) \<and> map_of ts = Map.empty
      \<and> out s = out s @ assign_frames J ts"
    by (rule exI [of _ "[]"]) (simp add: assign_frames_def)
  moreover have "completed_tasks (untake_task addr tid p (take_task addr tid p m)) = completed_tasks m"
    "available_ports (untake_task addr tid p (take_task addr tid p m)) = available_ports m"
    by (simp_all add: task_step)
  ultimately show ?thesis unfolding assign_post_def by blast
qed

lemma assign_loop_broken:
  assumes "lawful_order ord" and "hm_get (connected_nodes m) addr = Some n"
    and "assign_loop J ord addr role s m = (Inl e, s', m')" and "e \<noteq> Serde"
  shows "\<exists>as s1 tid t data. as \<subseteq>\<^sub>m assigned m addr role \<and> tid \<notin> dom as \<and> assigned m addr role tid = Some t
    \<and> to_vec J (AssignTask tid t) = Some data \<and> write_length_prefixed data s1 = (Inl e, s')
    \<and> assign_post J addr n as s m s1 m'"
  using assms(2,3)
proof (induction "length (pending_tasks m)" arbitrary: s m n rule: less_induct)
  case less
  show ?case
  proof (cases "next_task ord addr role m")
    case None
    with less.prems show ?thesis by (simp add: assign_loop.simps [of J ord addr role s m])
  next
    case (Some tp)
    obtain tid p where tp: "tp = (tid, p)" by (cases tp)
    note nt = Some [unfolded tp]
    note tk = next_task_Some [OF nt]
    obtain data where data: "to_vec J (AssignTask tid (task p)) = Some data"
      using less.prems(2) nt assms(4)
      by (auto simp: assign_loop.simps [of J ord addr role s m] Let_def split: option.splits)
    obtain w s1 where w: "write_length_prefixed data s = (w, s1)" by (cases "write_length_prefixed data s")
    show ?thesis
    proof (cases w)
      case (Inl e')
      with less.prems(2) nt data w have "e' = e" "s1 = s'" and m': "m' = untake_task addr tid p (take_task addr tid p m)"
        by (simp_all add: assign_loop.simps [of J ord addr role s m] Let_def)
      moreover have "assign_post J addr n Map.empty s m s m'"
        unfolding m' by (rule assign_post_undo [OF less.prems(1) tk])
      ultimately show ?thesis
        using next_task_assigned [OF nt] data w Inl
        by (intro exI [of _ Map.empty] exI [of _ s] exI [of _ tid] exI [of _ "task p"] exI [of _ data]) simp
    next
      case (Inr u)
      let ?m1 = "take_task addr tid p m" and ?n1 = "n\<lparr>active_tasks := hm_insert tid (task p) (active_tasks n)\<rparr>"
      have node: "hm_get (connected_nodes ?m1) addr = Some ?n1" using less.prems(1) by (simp add: task_step)
      have rec: "assign_loop J ord addr role s1 ?m1 = (Inl e, s', m')"
        using less.prems(2) nt data w Inr by (simp add: assign_loop.simps [of J ord addr role s m] Let_def)
      from less.hyps [OF next_task_shrinks [OF nt] node rec] obtain as s2 tid' t' d' where
        as: "as \<subseteq>\<^sub>m (assigned m addr role)(tid := None)" and tid': "tid' \<notin> dom as"
        "((assigned m addr role)(tid := None)) tid' = Some t'" and d': "to_vec J (AssignTask tid' t') = Some d'"
        "write_length_prefixed d' s2 = (Inl e, s')" and post: "assign_post J addr ?n1 as s1 ?m1 s2 m'"
        unfolding assigned_take by blast
      from as have "as tid = None" by (metis domIff fun_upd_same map_le_def)
      then have as_upd: "(as(tid \<mapsto> task p))(tid := None) = as" by (simp add: fun_upd_idem)
      have "assign_post J addr n (as(tid \<mapsto> task p)) s m s2 m'"
      proof (rule assign_post_step [OF less.prems(1)])
        show "out s1 = out s @ msg_frame J (AssignTask tid (task p))"
          using write_length_prefixed_ok(1) [of data s u s1] w Inr data by (simp add: msg_frame_def)
      qed (use post as_upd in \<open>simp_all add: as_upd\<close>)
      moreover have "as(tid \<mapsto> task p) \<subseteq>\<^sub>m assigned m addr role"
        using as next_task_assigned [OF nt] by (auto simp: map_le_def dom_def split: if_splits)
      moreover have "tid' \<notin> dom (as(tid \<mapsto> task p))" "assigned m addr role tid' = Some t'"
        using tid' by (auto split: if_splits)
      ultimately show ?thesis using d' by blast
    qed
  qed
qed

text \<open>
  C19: when the connection breaks in the middle of an assignment, the books are right: exactly the
  tasks whose message was written completely are recorded as active on the node; the task whose
  message broke off is back in the queue with its addressee and not active anywhere; all others
  are where they were.
\<close>

theorem broken_assignment_restored:
  assumes "lawful_order ord" and "hm_get (connected_nodes m) addr = Some n" and "is_worker n"
    and "send_pending_tasks J ord addr s m = (Inl e, s', m')" and "e \<noteq> Serde"
  shows "\<exists>as s1 tid t data. as \<subseteq>\<^sub>m assigned m addr (node_role n) \<and> tid \<notin> dom as
    \<and> assigned m addr (node_role n) tid = Some t
    \<and> to_vec J (AssignTask tid t) = Some data \<and> write_length_prefixed data s1 = (Inl e, s')
    \<and> assign_post J addr n as s m s1 m'"
  using assms by (intro assign_loop_broken) (simp_all add: send_pending_tasks_def)

theorem broken_assignment_restored_witness:
  "let n = demo_node ''n1'' 0 None []; m = demo_master [(''n1'', n)] [] [(''t1'', demo_task)];
       s = \<lparr>inp = [], out = [], room = Some 3\<rparr>
   in \<exists>as s1 tid t data. as \<subseteq>\<^sub>m assigned m ''n1'' Worker \<and> tid \<notin> dom as
        \<and> assigned m ''n1'' Worker tid = Some t \<and> to_vec demo_serde (AssignTask tid t) = Some data
        \<and> write_length_prefixed data s1 = (Inl (Io ''broken pipe''), \<lparr>inp = [], out = [0, 0, 0], room = Some 0\<rparr>)
        \<and> assign_post demo_serde ''n1'' n as s m s1 m"
proof -
  let ?n = "demo_node ''n1'' 0 None []"
  let ?m = "demo_master [(''n1'', ?n)] [] [(''t1'', demo_task)]"
  have "send_pending_tasks demo_serde (\<lambda>ks. ks) ''n1'' \<lparr>inp = [], out = [], room = Some 3\<rparr> ?m =
      (Inl (Io ''broken pipe''), \<lparr>inp = [], out = [0, 0, 0], room = Some 0\<rparr>, ?m)"
    by code_simp
  from broken_assignment_restored [OF lawful_order_id _ _ this, of ?n] show ?thesis
    by (simp add: demo_defs hm_get_def)
qed

section \<open>Clean-up\<close>

lemma single_active_drop: "single_active m \<Longrightarrow> single_active (drop_stale ord addr m)"
  by (erule single_active_mono) (simp add: drop_stale_active_on)

lemma drop_all_other_pending:
  assumes "lawful_order ord" and "maps_wf m" and "\<forall>a \<in> set xs. \<not> active_on m a t"
  shows "hm_get (pending_tasks (fold (drop_stale ord) xs m)) t = hm_get (pending_tasks m) t"
  using assms(2,3)
proof (induction xs arbitrary: m)
  case (Cons x xs)
  have "hm_get (pending_tasks (drop_stale ord x m)) t = hm_get (pending_tasks m) t"
    using Cons.prems by (auto simp: drop_stale_pending(1) [OF assms(1)] active_on_def split: option.splits)
  with Cons show ?case
    by (simp add: drop_stale_pending(2) [OF assms(1)] drop_stale_active_on)
qed simp

lemma drop_all_active_pending:
  assumes "lawful_order ord" and "maps_wf m" and "single_active m" and "a \<in> set xs"
    and "hm_get (connected_nodes m) a = Some n" and "hm_get (active_tasks n) t = Some tk"
  shows "hm_get (pending_tasks (fold (drop_stale ord) xs m)) t = Some \<lparr>task = tk, target = None\<rparr>"
  using assms(2-)
proof (induction xs arbitrary: m)
  case (Cons x xs)
  note wf = drop_stale_pending(2) [OF assms(1) Cons.prems(1), of x]
  have act: "active_on m a t" using Cons.prems(4,5) by (simp add: active_on_def)
  show ?case
  proof (cases "x = a")
    case True
    have "\<forall>b \<in> set xs. \<not> active_on (drop_stale ord x m) b t"
      using act Cons.prems(2) True unfolding drop_stale_active_on single_active_def by blast
    with drop_all_other_pending [OF assms(1) wf] True Cons.prems(1,4,5) show ?thesis
      by (simp add: drop_stale_pending(1) [OF assms(1)])
  next
    case False
    with Cons.prems Cons.IH [OF wf single_active_drop [OF Cons.prems(2)]] show ?thesis by simp
  qed
qed simp

text \<open>
  C15: a clean-up removes exactly the nodes whose last heartbeat is older than twice the time-out,
  and puts exactly their running tasks back into the queue, addressed to nobody (the addressee a task
  may have had is gone); the other nodes, the other pending tasks, the results and the ports stay.
\<close>

theorem cleanup_spec:
  assumes "lawful_order ord" and "maps_wf m" and "single_active m"
  shows "let m' = cleanup_dead_nodes ord now m in
      (\<forall>a. hm_get (connected_nodes m') a = (if node_stale now m a then None else hm_get (connected_nodes m) a))
    \<and> (\<forall>a n t tk. node_stale now m a \<and> hm_get (connected_nodes m) a = Some n \<and> hm_get (active_tasks n) t = Some tk \<longrightarrow>
        hm_get (pending_tasks m') t = Some \<lparr>task = tk, target = None\<rparr>)
    \<and> (\<forall>t. (\<forall>a. node_stale now m a \<longrightarrow> \<not> active_on m a t) \<longrightarrow>
        hm_get (pending_tasks m') t = hm_get (pending_tasks m) t)
    \<and> completed_tasks m' = completed_tasks m \<and> available_ports m' = available_ports m"
proof -
  note st = set_stale_nodes [OF assms(1), of now m]
  have p: "pending_tasks (cleanup_dead_nodes ord now m) =
      pending_tasks (fold (drop_stale ord) (stale_nodes ord now m) m)"
    by (simp add: cleanup_dead_nodes_def)
  have "hm_get (pending_tasks (cleanup_dead_nodes ord now m)) t = Some \<lparr>task = tk, target = None\<rparr>"
    if "node_stale now m a" "hm_get (connected_nodes m) a = Some n" "hm_get (active_tasks n) t = Some tk" for a n t tk
    unfolding p using that st by (intro drop_all_active_pending [OF assms, of a]) auto
  moreover have "hm_get (pending_tasks (cleanup_dead_nodes ord now m)) t = hm_get (pending_tasks m) t"
    if "\<forall>a. node_stale now m a \<longrightarrow> \<not> active_on m a t" for t
    unfolding p using that st by (intro drop_all_other_pending [OF assms(1,2)]) auto
  moreover have "completed_tasks (cleanup_dead_nodes ord now m) = completed_tasks m"
    "available_ports (cleanup_dead_nodes ord now m) = available_ports m"
    by (simp_all add: cleanup_fields [OF assms(1,2)] cleanup_available)
  moreover note cleanup_fields(2) [OF assms(1,2), of now]
  ultimately show ?thesis unfolding Let_def by blast
qed

theorem cleanup_spec_witness:
  "hm_get (pending_tasks (cleanup_dead_nodes (\<lambda>ks. ks) 5000
     (demo_master [(''n1'', demo_node ''n1'' 0 None [(''t1'', Compute ''1+1'')])] [] []))) ''t1''
   = Some \<lparr>task = Compute ''1+1'', target = None\<rparr>"
proof -
  let ?n = "demo_node ''n1'' 0 None [(''t1'', Compute ''1+1'')]" and ?m = "demo_master [(''n1'', demo_node ''n1'' 0 None [(''t1'', Compute ''1+1'')])] [] []"
  have "maps_wf ?m" "single_active ?m"
    by (auto simp: maps_wf_def single_active_def active_on_def demo_defs hm_wf_def hm_get_def split: if_splits)
  note c = cleanup_spec [OF lawful_order_id this, of 5000, unfolded Let_def]
  have "node_stale 5000 ?m ''n1''" by code_simp
  moreover have "hm_get (connected_nodes ?m) ''n1'' = Some ?n" "hm_get (active_tasks ?n) ''t1'' = Some (Compute ''1+1'')"
    by (simp_all add: demo_defs hm_get_def)
  ultimately show ?thesis using c by blast
qed

end
