(* ===== verification/MasterPeerProps.thy ===== *)
theory MasterPeerProps
  imports MasterFailover
begin

text \<open>What holds of results, of the first query of a client and of the exchange of two masters.\<close>

section \<open>Results\<close>

definition keeps_result :: "string \<Rightarrow> action \<Rightarrow> bool" where
  "keeps_result t a =
     (case a of
        Request _ (TaskResultMsg tid _) \<Rightarrow> tid \<noteq> t
      | ShellCollect tid \<Rightarrow> tid \<noteq> t
      | _ \<Rightarrow> True)"

lemma result_request_effect:
  "keeps_result t (Request addr req) \<Longrightarrow>
     hm_get (completed_tasks (request_effect now addr req m)) t = hm_get (completed_tasks m) t"
  by (cases req) (auto simp: keeps_result_def)

lemma result_step:
  assumes "master_step J m a m'" and "keeps_result t a" and "maps_wf m"
    and "hm_get (completed_tasks m) t = Some res"
  shows "hm_get (completed_tasks m') t = Some res"
  using assms
proof (induction rule: master_step.induct)
  case (enter ord addr s now m r s' m')
  then have "completed_tasks m' = completed_tasks (enter_node addr now m)"
    using send_pending_completed [of J ord addr s "enter_node addr now m"] by simp
  with enter.prems show ?case by simp
next
  case (request ord now addr req s m r s' m')
  show ?case
    by (rule handle_request_keeps [where I = "\<lambda>m'. hm_get (completed_tasks m') t = Some res", OF request.hyps(2)])
      (use request.prems in \<open>simp_all add: result_request_effect\<close>)
next
  case (cleanup ord m now)
  then show ?case by (simp add: cleanup_fields(3))
next
  case (peer ord st m)
  then show ?case by (simp add: merge_state_get(3))
qed (auto simp: keeps_result_def add_task_def)

text \<open>
  C22: a result that a node has reported is recorded at once, the task is no longer queued, and the
  result stays the answer to \<open>GetTaskResult\<close> through every interleaving of steps that neither
  reports the same task again nor lets the shell collect it; nothing else ever removes a result.
\<close>

theorem result_is_kept:
  assumes "maps_wf m" and "handle_request J ord now addr (TaskResultMsg t res) s m = (r, s1, m1)"
    and "master_run J m1 as m2" and "\<forall>a \<in> set as. keeps_result t a"
  shows "t \<notin> pending_ids m1 \<and> hm_get (completed_tasks m2) t = Some res
    \<and> (msg_ok J (TaskResultMsg t res) \<and> room s2 = None \<longrightarrow>
        process_request J ord' now' addr' (GetTaskResult t) s2 m2 =
          (Inr Go, s2\<lparr>out := out s2 @ msg_frame J (TaskResultMsg t res)\<rparr>, m2))"
proof -
  let ?e = "request_effect now addr (TaskResultMsg t res) m"
  have np: "t \<notin> pending_ids m1"
  proof (rule handle_request_keeps [where I = "\<lambda>m'. t \<notin> pending_ids m'", OF assms(2)])
    fix m :: MasterNode and s1
    assume "t \<notin> pending_ids m"
    then show "t \<notin> pending_ids (snd (snd (send_pending_tasks J ord addr s1 m)))"
      by (rule send_pending_invariant [where I = "\<lambda>m'. t \<notin> pending_ids m'"]) (auto simp: pending_ids_iff)
  qed (simp add: pending_ids_iff)
  have c: "hm_get (completed_tasks m1) t = Some res"
    by (rule handle_request_keeps [where I = "\<lambda>m'. hm_get (completed_tasks m') t = Some res", OF assms(2)])
      simp_all
  have wf: "maps_wf m1"
    by (rule handle_request_keeps [where I = maps_wf, OF assms(2) maps_wf_request_effect [OF assms(1)] send_pending_maps_wf])
  have "maps_wf m2 \<and> hm_get (completed_tasks m2) t = Some res"
    by (rule master_run_invariant [OF assms(3) _ assms(4)]) (use wf c in \<open>auto dest: maps_wf_step result_step\<close>)
  with np show ?thesis
    by (auto simp: reply_def msg_ok_def send_msg_def msg_frame_def write_length_prefixed_None)
qed

theorem result_is_kept_witness:
  "let m1 = snd (snd (handle_request demo_serde (\<lambda>ks. ks) 7 ''n1'' (TaskResultMsg ''t1'' (Number 2)) (demo_sock []) demo_run_state))
   in process_request demo_serde (\<lambda>ks. ks) 9 ''c'' (GetTaskResult ''t1'') (demo_sock []) (cleanup_dead_nodes (\<lambda>ks. ks) 50000 m1) =
      (Inr Go, demo_sock [] \<lparr>out := frame [6]\<rparr>, cleanup_dead_nodes (\<lambda>ks. ks) 50000 m1)"
proof -
  let ?h = "handle_request demo_serde (\<lambda>ks. ks) 7 ''n1'' (TaskResultMsg ''t1'' (Number 2)) (demo_sock []) demo_run_state"
  obtain r s1 m1 where h: "?h = (r, s1, m1)" by (cases ?h)
  have wf: "maps_wf demo_run_state"
    by (rule master_run_invariant [where I = maps_wf and allowed = "\<lambda>_. True", OF demo_run])
      (auto simp: maps_wf_init dest: maps_wf_step)
  have run: "master_run demo_serde m1 [Cleanup] (cleanup_dead_nodes (\<lambda>ks. ks) 50000 m1)"
    by (auto simp: master_run_Cons intro: master_step.cleanup lawful_order_id)
  have "msg_ok demo_serde (TaskResultMsg ''t1'' (Number 2))"
    by (simp add: msg_ok_def demo_serde_def demo_table_def fits_u32_def)
  moreover have "msg_frame demo_serde (TaskResultMsg ''t1'' (Number 2)) = frame [6]" by code_simp
  ultimately show ?thesis
    using result_is_kept [OF wf h run] unfolding h
    by (simp add: keeps_result_def demo_sock_def Let_def del: process_request.simps)
qed

section \<open>The first query of a client\<close>

text \<open>
  A client that authenticates and asks for the connected nodes, as its first request, is told at
  least of itself: its own address is in the list, so the list is never empty and the client never
  executes its task locally.
\<close>

theorem first_query_lists_the_client:
  assumes "inp s = frame (as_bytes token) @ msg_frame J GetConnectedNodes @ rest"
    and "fits_u32 (as_bytes token)" and "from_utf8 (as_bytes token) = Inr token" and "trim token = token"
    and "token \<noteq> master_sync_token" and "msg_ok J GetConnectedNodes" and "room s = None"
    and "\<And>i. lawful_order (ords i)"
    and "msg_ok J (ConnectedNodes (ords 1 (hm_keys (connected_nodes (enter_node addr (clk 0) m)))))"
    and "handle_connection J ords clk token addr s m = (r, s', m')"
  shows "\<exists>ns tail. addr \<in> set ns \<and> ns \<noteq> []
    \<and> out s' = out s @ frame (as_bytes ''OK'') @ msg_frame J (ConnectedNodes ns) @ tail"
proof -
  let ?s1 = "s\<lparr>inp := msg_frame J GetConnectedNodes @ rest\<rparr>"
  let ?s2 = "?s1\<lparr>out := out s @ frame (as_bytes ''OK'')\<rparr>"
  let ?m1 = "enter_node addr (clk 0) m"
  let ?ns = "ords 1 (hm_keys (connected_nodes ?m1))"
  let ?s3 = "?s2\<lparr>inp := rest, out := out ?s2 @ msg_frame J (ConnectedNodes ?ns)\<rparr>"
  have "read_length_prefixed s = (Inr (as_bytes token), ?s1)"
    by (rule read_length_prefixed_frame [OF assms(2,1)])
  with assms(3-5,10) have srv: "serve_client J ords clk addr ?s1 m = (r, s', m')"
    by (simp add: handle_connection_def)
  have ok: "write_length_prefixed (as_bytes ''OK'') ?s1 = (Inr (), ?s2)"
    using write_length_prefixed_None [of ?s1 "as_bytes ''OK''"] assms(7) by simp
  have node: "hm_get (connected_nodes ?m1) addr = Some (fresh_node addr (clk 0))" by simp
  have send: "send_pending_tasks J ord addr t ?m1 = (Inr (), t, ?m1)" for ord t
    using node by (simp add: send_pending_tasks_def fresh_node_def)
  obtain r3 s3 m3 where cl: "conn_loop J ords clk addr 1 ?s2 ?m1 = (r3, s3, m3)"
    by (cases "conn_loop J ords clk addr 1 ?s2 ?m1")
  with srv ok send have s': "s' = s3" by (auto simp: serve_client_def split: sum.splits)
  from assms(6) obtain b where b: "to_vec J GetConnectedNodes = Some b" "fits_u32 b" "from_slice J b = Some GetConnectedNodes"
    by (auto simp: msg_ok_def)
  have "read_length_prefixed ?s2 = (Inr b, ?s2\<lparr>inp := rest\<rparr>)"
    by (rule read_length_prefixed_frame) (simp_all add: b msg_frame_def)
  moreover have "send_msg J (ConnectedNodes ?ns) (?s2\<lparr>inp := rest\<rparr>) = (Inr (), ?s3)"
    using assms(9) assms(7) unfolding msg_ok_def
    by (auto simp: send_msg_def msg_frame_def write_length_prefixed_None)
  ultimately have "conn_round J (ords 1) (clk 1) addr ?s2 ?m1 = (Inr Go, ?s3, ?m1)"
    using b(3) send by (simp add: conn_round_def handle_request_def reply_def)
  with cl have rest: "conn_loop J ords clk addr (Suc 1) ?s3 ?m1 = (r3, s3, m3)"
    by (simp add: conn_loop.simps [of J ords clk addr "Suc 0"])
  from conn_loop_out [OF this] obtain tail where "out s3 = out ?s3 @ tail" by blast
  moreover have "addr \<in> set ?ns"
    using lawful_order_set [OF assms(8)] node by (simp add: hm_keys_iff)
  ultimately show ?thesis
    by (intro exI [of _ ?ns] exI [of _ tail]) (auto simp: s')
qed

theorem first_query_lists_the_client_witness:
  "\<exists>ns tail. ''n1'' \<in> set ns \<and> ns \<noteq> [] \<and>
     out (fst (snd (handle_connection demo_serde (\<lambda>_ ks. ks) (\<lambda>_. 5) ''secret'' ''n1''
       (demo_sock (frame (as_bytes ''secret'') @ frame [3] @ frame [8])) (demo_master [] [7] []))))
     = frame (as_bytes ''OK'') @ msg_frame demo_serde (ConnectedNodes ns) @ tail"
proof -
  let ?s = "demo_sock (frame (as_bytes ''secret'') @ frame [3] @ frame [8])" and ?m = "demo_master [] [7] []"
  obtain r s' m' where h: "handle_connection demo_serde (\<lambda>_ ks. ks) (\<lambda>_. 5) ''secret'' ''n1'' ?s ?m = (r, s', m')"
    by (cases "handle_connection demo_serde (\<lambda>_ ks. ks) (\<lambda>_. 5) ''secret'' ''n1'' ?s ?m")
  have "inp ?s = frame (as_bytes ''secret'') @ msg_frame demo_serde GetConnectedNodes @ frame [8]"
    by (simp add: demo_sock_def msg_frame_def demo_serde_def demo_table_def)
  moreover have "fits_u32 (as_bytes ''secret'')" by (simp add: fits_u32_def as_bytes_def)
  moreover have "from_utf8 (as_bytes ''secret'') = Inr ''secret''" "trim ''secret'' = ''secret''" by code_simp+
  moreover have "''secret'' \<noteq> master_sync_token" by (simp add: master_sync_token_def)
  moreover have "msg_ok demo_serde GetConnectedNodes" "room ?s = None"
    by (simp_all add: msg_ok_def demo_serde_def demo_table_def fits_u32_def demo_sock_def)
  moreover have "hm_keys (connected_nodes (enter_node ''n1'' 5 ?m)) = [''n1'']" by code_simp
  moreover have "msg_ok demo_serde (ConnectedNodes [''n1''])"
    by (simp add: msg_ok_def demo_serde_def demo_table_def fits_u32_def)
  ultimately show ?thesis
    using first_query_lists_the_client [OF _ _ _ _ _ _ _ lawful_order_id _ h, of "frame [8]"]
    unfolding h by (simp add: demo_sock_def)
qed

section \<open>Two masters\<close>



text \<open>
  C32: a master that has merged the nodes of a peer takes over their running tasks when they do not
  send it heartbeats, which they do not, as they are connected to the peer: after the time-out the
  task is queued here, while the node is alive and works on it there. The same task then runs twice.
\<close>

theorem merged_nodes_run_tasks_twice:
  assumes "lawful_order ord" and "maps_wf A" and "maps_wf B" and "hm_get (connected_nodes A) addr = None"
    and "hm_get (connected_nodes B) addr = Some n" and "active_on B addr t"
    and "failover_timeout A < sat_sub now (last_heartbeat n)"
  shows "t \<in> pending_ids (cleanup_dead_nodes ord now (merge_state ord (collect_state B) A))"
proof -
  let ?M = "merge_state ord (collect_state B) A"
  have wfB: "peer_wf (collect_state B)" using assms(3) by simp
  note M = merge_state_get [OF assms(1) wfB assms(2)]
  have node: "hm_get (connected_nodes ?M) addr = Some n"
    unfolding M(1) using assms(4,5) by (auto simp: collect_state_def map_add_def)
  then have "active_on ?M addr t" using assms(5,6) by (simp add: active_on_def)
  moreover have "node_stale now ?M addr"
    using node assms(7) by (simp add: node_stale_def failover_timeout_def)
  ultimately show ?thesis by (auto simp: cleanup_fields(5) [OF assms(1) M(4)])
qed

theorem merged_nodes_run_tasks_twice_witness:
  "''t1'' \<in> pending_ids (cleanup_dead_nodes (\<lambda>ks. ks) 9000 (merge_state (\<lambda>ks. ks)
     (collect_state (demo_master [(''n1'', demo_node ''n1'' 6000 None [(''t1'', Compute ''1+1'')])] [] []))
     (demo_master [] [] [])))"
  by (rule merged_nodes_run_tasks_twice [where n = "demo_node ''n1'' 6000 None [(''t1'', Compute ''1+1'')]" and addr = "''n1''"])
    (simp_all add: lawful_order_id maps_wf_def hm_wf_def active_on_def demo_defs hm_get_def failover_timeout_def sat_sub_def)

end
