(* ===== verification/IpAddr.thy ===== *)
theory IpAddr
  imports RustStr
begin

text \<open>
  \<open>is_local_ip\<close> of cpcluster_common/src/lib.rs, which decides on both sides of a connection
  whether TLS is used. It parses its argument with the standard library's
  \<open>parse::<std::net::IpAddr>()\<close>; the recursive-descent parser of \<open>core::net::parser\<close> is
  modelled with it: decimal octets without leading zeros, groups of up to four hexadecimal digits,
  \<open>::\<close>, and an embedded IPv4 address at the end of an IPv6 address.
\<close>

unbundle bit_operations_syntax

section \<open>The standard library's address parser\<close>

datatype IpAddr = V4 "u8 list" | V6 "u16 list"

text \<open>Digits from the front, at most \<open>k\<close> of them; one more is a failure.\<close>

fun read_digits :: "nat \<Rightarrow> nat \<Rightarrow> nat \<Rightarrow> nat \<Rightarrow> nat \<Rightarrow> string \<Rightarrow> (nat \<times> nat \<times> string) option" where
  "read_digits radix maxval k acc cnt [] = Some (acc, cnt, [])"
| "read_digits radix maxval k acc cnt (c # s) =
     (case to_digit radix c of
        None \<Rightarrow> Some (acc, cnt, c # s)
      | Some d \<Rightarrow>
          if maxval < acc * radix + d \<or> k < Suc cnt then None
          else read_digits radix maxval k (acc * radix + d) (Suc cnt) s)"

definition read_number :: "nat \<Rightarrow> nat \<Rightarrow> nat \<Rightarrow> bool \<Rightarrow> string \<Rightarrow> (nat \<times> string) option" where
  "read_number radix maxval max_digits allow_zero_prefix s =
     (case read_digits radix maxval max_digits 0 0 s of
        None \<Rightarrow> None
      | Some (n, cnt, r) \<Rightarrow>
          if cnt = 0 then None
          else if \<not> allow_zero_prefix \<and> hd s = CHR ''0'' \<and> 1 < cnt then None
          else Some (n, r))"

definition read_given_char :: "char \<Rightarrow> string \<Rightarrow> string option" where
  "read_given_char c s = (case s of x # r \<Rightarrow> if x = c then Some r else None | [] \<Rightarrow> None)"

text \<open>The separator is read before every item but the first.\<close>

definition read_separator :: "char \<Rightarrow> nat \<Rightarrow> (string \<Rightarrow> ('a \<times> string) option) \<Rightarrow> string \<Rightarrow> ('a \<times> string) option" where
  "read_separator sep i p s =
     (if i = 0 then p s
      else case read_given_char sep s of None \<Rightarrow> None | Some r \<Rightarrow> p r)"

fun read_octets :: "nat \<Rightarrow> nat \<Rightarrow> string \<Rightarrow> (u8 list \<times> string) option" where
  "read_octets 0 i s = Some ([], s)"
| "read_octets (Suc k) i s =
     (case read_separator CHR ''.'' i (read_number 10 255 3 False) s of
        None \<Rightarrow> None
      | Some (n, r) \<Rightarrow>
          (case read_octets k (Suc i) r of
             None \<Rightarrow> None
           | Some (ns, r') \<Rightarrow> Some (word_of_nat n # ns, r')))"

definition read_ipv4_addr :: "string \<Rightarrow> (u8 list \<times> string) option" where
  "read_ipv4_addr s = read_octets 4 0 s"

definition be16 :: "u8 \<Rightarrow> u8 \<Rightarrow> u16" where
  "be16 a b = push_bit 8 (ucast a) OR ucast b"

text \<open>
  \<open>read_groups limit i s\<close>: the groups read, whether they end in an IPv4 address, the rest.
\<close>

fun read_groups :: "nat \<Rightarrow> nat \<Rightarrow> string \<Rightarrow> u16 list \<times> bool \<times> string" where
  "read_groups 0 i s = ([], False, s)"
| "read_groups (Suc k) i s =
     (let v4 = (if 0 < k then read_separator CHR '':'' i read_ipv4_addr s else None)
      in case v4 of
           Some ([a, b, c, d], r) \<Rightarrow> ([be16 a b, be16 c d], True, r)
         | _ \<Rightarrow>
             (case read_separator CHR '':'' i (read_number 16 65535 4 True) s of
                None \<Rightarrow> ([], False, s)
              | Some (g, r) \<Rightarrow>
                  (let (gs, v, r') = read_groups k (Suc i) r in (word_of_nat g # gs, v, r'))))"

definition read_ipv6_addr :: "string \<Rightarrow> (u16 list \<times> string) option" where
  "read_ipv6_addr s =
     (let (head, head_ipv4, r) = read_groups 8 0 s
      in if length head = 8 then Some (head, r)
         else if head_ipv4 then None
         else case read_given_char CHR '':'' r of
                None \<Rightarrow> None
              | Some r1 \<Rightarrow>
                  (case read_given_char CHR '':'' r1 of
                     None \<Rightarrow> None
                   | Some r2 \<Rightarrow>
                       (let (tail, _, r3) = read_groups (8 - (length head + 1)) 0 r2
                        in Some (head @ replicate (8 - length head - length tail) 0 @ tail, r3))))"

definition parse_ip_addr :: "string \<Rightarrow> IpAddr option" where
  "parse_ip_addr s =
     (case read_ipv4_addr s of
        Some (v4, r) \<Rightarrow> if r = [] then Some (V4 v4) else None
      | None \<Rightarrow>
          (case read_ipv6_addr s of
             Some (v6, r) \<Rightarrow> if r = [] then Some (V6 v6) else None
           | None \<Rightarrow> None))"

section \<open>is_local_ip\<close>

definition is_local_ip :: "string \<Rightarrow> bool" where
  "is_local_ip ip =
     (case parse_ip_addr ip of
        Some (V4 octets) \<Rightarrow>
          (if octets ! 0 = 10 then True
           else if octets ! 0 = 172 \<and> 16 \<le> octets ! 1 \<and> octets ! 1 \<le> 31 then True
           else if octets ! 0 = 192 \<and> octets ! 1 = 168 then True
           else if octets ! 0 = 127 then True
           else False)
      | Some (V6 segments) \<Rightarrow>
          (if segments = [0, 0, 0, 0, 0, 0, 0, 1] then True
           else if segments ! 0 AND 0xfe00 = 0xfc00 then True
           else False)
      | None \<Rightarrow> False)"

section \<open>Printed IPv4 addresses\<close>

text \<open>The \<open>Display\<close> form of an IPv4 address, and of a socket address with a port.\<close>

definition show_ipv4 :: "u8 \<Rightarrow> u8 \<Rightarrow> u8 \<Rightarrow> u8 \<Rightarrow> string" where
  "show_ipv4 a b c d =
     show_nat (unat a) @ ''.'' @ show_nat (unat b) @ ''.'' @ show_nat (unat c) @ ''.'' @ show_nat (unat d)"

definition show_sock_addr :: "string \<Rightarrow> u16 \<Rightarrow> string" where
  "show_sock_addr ip port = ip @ '':'' @ show_nat (unat port)"

lemma show_nat_octet:
  "n < 256 \<Longrightarrow> show_nat n =
     (if n < 10 then [digit_char n]
      else if n < 100 then [digit_char (n div 10), digit_char (n mod 10)]
      else [digit_char (n div 100), digit_char (n div 10 mod 10), digit_char (n mod 10)])"
proof -
  assume n: "n < 256"
  have d: "n div 10 div 10 = n div 100" by (simp add: div_mult2_eq [symmetric])
  consider "n < 10" | "10 \<le> n" "n < 100" | "100 \<le> n" by linarith
  then show ?thesis
  proof cases
    case 1
    then show ?thesis by (simp add: show_nat.simps [of n])
  next
    case 2
    then have "n div 10 < 10" by simp
    with 2 show ?thesis by (simp add: show_nat.simps [of n] show_nat.simps [of "n div 10"])
  next
    case 3
    with n have "\<not> n div 10 < 10" "n div 100 < 10" by simp_all
    with 3 d show ?thesis
      by (simp add: show_nat.simps [of n] show_nat.simps [of "n div 10"] show_nat.simps [of "n div 100"])
  qed
qed

lemma digit_char_zero: "d < 10 \<Longrightarrow> digit_char d = CHR ''0'' \<longleftrightarrow> d = 0"
proof -
  assume "d < 10"
  then have "to_digit 10 (digit_char d) = Some d" by simp
  moreover have "to_digit 10 CHR ''0'' = Some 0" by (simp add: to_digit_def)
  moreover have "digit_char 0 = CHR ''0''" by (simp add: digit_char_def char_of_def bit_nat_def)
  ultimately show ?thesis by auto
qed

definition no_digit :: "string \<Rightarrow> bool" where
  "no_digit r \<longleftrightarrow> (case r of [] \<Rightarrow> True | c # _ \<Rightarrow> to_digit 10 c = None)"

lemma read_digits_stop:
  "no_digit r \<Longrightarrow> read_digits 10 m k acc cnt r = Some (acc, cnt, r)"
  by (cases r) (auto simp: no_digit_def)

lemma read_number_octet:
  assumes "no_digit r"
  shows "read_number 10 255 3 False (show_nat (unat (a :: u8)) @ r) = Some (unat a, r)"
proof -
  let ?n = "unat a"
  have n: "?n < 256" using unsigned_less [of a, where ?'a = nat] by simp
  consider "?n < 10" | "10 \<le> ?n" "?n < 100" | "100 \<le> ?n" by linarith
  then show ?thesis
  proof cases
    case 1
    then show ?thesis
      using assms n by (simp add: read_number_def show_nat_octet read_digits_stop)
  next
    case 2
    then have "?n div 10 < 10" "?n div 10 \<noteq> 0" "?n div 10 \<le> 255" "?n div 10 * 10 + ?n mod 10 = ?n" by simp_all
    with 2 assms n show ?thesis
      by (simp add: read_number_def show_nat_octet read_digits_stop digit_char_zero) linarith
  next
    case 3
    have "?n div 100 < 10" "?n div 100 \<noteq> 0" "?n div 10 mod 10 < 10" "?n div 10 \<le> 255"
      using 3 n by simp_all
    moreover have "?n div 100 * 10 + ?n div 10 mod 10 = ?n div 10"
      using div_mult_mod_eq [of "?n div 10" 10] by (simp add: div_mult2_eq [symmetric])
    moreover have "?n div 10 * 10 + ?n mod 10 = ?n" by simp
    moreover have "?n div 100 \<le> 255" using n by simp
    ultimately show ?thesis
      using 3 assms n by (simp add: read_number_def show_nat_octet read_digits_stop digit_char_zero
          not_less del: div_le_mono)
  qed
qed

lemma read_octets_first:
  "no_digit r \<Longrightarrow> read_octets (Suc k) 0 (show_nat (unat (a :: u8)) @ r) =
     map_option (\<lambda>(ns, r'). (a # ns, r')) (read_octets k 1 r)"
  by (simp add: read_separator_def read_number_octet split: option.splits)

lemma read_octets_next:
  "no_digit r \<Longrightarrow> read_octets (Suc k) (Suc i) (CHR ''.'' # show_nat (unat (a :: u8)) @ r) =
     map_option (\<lambda>(ns, r'). (a # ns, r')) (read_octets k (Suc (Suc i)) r)"
  by (simp add: read_separator_def read_given_char_def read_number_octet split: option.splits)

lemma no_digit_dot: "no_digit (CHR ''.'' # t)"
  by (simp add: no_digit_def to_digit_def)

lemma read_ipv4_show:
  assumes "no_digit r"
  shows "read_ipv4_addr (show_ipv4 a b c d @ r) = Some ([a, b, c, d], r)"
proof -
  have four: "(4 :: nat) = Suc (Suc (Suc (Suc 0)))" by simp
  show ?thesis
    unfolding read_ipv4_addr_def show_ipv4_def four
    by (simp add: read_octets_first read_octets_next no_digit_dot assms
        del: read_octets.simps(2))
qed

lemma parse_show_ipv4: "parse_ip_addr (show_ipv4 a b c d) = Some (V4 [a, b, c, d])"
  using read_ipv4_show [of "[]" a b c d] by (simp add: parse_ip_addr_def no_digit_def)

text \<open>
  An IPv4 address, as the standard library prints it, is local exactly when it lies in
  10.0.0.0/8, 172.16.0.0/12, 192.168.0.0/16 or 127.0.0.0/8.
\<close>

theorem is_local_ip_ipv4:
  "is_local_ip (show_ipv4 a b c d) \<longleftrightarrow>
     a = 10 \<or> a = 172 \<and> 16 \<le> b \<and> b \<le> 31 \<or> a = 192 \<and> b = 168 \<or> a = 127"
  by (simp add: is_local_ip_def parse_show_ipv4)

text \<open>
  A printed socket address (IPv4 address and port, which is what the master stores for a
  node and sends in \<open>ConnectionInfo\<close>) does not parse as an IP address, so \<open>is_local_ip\<close> is
  false for it, for loopback and private addresses too.
\<close>

theorem sock_addr_never_local: "\<not> is_local_ip (show_sock_addr (show_ipv4 a b c d) port)"
proof -
  have "no_digit ('':'' @ show_nat (unat port))" by (simp add: no_digit_def to_digit_def)
  from read_ipv4_show [OF this] show ?thesis
    by (simp add: is_local_ip_def parse_ip_addr_def show_sock_addr_def)
qed

end
