(* ===== verification/FileSys.thy ===== *)
theory FileSys
  imports RustStr "HOL-Library.Sublist"
begin

text \<open>
  The part of \<open>std::fs\<close> and \<open>std::path\<close> the node uses, over a file system with files, directories
  and symbolic links. A file system is a list of entries, keyed by the real path (the names from the
  root on); a path in the program is a list of pieces in which \<open>..\<close> may occur anywhere and \<open>.\<close> at the
  end only, where it stands for a trailing slash. Failures that depend on permissions or on the device
  are not in the file system; the write of a file takes its fate as an argument.
\<close>

section \<open>Entries and paths\<close>

type_synonym path = "string list"

datatype inode = File "u8 list" | Dir | Link string

type_synonym fsys = "(path \<times> inode) list"

definition look :: "fsys \<Rightarrow> path \<Rightarrow> inode option" where
  "look fs p = (if p = [] then Some Dir else map_of fs p)"

definition put_inode :: "path \<Rightarrow> inode \<Rightarrow> fsys \<Rightarrow> fsys" where
  "put_inode p e fs = AList.update p e fs"

lemma look_root [simp]: "look fs [] = Some Dir"
  by (simp add: look_def)

lemma look_put [simp]: "p \<noteq> [] \<Longrightarrow> look (put_inode p e fs) = (look fs)(p \<mapsto> e)"
  by (auto simp: look_def put_inode_def update_conv')

definition ENOENT :: err where "ENOENT = Io ''No such file or directory (os error 2)''"
definition ENOTDIR :: err where "ENOTDIR = Io ''Not a directory (os error 20)''"
definition EISDIR :: err where "EISDIR = Io ''Is a directory (os error 21)''"
definition EEXIST :: err where "EEXIST = Io ''File exists (os error 17)''"
definition ELOOP :: err where "ELOOP = Io ''Too many levels of symbolic links (os error 40)''"

lemmas errno_defs = ENOENT_def ENOTDIR_def EISDIR_def EEXIST_def ELOOP_def

definition is_abs :: "string \<Rightarrow> bool" where
  "is_abs s \<longleftrightarrow> starts_with ''/'' s"

definition names :: "string \<Rightarrow> string list" where
  "names s = filter (\<lambda>c. c \<noteq> '''' \<and> c \<noteq> ''.'') (split_on CHR ''/'' s)"

text \<open>A trailing slash, or a last piece \<open>.\<close>, asks for a directory.\<close>

definition pieces :: "string \<Rightarrow> string list" where
  "pieces s = names s @ (if last (split_on CHR ''/'' s) \<in> {'''', ''.''} then [''.''] else [])"

text \<open>\<open>PathBuf::join\<close>: an absolute path replaces the base.\<close>

definition path_join :: "path \<Rightarrow> string \<Rightarrow> string list" where
  "path_join base s = (if is_abs s then pieces s else base @ pieces s)"

text \<open>\<open>Path::parent\<close> and \<open>Path::file_name\<close> do not see a trailing slash.\<close>

definition plain :: "string list \<Rightarrow> string list" where
  "plain ps = filter (\<lambda>c. c \<noteq> ''.'') ps"

definition path_parent :: "string list \<Rightarrow> string list option" where
  "path_parent ps = (if plain ps = [] then None else Some (butlast (plain ps)))"

definition file_name :: "string list \<Rightarrow> string option" where
  "file_name ps = (if plain ps = [] \<or> last (plain ps) = ''..'' then None else Some (last (plain ps)))"

section \<open>Resolution\<close>

text \<open>
  Following a path from the directory \<open>cur\<close>, through at most \<open>n\<close> symbolic links (the kernel allows
  40). With \<open>cr\<close> the last name may be missing: the place where a file would be created.
\<close>

function resolve :: "fsys \<Rightarrow> bool \<Rightarrow> nat \<Rightarrow> path \<Rightarrow> string list \<Rightarrow> path result" where
  "resolve fs cr n cur [] = Inr cur"
| "resolve fs cr n cur (c # cs) =
     (if c = ''.'' then resolve fs cr n cur cs
      else if c = ''..'' then resolve fs cr n (butlast cur) cs
      else case look fs (cur @ [c]) of
             None \<Rightarrow> if cr \<and> cs = [] then Inr (cur @ [c]) else Inl ENOENT
           | Some Dir \<Rightarrow> resolve fs cr n (cur @ [c]) cs
           | Some (File _) \<Rightarrow> if cs = [] then Inr (cur @ [c]) else Inl ENOTDIR
           | Some (Link t) \<Rightarrow>
               (case n of
                  0 \<Rightarrow> Inl ELOOP
                | Suc k \<Rightarrow> resolve fs cr k (if is_abs t then [] else cur) (pieces t @ cs)))"
  by pat_completeness auto
termination
  by (relation "measures [\<lambda>(fs, cr, n, cur, cs). n, \<lambda>(fs, cr, n, cur, cs). length cs]") auto

definition max_links :: nat where
  "max_links = 40"

definition canonicalize :: "fsys \<Rightarrow> string list \<Rightarrow> path result" where
  "canonicalize fs ps = resolve fs False max_links [] ps"

definition path_exists :: "fsys \<Rightarrow> string list \<Rightarrow> bool" where
  "path_exists fs ps = (case canonicalize fs ps of Inl _ \<Rightarrow> False | Inr _ \<Rightarrow> True)"

definition is_dir :: "fsys \<Rightarrow> string list \<Rightarrow> bool" where
  "is_dir fs ps = (case canonicalize fs ps of Inl _ \<Rightarrow> False | Inr p \<Rightarrow> look fs p = Some Dir)"

section \<open>Operations\<close>

definition mkdir :: "fsys \<Rightarrow> string list \<Rightarrow> unit result \<times> fsys" where
  "mkdir fs ps =
     (if ps = [] then (Inl EEXIST, fs)
      else case canonicalize fs (butlast ps) of
             Inl e \<Rightarrow> (Inl e, fs)
           | Inr p \<Rightarrow>
               if look fs p \<noteq> Some Dir then (Inl ENOTDIR, fs)
               else if last ps \<in> {''.'', ''..''} then (Inl EEXIST, fs)
               else case look fs (p @ [last ps]) of
                      Some _ \<Rightarrow> (Inl EEXIST, fs)
                    | None \<Rightarrow> (Inr (), put_inode (p @ [last ps]) Dir fs))"

text \<open>\<open>create_dir_all\<close>: try, then create the parents, then try again. The path comes reversed.\<close>

fun mkdirs :: "fsys \<Rightarrow> string list \<Rightarrow> unit result \<times> fsys" where
  "mkdirs fs [] = (Inr (), fs)"
| "mkdirs fs (c # rp) =
     (let ps = rev (c # rp)
      in case mkdir fs ps of
           (Inr _, fs1) \<Rightarrow> (Inr (), fs1)
         | (Inl e, _) \<Rightarrow>
             if e \<noteq> ENOENT then (if is_dir fs ps then (Inr (), fs) else (Inl e, fs))
             else case mkdirs fs rp of
                    (Inl e1, fs1) \<Rightarrow> (Inl e1, fs1)
                  | (Inr _, fs1) \<Rightarrow>
                      (case mkdir fs1 ps of
                         (Inr _, fs2) \<Rightarrow> (Inr (), fs2)
                       | (Inl e2, _) \<Rightarrow> if is_dir fs1 ps then (Inr (), fs1) else (Inl e2, fs1)))"

definition create_dir_all :: "fsys \<Rightarrow> string list \<Rightarrow> unit result \<times> fsys" where
  "create_dir_all fs ps = mkdirs fs (rev (plain ps))"

definition read_file :: "fsys \<Rightarrow> string list \<Rightarrow> u8 list result" where
  "read_file fs ps =
     (case canonicalize fs ps of
        Inl e \<Rightarrow> Inl e
      | Inr p \<Rightarrow> (case look fs p of Some (File d) \<Rightarrow> Inr d | _ \<Rightarrow> Inl EISDIR))"

text \<open>\<open>fs::write\<close> follows a link and creates the file; a failing write may leave a part of the data.\<close>

definition write_file :: "nat option \<Rightarrow> fsys \<Rightarrow> string list \<Rightarrow> u8 list \<Rightarrow> unit result \<times> fsys" where
  "write_file broken fs ps data =
     (case resolve fs True max_links [] ps of
        Inl e \<Rightarrow> (Inl e, fs)
      | Inr p \<Rightarrow>
          if look fs p = Some Dir then (Inl EISDIR, fs)
          else (case broken of
                  None \<Rightarrow> (Inr (), put_inode p (File data) fs)
                | Some n \<Rightarrow> (Inl (Io ''No space left on device (os error 28)''), put_inode p (File (take n data)) fs)))"

section \<open>Real paths\<close>

text \<open>A real path leads through directories only and has no dots in it.\<close>

definition real :: "fsys \<Rightarrow> path \<Rightarrow> bool" where
  "real fs p \<longleftrightarrow> (\<forall>k < length p. look fs (take k p) = Some Dir) \<and> ''.'' \<notin> set p \<and> ''..'' \<notin> set p"

lemma real_Nil [simp]: "real fs []"
  by (simp add: real_def)

lemma real_snoc: "real fs p \<Longrightarrow> look fs p = Some Dir \<Longrightarrow> c \<noteq> ''.'' \<Longrightarrow> c \<noteq> ''..'' \<Longrightarrow> real fs (p @ [c])"
  by (auto simp: real_def less_Suc_eq)

lemma real_butlast:
  assumes "real fs p" and "look fs p = Some Dir"
  shows "real fs (butlast p)" and "look fs (butlast p) = Some Dir"
proof -
  show "real fs (butlast p)"
    using assms(1) by (auto simp: real_def butlast_conv_take min_def dest: in_set_takeD)
  show "look fs (butlast p) = Some Dir"
    using assms by (cases p rule: rev_cases) (auto simp: real_def)
qed

lemma resolve_real:
  assumes "resolve fs cr n cur cs = Inr p" and "real fs cur" and "look fs cur = Some Dir"
  shows "real fs p \<and> (case look fs p of None \<Rightarrow> cr | Some (Link _) \<Rightarrow> False | _ \<Rightarrow> True)"
  using assms
proof (induction fs cr n cur cs rule: resolve.induct)
  case (2 fs cr n cur c cs)
  consider "c = ''.''" | "c = ''..''" | "c \<noteq> ''.''" "c \<noteq> ''..''" by blast
  then show ?case
  proof cases
    case 1
    with 2 show ?thesis by simp
  next
    case 2
    with "2.IH"(2) "2.prems" real_butlast [OF "2.prems"(2,3)] show ?thesis by simp
  next
    case 3
    note sn = real_snoc [OF "2.prems"(2,3) 3]
    show ?thesis
    proof (cases "look fs (cur @ [c])")
      case None
      with "2.prems" 3 sn show ?thesis by (auto split: if_splits)
    next
      case (Some e)
      with "2.prems" "2.IH"(3,4) 3 sn show ?thesis
        by (cases e) (auto split: if_splits nat.splits)
    qed
  qed
qed simp

lemma resolve_along:
  assumes "real fs (cur @ cs)" and "case look fs (cur @ cs) of None \<Rightarrow> cr \<and> cs \<noteq> [] | Some (Link _) \<Rightarrow> False | _ \<Rightarrow> True"
  shows "resolve fs cr n cur cs = Inr (cur @ cs)"
  using assms
proof (induction cs arbitrary: cur)
  case (Cons c cs)
  from Cons.prems(1) have c: "c \<noteq> ''.''" "c \<noteq> ''..''" by (auto simp: real_def)
  show ?case
  proof (cases "cs = []")
    case True
    with Cons.prems(2) c show ?thesis by (auto split: option.splits inode.splits)
  next
    case False
    have "\<forall>k < length (cur @ c # cs). look fs (take k (cur @ c # cs)) = Some Dir"
      using Cons.prems(1) by (simp add: real_def)
    from this [rule_format, of "Suc (length cur)"] False
    have "look fs (take (Suc (length cur)) (cur @ c # cs)) = Some Dir" by simp
    then have "look fs (cur @ [c]) = Some Dir" by simp
    with Cons.IH [of "cur @ [c]"] Cons.prems False c show ?thesis by (auto split: option.splits)
  qed
qed simp

lemma resolve_real_path:
  "real fs p \<Longrightarrow> p \<noteq> [] \<Longrightarrow> (case look fs p of None \<Rightarrow> cr | Some (Link _) \<Rightarrow> False | _ \<Rightarrow> True) \<Longrightarrow>
     resolve fs cr n [] p = Inr p"
  using resolve_along [of fs "[]" p cr n] by (auto split: option.splits)

text \<open>One more piece after a path that led to a directory.\<close>

lemma resolve_append:
  "resolve fs False n cur ps = Inr p \<Longrightarrow> look fs p = Some Dir \<Longrightarrow>
     \<exists>k. resolve fs cr n cur (ps @ qs) = resolve fs cr k p qs"
proof (induction fs "False" n cur ps rule: resolve.induct)
  case (2 fs n cur c cs)
  consider "c = ''.''" | "c = ''..''" | "c \<noteq> ''.''" "c \<noteq> ''..''" by blast
  then show ?case
  proof cases
    case 3
    then obtain e where e: "look fs (cur @ [c]) = Some e" using "2.prems"(1) by (auto split: option.splits)
    show ?thesis
    proof (cases e)
      case (File d)
      with 3 e "2.prems" show ?thesis by (auto split: if_splits)
    next
      case Dir
      with 3 e "2" show ?thesis by simp
    next
      case (Link t)
      with 3 e "2" show ?thesis by (cases n) simp_all
    qed
  qed (use 2 in simp_all)
qed auto

lemma resolve_snoc:
  assumes "resolve fs False n cur ps = Inr p" and "look fs p = Some Dir"
  shows "c \<noteq> ''.'' \<Longrightarrow> c \<noteq> ''..'' \<Longrightarrow> look fs (p @ [c]) = Some (File d) \<or> look fs (p @ [c]) = Some Dir \<Longrightarrow>
      resolve fs False n cur (ps @ [c]) = Inr (p @ [c])"
    and "resolve fs False n cur (ps @ [''..'']) = Inr (butlast p)"
    and "resolve fs False n cur (ps @ [''.'']) = Inr p"
  using resolve_append [OF assms, of False "[c]"] resolve_append [OF assms, of False "[''..'']"]
    resolve_append [OF assms, of False "[''.'']"] by auto

section \<open>Changes that do not disturb resolution\<close>

fun same_kind :: "inode \<Rightarrow> inode \<Rightarrow> bool" where
  "same_kind (File _) e \<longleftrightarrow> (\<exists>d. e = File d)"
| "same_kind Dir e \<longleftrightarrow> e = Dir"
| "same_kind (Link t) e \<longleftrightarrow> e = Link t"

definition keeps :: "fsys \<Rightarrow> fsys \<Rightarrow> bool" where
  "keeps fs fs' \<longleftrightarrow> (\<forall>p e. look fs p = Some e \<longrightarrow> (\<exists>e'. look fs' p = Some e' \<and> same_kind e e'))"

lemma same_kind_refl [simp]: "same_kind e e"
  by (cases e) auto

lemma keeps_refl [simp]: "keeps fs fs"
  by (auto simp: keeps_def)

lemma same_kind_trans: "same_kind a b \<Longrightarrow> same_kind b c \<Longrightarrow> same_kind a c"
  by (cases a) auto

lemma keeps_trans: "keeps a b \<Longrightarrow> keeps b c \<Longrightarrow> keeps a c"
  unfolding keeps_def by (metis same_kind_trans)

lemma keepsD:
  assumes "keeps fs fs'"
  shows "look fs p = Some Dir \<Longrightarrow> look fs' p = Some Dir"
    and "look fs p = Some (Link t) \<Longrightarrow> look fs' p = Some (Link t)"
    and "look fs p = Some (File d) \<Longrightarrow> \<exists>d'. look fs' p = Some (File d')"
  using assms unfolding keeps_def by force+

lemma resolve_keeps:
  "resolve fs False n cur ps = Inr p \<Longrightarrow> keeps fs fs' \<Longrightarrow> resolve fs' False n cur ps = Inr p"
proof (induction fs "False" n cur ps rule: resolve.induct)
  case (2 fs n cur c cs)
  consider "c = ''.''" | "c = ''..''" | "c \<noteq> ''.''" "c \<noteq> ''..''" by blast
  then show ?case
  proof cases
    case 3
    then obtain e where e: "look fs (cur @ [c]) = Some e" using "2.prems" by (auto split: option.splits)
    show ?thesis
    proof (cases e)
      case (File d)
      with e keepsD(3) [OF "2.prems"(2)] obtain d' where "look fs' (cur @ [c]) = Some (File d')" by blast
      with File 3 e "2.prems" show ?thesis by (auto split: if_splits)
    next
      case Dir
      with 3 e "2" keepsD(1) [OF "2.prems"(2)] show ?thesis by auto
    next
      case (Link t)
      with 3 e "2" keepsD(2) [OF "2.prems"(2)] show ?thesis by (cases n) simp_all
    qed
  qed (use 2 in auto)
qed simp

section \<open>What the operations change\<close>

text \<open>New directories, and nothing else.\<close>

definition only_dirs :: "fsys \<Rightarrow> fsys \<Rightarrow> bool" where
  "only_dirs fs fs' \<longleftrightarrow> (\<forall>p. look fs' p = look fs p \<or> look fs p = None \<and> look fs' p = Some Dir)"

lemma only_dirs_refl [simp]: "only_dirs fs fs"
  by (simp add: only_dirs_def)

lemma only_dirs_trans: "only_dirs a b \<Longrightarrow> only_dirs b c \<Longrightarrow> only_dirs a c"
  unfolding only_dirs_def by metis

lemma only_dirs_keeps: "only_dirs fs fs' \<Longrightarrow> keeps fs fs'"
  unfolding only_dirs_def keeps_def by (metis option.distinct(1) same_kind_refl)

lemma only_dirs_put: "look fs p = None \<Longrightarrow> only_dirs fs (put_inode p Dir fs)"
  by (cases "p = []") (auto simp: only_dirs_def)

lemma mkdir_only_dirs: "mkdir fs ps = (r, fs') \<Longrightarrow> only_dirs fs fs'"
  by (auto simp: mkdir_def split: if_splits sum.splits option.splits intro!: only_dirs_put)

lemma mkdir_err: "mkdir fs ps = (Inl e, fs') \<Longrightarrow> fs' = fs"
  by (auto simp: mkdir_def split: if_splits sum.splits option.splits)

lemma mkdir_ok:
  assumes "mkdir fs ps = (Inr u, fs')"
  shows "is_dir fs' ps"
proof -
  from assms obtain p where ps: "ps \<noteq> []" and p: "canonicalize fs (butlast ps) = Inr p" "look fs p = Some Dir"
    and l: "last ps \<noteq> ''.''" "last ps \<noteq> ''..''" and fs': "fs' = put_inode (p @ [last ps]) Dir fs"
    by (auto simp: mkdir_def split: if_splits sum.splits option.splits)
  have k: "keeps fs fs'" by (rule only_dirs_keeps) (rule mkdir_only_dirs [OF assms])
  have "resolve fs' False max_links [] (butlast ps) = Inr p"
    using resolve_keeps [OF _ k] p(1) by (simp add: canonicalize_def)
  from resolve_snoc(1) [OF this keepsD(1) [OF k p(2)] l] fs'
  have "resolve fs' False max_links [] (butlast ps @ [last ps]) = Inr (p @ [last ps])" by simp
  with ps fs' show ?thesis by (simp add: is_dir_def canonicalize_def)
qed

lemma mkdirs_only_dirs: "mkdirs fs rp = (r, fs') \<Longrightarrow> only_dirs fs fs'"
proof (induction rp arbitrary: r fs')
  case (Cons c rp)
  show ?case using Cons.prems
    by (auto simp: Let_def split: prod.splits sum.splits if_splits
        dest: mkdir_only_dirs Cons.IH intro: only_dirs_trans)
qed simp

lemma mkdirs_ok: "mkdirs fs rp = (Inr u, fs') \<Longrightarrow> is_dir fs' (rev rp)"
proof (induction fs rp rule: mkdirs.induct)
  case (1 fs)
  then show ?case by (simp add: is_dir_def canonicalize_def)
next
  case (2 fs c rp)
  then show ?case
    by (auto simp: Let_def split: prod.splits sum.splits if_splits dest: mkdir_ok)
qed

lemma create_dir_all_only_dirs: "create_dir_all fs ps = (r, fs') \<Longrightarrow> only_dirs fs fs'"
  by (auto simp: create_dir_all_def dest: mkdirs_only_dirs)

lemma create_dir_all_ok: "create_dir_all fs ps = (Inr u, fs') \<Longrightarrow> is_dir fs' (plain ps)"
  using mkdirs_ok [of fs "rev (plain ps)"] by (simp add: create_dir_all_def)

lemma is_dir_resolve: "is_dir fs ps \<longleftrightarrow> (\<exists>p. resolve fs False max_links [] ps = Inr p \<and> look fs p = Some Dir)"
  by (auto simp: is_dir_def canonicalize_def split: sum.splits)

text \<open>A write at a real path changes the entry there, unless the entry is a link.\<close>

lemma write_file_real:
  assumes "real fs p" and "p \<noteq> []" and "\<And>t. look fs p \<noteq> Some (Link t)"
    and "write_file broken fs p data = (r, fs')"
  shows "fs' = fs \<or> (look fs p \<noteq> Some Dir \<and> (\<exists>d. fs' = put_inode p (File d) fs))"
    and "r = Inr u \<Longrightarrow> look fs p \<noteq> Some Dir \<and> fs' = put_inode p (File data) fs"
proof -
  have "resolve fs True max_links [] p = Inr p"
    by (rule resolve_real_path [OF assms(1,2)]) (use assms(3) in \<open>auto split: option.splits inode.splits\<close>)
  with assms(4) show "fs' = fs \<or> (look fs p \<noteq> Some Dir \<and> (\<exists>d. fs' = put_inode p (File d) fs))"
    and "r = Inr u \<Longrightarrow> look fs p \<noteq> Some Dir \<and> fs' = put_inode p (File data) fs"
    by (auto simp: write_file_def split: if_splits option.splits)
qed

lemma keeps_put_file:
  "p \<noteq> [] \<Longrightarrow> look fs p \<noteq> Some Dir \<Longrightarrow> (\<And>t. look fs p \<noteq> Some (Link t)) \<Longrightarrow> keeps fs (put_inode p (File d) fs)"
  by (auto simp: keeps_def) (metis inode.exhaust same_kind.simps(1))

end
