(* ===== verification/NodeDisk.thy ===== *)
theory NodeDisk
  imports FileSys Messages
begin

text \<open>
  The tasks \<open>DiskWrite\<close> and \<open>DiskRead\<close> of \<open>execute_node_task\<close> (CPCluster_node/src/lib.rs): how a
  path inside the storage directory \<open>sd\<close> is built, checked and used. \<open>cwd\<close> is the working directory
  of the process, \<open>broken\<close> the fate of the write of the file.
\<close>

text \<open>A task ends with a result, or the code panics (an \<open>unwrap\<close>, a failed assertion).\<close>

datatype task_outcome = Done TaskResult | Panicked

fun show_err :: "err \<Rightarrow> string" where
  "show_err (Io s) = s"
| "show_err (Other s) = s"
| "show_err Serde = ''serde error''"
| "show_err Utf8 = ''invalid utf-8 sequence''"

definition io_error :: "err \<Rightarrow> task_outcome" where
  "io_error e = Done (Error (show_err e))"

text \<open>An empty path is no path for the system calls, and nothing to do for \<open>create_dir_all\<close>.\<close>

definition ensure_storage :: "path \<Rightarrow> string \<Rightarrow> fsys \<Rightarrow> unit result \<times> fsys" where
  "ensure_storage cwd sd fs =
     (if sd = '''' then (Inr (), fs) else create_dir_all fs (path_join cwd sd))"

definition storage_base :: "path \<Rightarrow> string \<Rightarrow> fsys \<Rightarrow> path result" where
  "storage_base cwd sd fs =
     (if sd = '''' then Inl ENOENT else canonicalize fs (path_join cwd sd))"

text \<open>\<open>None\<close> is one of the two \<open>unwrap\<close>s on a path without parent or without file name.\<close>

definition write_target :: "fsys \<Rightarrow> string list \<Rightarrow> path result option" where
  "write_target fs full =
     (if path_exists fs full then Some (canonicalize fs full)
      else case path_parent full of
             None \<Rightarrow> None
           | Some parent \<Rightarrow>
               (case canonicalize fs parent of
                  Inl e \<Rightarrow> Some (Inl e)
                | Inr p \<Rightarrow>
                    (case file_name full of
                       None \<Rightarrow> None
                     | Some f \<Rightarrow> Some (Inr (p @ [f])))))"

definition ensure_parent :: "string list \<Rightarrow> fsys \<Rightarrow> unit result \<times> fsys" where
  "ensure_parent full fs =
     (case path_parent full of
        Some parent \<Rightarrow> create_dir_all fs parent
      | None \<Rightarrow> (Inr (), fs))"

definition disk_write :: "nat option \<Rightarrow> path \<Rightarrow> string \<Rightarrow> string \<Rightarrow> u8 list \<Rightarrow> fsys \<Rightarrow> task_outcome \<times> fsys" where
  "disk_write broken cwd sd path data fs =
     (case ensure_storage cwd sd fs of
        (Inl e, fs1) \<Rightarrow> (io_error e, fs1)
      | (Inr _, fs1) \<Rightarrow>
          (case storage_base cwd sd fs1 of
             Inl e \<Rightarrow> (io_error e, fs1)
           | Inr base \<Rightarrow>
               (let full = path_join base path
                in case ensure_parent full fs1 of
                     (Inl e, fs2) \<Rightarrow> (io_error e, fs2)
                   | (Inr _, fs2) \<Rightarrow>
                       (case write_target fs2 full of
                          None \<Rightarrow> (Panicked, fs2)
                        | Some (Inl e) \<Rightarrow> (io_error e, fs2)
                        | Some (Inr canonical) \<Rightarrow>
                            if \<not> prefix base canonical then (Done (Error ''Invalid path''), fs2)
                            else case write_file broken fs2 canonical data of
                                   (Inr _, fs3) \<Rightarrow> (Done Written, fs3)
                                 | (Inl e, fs3) \<Rightarrow> (io_error e, fs3)))))"

definition disk_read :: "path \<Rightarrow> string \<Rightarrow> string \<Rightarrow> fsys \<Rightarrow> task_outcome" where
  "disk_read cwd sd path fs =
     (case storage_base cwd sd fs of
        Inl e \<Rightarrow> io_error e
      | Inr base \<Rightarrow>
          (let full = path_join base path
           in case canonicalize fs full of
                Inl e \<Rightarrow> io_error e
              | Inr canonical \<Rightarrow>
                  if \<not> prefix base canonical then Done (Error ''Invalid path'')
                  else case read_file fs canonical of
                         Inr d \<Rightarrow> Done (Bytes d)
                       | Inl e \<Rightarrow> io_error e))"

section \<open>Where a write goes\<close>

lemma io_error_simps [simp]: "io_error e \<noteq> Panicked" "io_error e \<noteq> Done Written" "io_error e \<noteq> Done (Bytes d)"
  by (simp_all add: io_error_def)

lemma names_plain: "''.'' \<notin> set (names s)"
  by (simp add: names_def)

lemma plain_idem: "plain (butlast (plain ps)) = butlast (plain ps)"
proof -
  have "c \<noteq> ''.''" if "c \<in> set (butlast (plain ps))" for c
    using in_set_butlastD [OF that] by (simp add: plain_def)
  then show ?thesis unfolding plain_def [of "butlast _"] by (intro filter_True) blast
qed

lemma path_join_plain:
  assumes "''.'' \<notin> set base"
  shows "path_join base s = plain (path_join base s) \<or> path_join base s = plain (path_join base s) @ [''.'']"
proof -
  have [simp]: "plain base = base" unfolding plain_def using assms by (intro filter_True) auto
  have [simp]: "plain (names s) = names s" unfolding plain_def using names_plain [of s] by (intro filter_True) auto
  have app: "plain (xs @ ys) = plain xs @ plain ys" for xs ys by (simp add: plain_def)
  have dot: "plain [''.''] = []" "plain [] = []" by (simp_all add: plain_def)
  show ?thesis by (auto simp: path_join_def pieces_def app dot)
qed

lemma canonicalize_real:
  assumes "canonicalize fs ps = Inr p"
  shows "real fs p" and "\<exists>e. look fs p = Some e \<and> (\<forall>t. e \<noteq> Link t)"
  using resolve_real [OF assms [unfolded canonicalize_def]] by (auto split: option.splits inode.splits)

lemma canonicalize_keeps: "canonicalize fs ps = Inr p \<Longrightarrow> keeps fs fs' \<Longrightarrow> canonicalize fs' ps = Inr p"
  by (auto simp: canonicalize_def intro: resolve_keeps)

lemma storage_base_keeps: "storage_base cwd sd fs = Inr b \<Longrightarrow> keeps fs fs' \<Longrightarrow> storage_base cwd sd fs' = Inr b"
  by (auto simp: storage_base_def intro: canonicalize_keeps split: if_splits)

lemma storage_base_real: "storage_base cwd sd fs = Inr b \<Longrightarrow> real fs b"
  by (auto simp: storage_base_def intro: canonicalize_real split: if_splits)

text \<open>After \<open>ensure_parent\<close> the parent leads to a directory, so the \<open>unwrap\<close>s cannot fail.\<close>

lemma ensure_parent_dir:
  assumes "ensure_parent full fs = (Inr u, fs2)" and "path_parent full = Some parent"
  shows "\<exists>p. canonicalize fs2 parent = Inr p \<and> look fs2 p = Some Dir \<and> real fs2 p"
proof -
  from assms have "is_dir fs2 (plain parent)" by (auto simp: ensure_parent_def dest: create_dir_all_ok)
  moreover have "plain parent = parent" using assms(2) by (auto simp: path_parent_def plain_idem split: if_splits)
  ultimately have "is_dir fs2 parent" by simp
  then show ?thesis by (auto simp: is_dir_def split: sum.splits dest: canonicalize_real(1))
qed

lemma plain_split:
  assumes "path_parent full = Some parent"
  shows "plain full = parent @ [last (plain full)]"
  using assms by (auto simp: path_parent_def split: if_splits)

lemma write_target_total:
  assumes "ensure_parent full fs = (Inr u, fs2)" and full: "full = plain full \<or> full = plain full @ [''.'']"
  shows "write_target fs2 full \<noteq> None"
proof (cases "path_parent full")
  case None
  then have "plain full = []" by (simp add: path_parent_def split: if_splits)
  with full have "full = [] \<or> full = [''.'']" by auto
  then have "path_exists fs2 full" by (auto simp: path_exists_def canonicalize_def)
  then show ?thesis by (simp add: write_target_def)
next
  case (Some parent)
  from ensure_parent_dir [OF assms(1) Some] obtain p where
    p: "canonicalize fs2 parent = Inr p" "look fs2 p = Some Dir" "real fs2 p" by blast
  show ?thesis
  proof (cases "file_name full")
    case None
    then have "last (plain full) = ''..''" using Some by (auto simp: file_name_def path_parent_def split: if_splits)
    with plain_split [OF Some] have pf: "plain full = parent @ [''..'']" by simp
    note r = resolve_snoc(2) [OF p(1) [unfolded canonicalize_def] p(2)]
    from resolve_snoc(3) [OF r real_butlast(2) [OF p(3,2)]] r full pf
    have "path_exists fs2 full" by (auto simp: path_exists_def canonicalize_def)
    then show ?thesis by (simp add: write_target_def)
  qed (use Some p in \<open>auto simp: write_target_def\<close>)
qed

text \<open>The target of a write is a real path; it can be a link only as the last name of the path.\<close>

lemma write_target_real:
  assumes "ensure_parent full fs = (Inr u, fs2)" and "write_target fs2 full = Some (Inr p)"
  shows "real fs2 p \<and> (\<forall>t. look fs2 p = Some (Link t) \<longrightarrow> file_name full = Some (last p) \<and> p \<noteq> [])"
proof (cases "path_exists fs2 full")
  case True
  with assms(2) have "canonicalize fs2 full = Inr p" by (simp add: write_target_def)
  from canonicalize_real [OF this] show ?thesis by auto
next
  case False
  with assms(2) obtain parent q f where pr: "path_parent full = Some parent" and q: "canonicalize fs2 parent = Inr q"
    and f: "file_name full = Some f" and p: "p = q @ [f]"
    by (auto simp: write_target_def split: option.splits sum.splits)
  from ensure_parent_dir [OF assms(1) pr] q have "look fs2 q = Some Dir" "real fs2 q" by auto
  moreover have "f \<noteq> ''.''" "f \<noteq> ''..''"
    using f pr last_in_set [of "plain full"] by (auto simp: file_name_def plain_def split: if_splits)
  ultimately show ?thesis using p f real_snoc by auto
qed

section \<open>What a write can change\<close>

text \<open>The course of a write: directories first, then at most one file at the checked target.\<close>

lemma disk_write_course:
  assumes "disk_write broken cwd sd path data fs = (r, fs')"
  obtains (nothing) "only_dirs fs fs'" "r \<noteq> Done Written" "r \<noteq> Panicked"
  | (wrote) base fs1 fs2 canonical w where "only_dirs fs fs2" "storage_base cwd sd fs2 = Inr base"
      "ensure_parent (path_join base path) fs1 = (Inr (), fs2)" "only_dirs fs fs1" "only_dirs fs1 fs2"
      "write_target fs2 (path_join base path) = Some (Inr canonical)" "prefix base canonical"
      "write_file broken fs2 canonical data = (w, fs')" "r \<noteq> Panicked" "r = Done Written \<longleftrightarrow> w = Inr ()"
proof -
  obtain r1 fs1 where e1: "ensure_storage cwd sd fs = (r1, fs1)" by (cases "ensure_storage cwd sd fs")
  then have d1: "only_dirs fs fs1"
    by (auto simp: ensure_storage_def dest: create_dir_all_only_dirs split: if_splits)
  show thesis
  proof (cases "\<exists>base. r1 = Inr () \<and> storage_base cwd sd fs1 = Inr base")
    case False
    with assms e1 have "fs' = fs1" "r \<noteq> Done Written" "r \<noteq> Panicked"
      by (auto simp: disk_write_def split: sum.splits)
    with d1 show thesis by (intro that(1)) simp_all
  next
    case True
    then obtain base where b: "r1 = Inr ()" "storage_base cwd sd fs1 = Inr base" by blast
    let ?full = "path_join base path"
    obtain r2 fs2 where e2: "ensure_parent ?full fs1 = (r2, fs2)" by (cases "ensure_parent ?full fs1")
    then have d2: "only_dirs fs1 fs2"
      by (auto simp: ensure_parent_def dest: create_dir_all_only_dirs split: option.splits)
    note d = only_dirs_trans [OF d1 d2]
    have sb: "storage_base cwd sd fs2 = Inr base"
      by (rule storage_base_keeps [OF b(2) only_dirs_keeps [OF d2]])
    have nodot: "''.'' \<notin> set base" using storage_base_real [OF b(2)] by (simp add: real_def)
    show thesis
    proof (cases r2)
      case (Inl e)
      with assms e1 b e2 have "fs' = fs2" "r \<noteq> Done Written" "r \<noteq> Panicked"
        by (auto simp: disk_write_def Let_def)
      with d show thesis by (intro that(1)) simp_all
    next
      case (Inr u)
      with e2 have ok: "ensure_parent ?full fs1 = (Inr (), fs2)" by simp
      from write_target_total [OF ok path_join_plain [OF nodot]] obtain t where
        t: "write_target fs2 ?full = Some t" by blast
      show thesis
      proof (cases "\<exists>p. t = Inr p \<and> prefix base p")
        case False
        with assms e1 b ok t have "fs' = fs2" "r \<noteq> Done Written" "r \<noteq> Panicked"
          by (auto simp: disk_write_def Let_def split: sum.splits)
        with d show thesis by (intro that(1)) simp_all
      next
        case True
        then obtain p w where p: "t = Inr p" "prefix base p" and w: "write_file broken fs2 p data = (w, fs')"
          and r: "r = (case w of Inr _ \<Rightarrow> Done Written | Inl e \<Rightarrow> io_error e)"
          using assms e1 b ok t
          by (auto simp: disk_write_def Let_def split: sum.splits prod.splits)
        from r have "r \<noteq> Panicked" "r = Done Written \<longleftrightarrow> w = Inr ()" by (auto split: sum.splits)
        with that(2) [OF d sb ok d1 d2 _ p(2) w] t p(1) show thesis by simp
      qed
    qed
  qed
qed

text \<open>The entries the last step can change, and those it leaves behind when it succeeds.\<close>

lemma wrote_entries:
  assumes "ensure_parent full fs1 = (Inr (), fs2)" and "write_target fs2 full = Some (Inr canonical)"
    and "write_file broken fs2 canonical data = (w, fs')" and "\<And>t. look fs2 canonical \<noteq> Some (Link t)"
  shows "keeps fs2 fs' \<and> (\<forall>p. p \<noteq> canonical \<longrightarrow> look fs' p = look fs2 p)
    \<and> (w = Inr () \<longrightarrow> look fs' canonical = Some (File data) \<and> look fs2 canonical \<noteq> Some Dir)"
proof (cases "canonical = []")
  case True
  with assms(3) show ?thesis by (auto simp: write_file_def)
next
  case False
  from write_target_real [OF assms(1,2)] have real: "real fs2 canonical" by simp
  have "w = Inr () \<Longrightarrow> look fs2 canonical \<noteq> Some Dir \<and> fs' = put_inode canonical (File data) fs2"
    using write_file_real(2) [OF real False assms(4,3)] by simp
  moreover have "fs' = fs2 \<or> look fs2 canonical \<noteq> Some Dir \<and> (\<exists>d. fs' = put_inode canonical (File d) fs2)"
    by (rule write_file_real(1) [OF real False assms(4,3)])
  ultimately show ?thesis using False keeps_put_file [OF False _ assms(4)] by auto
qed





text \<open>
  What the check does not catch: the parent directories are created before the path is checked,
  so a path that is refused still leaves a directory outside the storage directory; and a path that
  ends in a slash after the name of a link to a file passes the check, and the file the link points
  to, outside the storage directory, is overwritten.
\<close>

theorem disk_write_leaves_storage:
  "disk_write broken [] ''/s'' ''../o/x'' data [([''s''], Dir)]
     = (Done (Error ''Invalid path''), [([''s''], Dir), ([''o''], Dir)])
   \<and> disk_write None [] ''/s'' ''l/'' data [([''s''], Dir), ([''s'', ''l''], Link ''/o''), ([''o''], File [7])]
     = (Done Written, [([''s''], Dir), ([''s'', ''l''], Link ''/o''), ([''o''], File data)])"
proof
  have "ensure_storage [] ''/s'' [([''s''], Dir)] = (Inr (), [([''s''], Dir)])"
    and "storage_base [] ''/s'' [([''s''], Dir)] = Inr [''s'']"
    and "path_join [''s''] ''../o/x'' = [''s'', ''..'', ''o'', ''x'']"
    and "ensure_parent [''s'', ''..'', ''o'', ''x''] [([''s''], Dir)] = (Inr (), [([''s''], Dir), ([''o''], Dir)])"
    and "write_target [([''s''], Dir), ([''o''], Dir)] [''s'', ''..'', ''o'', ''x''] = Some (Inr [''o'', ''x''])"
    by code_simp+
  then show "disk_write broken [] ''/s'' ''../o/x'' data [([''s''], Dir)]
      = (Done (Error ''Invalid path''), [([''s''], Dir), ([''o''], Dir)])"
    by (simp add: disk_write_def)
  let ?fs = "[([''s''], Dir), ([''s'', ''l''], Link ''/o''), ([''o''], File [7])]"
  have "ensure_storage [] ''/s'' ?fs = (Inr (), ?fs)" and "storage_base [] ''/s'' ?fs = Inr [''s'']"
    and "path_join [''s''] ''l/'' = [''s'', ''l'', ''.'']"
    and "ensure_parent [''s'', ''l'', ''.''] ?fs = (Inr (), ?fs)"
    and "write_target ?fs [''s'', ''l'', ''.''] = Some (Inr [''s'', ''l''])"
    and "resolve ?fs True max_links [] [''s'', ''l''] = Inr [''o'']" and "look ?fs [''o''] = Some (File [7])"
    by code_simp+
  then show "disk_write None [] ''/s'' ''l/'' data ?fs
      = (Done Written, [([''s''], Dir), ([''s'', ''l''], Link ''/o''), ([''o''], File data)])"
    by (simp add: disk_write_def write_file_def put_inode_def)
qed

text \<open>A \<open>DiskRead\<close> that returns bytes returns the content of a file in the storage directory.\<close>

theorem disk_read_confined:
  assumes "disk_read cwd sd path fs = Done (Bytes d)"
  shows "\<exists>base p. storage_base cwd sd fs = Inr base \<and> prefix base p \<and> real fs p \<and> look fs p = Some (File d)"
proof -
  from assms obtain base p where b: "storage_base cwd sd fs = Inr base" and p: "canonicalize fs (path_join base path) = Inr p"
    and pre: "prefix base p" and rd: "read_file fs p = Inr d"
    by (auto simp: disk_read_def Let_def split: sum.splits if_splits)
  have "look fs p = Some (File d)"
  proof (cases "p = []")
    case True
    with rd show ?thesis by (simp add: read_file_def canonicalize_def)
  next
    case False
    from canonicalize_real [OF p] obtain e where "real fs p" "look fs p = Some e" "\<forall>t. e \<noteq> Link t" by blast
    with resolve_real_path [of fs p False] False have "resolve fs False max_links [] p = Inr p"
      by (cases e) auto
    with rd show ?thesis by (auto simp: read_file_def canonicalize_def split: option.splits inode.splits)
  qed
  with b pre canonicalize_real(1) [OF p] show ?thesis by blast
qed

theorem disk_read_confined_witness:
  "\<exists>base p. storage_base [] ''/s'' [([''s''], Dir), ([''s'', ''f''], File [7])] = Inr base \<and> prefix base p
     \<and> real [([''s''], Dir), ([''s'', ''f''], File [7])] p \<and> look [([''s''], Dir), ([''s'', ''f''], File [7])] p = Some (File [7])"
  by (rule disk_read_confined [of _ _ "''../s/f''"]) code_simp

end
