(* ===== verification/NodeStores.thy ===== *)
theory NodeStores
  imports NodeDisk
begin

text \<open>
  The two stores of a node: \<open>MemoryStore\<close> (CPCluster_node/src/memory_store.rs), a concurrent map
  whose implementation is a parameter, and \<open>DiskStore\<close> (CPCluster_node/src/disk_store.rs), files in
  a directory with a quota and a count of the bytes in use.
\<close>

section \<open>The store in memory\<close>

text \<open>The operations of \<open>DashMap\<close> that the store calls.\<close>

record 'm dashmap =
  dm_insert :: "string \<Rightarrow> u8 list \<Rightarrow> 'm \<Rightarrow> 'm"
  dm_get :: "'m \<Rightarrow> string \<Rightarrow> u8 list option"
  dm_iter :: "'m \<Rightarrow> (string \<times> u8 list) list"

definition mem_store :: "'m dashmap \<Rightarrow> string \<Rightarrow> u8 list \<Rightarrow> 'm \<Rightarrow> 'm" where
  "mem_store D k data m = dm_insert D k data m"

definition mem_load :: "'m dashmap \<Rightarrow> string \<Rightarrow> 'm \<Rightarrow> u8 list option" where
  "mem_load D k m = dm_get D m k"

definition mem_stats :: "'m dashmap \<Rightarrow> 'm \<Rightarrow> (string \<times> nat) list" where
  "mem_stats D m = map (\<lambda>(k, d). (k, length d)) (dm_iter D m)"

section \<open>The store on disk\<close>

record DiskStore =
  ds_dir :: "string list"
  quota_bytes :: u64
  usage :: u64

text \<open>What \<open>read_dir\<close> lists for a real path.\<close>

definition children :: "fsys \<Rightarrow> path \<Rightarrow> fsys" where
  "children fs p = filter (\<lambda>(q, _). q \<noteq> [] \<and> butlast q = p) fs"

text \<open>
  \<open>directory_size_sync\<close>: a stack of directories, links are neither files nor directories. The sum is
  a \<open>u64\<close>; the fuel bounds the number of directories that are visited.
\<close>

definition file_len :: "inode \<Rightarrow> nat" where
  "file_len e = (case e of File d \<Rightarrow> length d | _ \<Rightarrow> 0)"

fun size_loop :: "fsys \<Rightarrow> nat \<Rightarrow> path list \<Rightarrow> u64 \<Rightarrow> u64 option" where
  "size_loop fs n [] acc = Some acc"
| "size_loop fs 0 (p # stack) acc = None"
| "size_loop fs (Suc n) (p # stack) acc =
     size_loop fs n (map fst (filter (\<lambda>(_, e). e = Dir) (children fs p)) @ stack)
       (fold (\<lambda>(_, e) s. s + word_of_nat (file_len e)) (children fs p) acc)"

definition directory_size :: "fsys \<Rightarrow> string list \<Rightarrow> u64 result" where
  "directory_size fs ps =
     (case canonicalize fs ps of
        Inl _ \<Rightarrow> Inr 0
      | Inr p \<Rightarrow>
          if look fs p \<noteq> Some Dir then Inl ENOTDIR
          else (case size_loop fs (Suc (length fs)) [p] 0 of None \<Rightarrow> Inl (Other ''fuel'') | Some s \<Rightarrow> Inr s))"

definition disk_store_new :: "path \<Rightarrow> string \<Rightarrow> u64 \<Rightarrow> fsys \<Rightarrow> DiskStore \<times> fsys" where
  "disk_store_new cwd dir quota_mb fs =
     (let fs1 = snd (ensure_storage cwd dir fs);
          u = (case directory_size fs1 (path_join cwd dir) of Inl _ \<Rightarrow> 0 | Inr n \<Rightarrow> n)
      in (\<lparr>ds_dir = plain (path_join cwd dir), quota_bytes = quota_mb * 1024 * 1024, usage = u\<rparr>, fs1))"

text \<open>\<open>fs::metadata(path)\<close>: the length of a file; what it is for a directory depends on the system.\<close>

definition metadata_len :: "u64 \<Rightarrow> fsys \<Rightarrow> string list \<Rightarrow> u64 option" where
  "metadata_len dir_len fs ps =
     (case canonicalize fs ps of
        Inl _ \<Rightarrow> None
      | Inr p \<Rightarrow> Some (case look fs p of Some (File d) \<Rightarrow> word_of_nat (length d) | _ \<Rightarrow> dir_len))"

definition store_path :: "DiskStore \<Rightarrow> string \<Rightarrow> string list" where
  "store_path ds k = path_join (ds_dir ds) k"

text \<open>\<open>DiskStore::store\<close>; \<open>fetch_add\<close> wraps as every atomic does.\<close>

definition disk_store_put ::
  "u64 \<Rightarrow> nat option \<Rightarrow> string \<Rightarrow> u8 list \<Rightarrow> DiskStore \<Rightarrow> fsys \<Rightarrow> unit result \<times> DiskStore \<times> fsys" where
  "disk_store_put dir_len broken k data ds fs =
     (let path = store_path ds k;
          old_size = (case metadata_len dir_len fs path of None \<Rightarrow> 0 | Some n \<Rightarrow> n);
          data_len = word_of_nat (length data);
          new_usage = sat_sub (usage ds) old_size + data_len
      in if quota_bytes ds < new_usage then (Inl (Other ''quota exceeded''), ds, fs)
         else case write_file broken fs path data of
                (Inl e, fs1) \<Rightarrow> (Inl e, ds, fs1)
              | (Inr _, fs1) \<Rightarrow> (Inr (), ds\<lparr>usage := usage ds + sat_sub data_len old_size\<rparr>, fs1))"

definition disk_store_load :: "string \<Rightarrow> DiskStore \<Rightarrow> fsys \<Rightarrow> u8 list option" where
  "disk_store_load k ds fs =
     (case read_file fs (store_path ds k) of Inl _ \<Rightarrow> None | Inr d \<Rightarrow> Some d)"

definition disk_store_stats :: "DiskStore \<Rightarrow> fsys \<Rightarrow> ((string \<times> u64) list \<times> u64) result" where
  "disk_store_stats ds fs =
     (case canonicalize fs (ds_dir ds) of
        Inl e \<Rightarrow> Inl e
      | Inr p \<Rightarrow>
          if look fs p \<noteq> Some Dir then Inl ENOTDIR
          else Inr (map (\<lambda>(q, e). (last q, word_of_nat (file_len e)))
                 (filter (\<lambda>(_, e). case e of File _ \<Rightarrow> True | _ \<Rightarrow> False) (children fs p)),
               sat_sub (quota_bytes ds) (usage ds)))"

section \<open>The bytes in a directory\<close>

definition bytes_in :: "path \<Rightarrow> fsys \<Rightarrow> nat" where
  "bytes_in base fs = sum_list (map (\<lambda>(q, e). if prefix base q then file_len e else 0) fs)"

definition files_wf :: "fsys \<Rightarrow> bool" where
  "files_wf fs \<longleftrightarrow> distinct (map fst fs)"

definition len_at :: "fsys \<Rightarrow> path \<Rightarrow> nat" where
  "len_at fs p = (case look fs p of Some e \<Rightarrow> file_len e | None \<Rightarrow> 0)"

lemma len_at_le: "prefix base p \<Longrightarrow> len_at fs p \<le> bytes_in base fs"
proof (cases "p = []")
  case False
  assume "prefix base p"
  with False show ?thesis
    by (induction fs) (auto simp: len_at_def bytes_in_def look_def file_len_def split: option.splits)
qed (simp add: len_at_def file_len_def)

lemma bytes_in_put:
  assumes "files_wf fs" and "prefix base p" and "p \<noteq> []"
  shows "bytes_in base (put_inode p e fs) = bytes_in base fs - len_at fs p + file_len e"
proof -
  have "len_at fs p \<le> bytes_in base fs" by (rule len_at_le [OF assms(2)])
  have "bytes_in base (put_inode p e fs) + len_at fs p = bytes_in base fs + file_len e"
    using assms
    by (induction fs)
      (auto simp: bytes_in_def put_inode_def len_at_def look_def files_wf_def map_of_eq_None_iff [THEN iffD2])
  then show ?thesis using len_at_le [OF assms(2), of fs] by simp
qed

lemma files_wf_put: "files_wf fs \<Longrightarrow> files_wf (put_inode p e fs)"
  by (simp add: files_wf_def put_inode_def distinct_update)

section \<open>The size of a directory\<close>

text \<open>Every entry lies in a directory.\<close>

definition tree :: "fsys \<Rightarrow> bool" where
  "tree fs \<longleftrightarrow> files_wf fs \<and> (\<forall>(q, e) \<in> set fs. q \<noteq> [] \<and> look fs (butlast q) = Some Dir)"

lemma tree_ancestor:
  assumes "tree fs" and "(q, e) \<in> set fs" and "k < length q" and "0 < k"
  shows "(take k q, Dir) \<in> set fs"
  using assms(2,3)
proof (induction "length q - k" arbitrary: q e)
  case (Suc j)
  from assms(1) Suc.prems(1) have "look fs (butlast q) = Some Dir" by (auto simp: tree_def)
  moreover have "butlast q \<noteq> []" using Suc.prems(2) assms(4) by (cases q rule: rev_cases) auto
  ultimately have b: "(butlast q, Dir) \<in> set fs" by (auto simp: look_def dest: map_of_SomeD)
  show ?case
  proof (cases "k = length q - 1")
    case True
    with b show ?thesis by (simp add: butlast_conv_take)
  next
    case False
    with Suc.prems Suc.hyps(2) have "j = length (butlast q) - k" "k < length (butlast q)" by auto
    from Suc.hyps(1) [OF this(1) b this(2)] show ?thesis
      using Suc.prems(2) by (simp add: take_butlast)
  qed
qed simp

definition subdirs :: "fsys \<Rightarrow> path \<Rightarrow> path list" where
  "subdirs fs p = map fst (filter (\<lambda>(_, e). e = Dir) (children fs p))"

lemma set_subdirs: "c \<in> set (subdirs fs p) \<longleftrightarrow> (c, Dir) \<in> set fs \<and> c \<noteq> [] \<and> butlast c = p"
  by (force simp: subdirs_def children_def)

lemma distinct_subdirs: "files_wf fs \<Longrightarrow> distinct (subdirs fs p)"
  by (simp add: subdirs_def children_def files_wf_def distinct_map_filter)

lemma strict_prefix_take: "strict_prefix p q \<longleftrightarrow> length p < length q \<and> take (length p) q = p"
proof
  assume "strict_prefix p q"
  then obtain r where "q = p @ r" "r \<noteq> []" by (auto simp: strict_prefix_def prefix_def)
  then show "length p < length q \<and> take (length p) q = p" by simp
next
  assume "length p < length q \<and> take (length p) q = p"
  then show "strict_prefix p q" using take_is_prefix [of "length p" q] by (auto simp: strict_prefix_def)
qed

text \<open>An entry below \<open>p\<close> is a child of \<open>p\<close> or lies below exactly one of its subdirectories.\<close>

lemma below_once:
  assumes "tree fs" and "(q, e) \<in> set fs"
  shows "length (filter (\<lambda>c. strict_prefix c q) (subdirs fs p)) =
    (if strict_prefix p q \<and> butlast q \<noteq> p then 1 else 0)"
proof -
  let ?c = "take (Suc (length p)) q"
  have d: "distinct (subdirs fs p)" using assms(1) by (simp add: tree_def distinct_subdirs)
  have eq: "c = ?c \<and> strict_prefix p q \<and> butlast q \<noteq> p" if "c \<in> set (subdirs fs p)" "strict_prefix c q" for c
  proof -
    from that(1) have c: "c \<noteq> []" "p = take (length c - 1) c" by (auto simp: set_subdirs butlast_conv_take)
    then have l: "length c = Suc (length p)" by (cases c) auto
    from that(2) l have t: "Suc (length p) < length q" "take (Suc (length p)) q = c"
      by (auto simp: strict_prefix_take)
    then have "take (length p) q = p" using c(2) l by (metis diff_Suc_1 min.absorb1 le_SucI order_refl take_take)
    then show ?thesis using t by (auto simp: strict_prefix_take butlast_conv_take)
  qed
  show ?thesis
  proof (cases "strict_prefix p q \<and> butlast q \<noteq> p")
    case True
    then have l: "Suc (length p) < length q"
      by (cases "length q = Suc (length p)") (auto simp: strict_prefix_take butlast_conv_take)
    have "(?c, Dir) \<in> set fs" using tree_ancestor [OF assms l] by simp
    moreover have "butlast ?c = p"
      using True l by (auto simp: strict_prefix_take butlast_conv_take min_def take_take)
    ultimately have "?c \<in> set (subdirs fs p)" using l by (auto simp: set_subdirs)
    moreover have "strict_prefix ?c q" using l by (simp add: strict_prefix_take)
    moreover have "c = ?c" if "c \<in> set (subdirs fs p)" "strict_prefix c q" for c using eq [OF that] by blast
    ultimately have "set (filter (\<lambda>c. strict_prefix c q) (subdirs fs p)) = {?c}"
      unfolding set_filter by blast
    with d show ?thesis using True distinct_card [of "filter (\<lambda>c. strict_prefix c q) (subdirs fs p)"] by simp
  next
    case False
    then have "\<not> strict_prefix c q" if "c \<in> set (subdirs fs p)" for c using eq [OF that] by blast
    then have "filter (\<lambda>c. strict_prefix c q) (subdirs fs p) = []" by (simp add: filter_empty_conv)
    with False show ?thesis by auto
  qed
qed

definition below :: "(inode \<Rightarrow> nat) \<Rightarrow> fsys \<Rightarrow> path \<Rightarrow> nat" where
  "below f fs p = sum_list (map (\<lambda>(q, e). if strict_prefix p q then f e else 0) fs)"

lemma sum_below_subdirs:
  "sum_list (map (below f fs) cs) =
     sum_list (map (\<lambda>(q, e). f e * length (filter (\<lambda>c. strict_prefix c q) cs)) fs)"
proof (induction cs)
  case (Cons c cs)
  have "sum_list (map (\<lambda>(q, e). f e * length (filter (\<lambda>c. strict_prefix c q) (c # cs))) fs) =
      sum_list (map (\<lambda>(q, e). (if strict_prefix c q then f e else 0) + f e * length (filter (\<lambda>c. strict_prefix c q) cs)) fs)"
    by (rule arg_cong [where f = sum_list], rule map_cong) auto
  with Cons show ?case by (simp add: below_def split_def sum_list_addf)
qed (simp add: split_def)

lemma below_split:
  assumes "tree fs"
  shows "below f fs p = sum_list (map (\<lambda>(_, e). f e) (children fs p)) + sum_list (map (below f fs) (subdirs fs p))"
proof -
  have "sum_list (map (\<lambda>(_, e). f e) (children fs p)) =
      sum_list (map (\<lambda>(q, e). if q \<noteq> [] \<and> butlast q = p then f e else 0) fs)"
    by (simp add: children_def sum_list_map_filter' split_def)
  then have "sum_list (map (\<lambda>(_, e). f e) (children fs p)) + sum_list (map (below f fs) (subdirs fs p)) =
      sum_list (map (\<lambda>(q, e). (if q \<noteq> [] \<and> butlast q = p then f e else 0)
        + f e * length (filter (\<lambda>c. strict_prefix c q) (subdirs fs p))) fs)"
    unfolding sum_below_subdirs by (simp add: split_def sum_list_addf)
  also have "\<dots> = below f fs p"
    unfolding below_def
  proof (rule arg_cong [where f = sum_list], rule map_cong [OF refl])
    fix x
    assume x: "x \<in> set fs"
    obtain q e where qe: "x = (q, e)" by (cases x)
    have "strict_prefix p q" if "q \<noteq> []" "butlast q = p"
      using that by (auto simp: strict_prefix_take butlast_conv_take)
    moreover have "q \<noteq> []" using assms x qe by (auto simp: tree_def)
    ultimately show "(case x of (q, e) \<Rightarrow> (if q \<noteq> [] \<and> butlast q = p then f e else 0)
        + f e * length (filter (\<lambda>c. strict_prefix c q) (subdirs fs p))) =
        (case x of (q, e) \<Rightarrow> if strict_prefix p q then f e else 0)"
      using below_once [OF assms x [unfolded qe], of p] qe by auto
  qed
  finally show ?thesis by simp
qed

definition dirs_count :: "inode \<Rightarrow> nat" where
  "dirs_count e = (if e = Dir then 1 else 0)"

lemma fold_file_len:
  "fold (\<lambda>(_, e) s. s + word_of_nat (file_len e)) cs acc = acc + (word_of_nat (sum_list (map (\<lambda>(_, e). file_len e) cs)) :: u64)"
  by (induction cs arbitrary: acc) (auto simp: algebra_simps)

lemma sum_dirs_count: "sum_list (map (\<lambda>(_, e). dirs_count e) cs) = length (filter (\<lambda>(_, e). e = Dir) cs)"
  by (induction cs) (auto simp: dirs_count_def)

text \<open>With fuel for every directory below the stack the loop ends with the sum of all files below it.\<close>

lemma size_loop_sum:
  assumes "tree fs" and "sum_list (map (\<lambda>p. Suc (below dirs_count fs p)) stack) \<le> n"
  shows "size_loop fs n stack acc = Some (acc + word_of_nat (sum_list (map (below file_len fs) stack)))"
  using assms(2)
proof (induction n arbitrary: stack acc)
  case 0
  then show ?case by (cases stack) auto
next
  case (Suc n)
  show ?case
  proof (cases stack)
    case (Cons p st)
    let ?sub = "subdirs fs p"
    have sub: "map fst (filter (\<lambda>(_, e). e = Dir) (children fs p)) = ?sub" by (simp add: subdirs_def)
    have len: "length ?sub = sum_list (map (\<lambda>(_, e). dirs_count e) (children fs p))"
      by (simp add: sum_dirs_count subdirs_def)
    have "sum_list (map (\<lambda>p. Suc (below dirs_count fs p)) ?sub) = length ?sub + sum_list (map (below dirs_count fs) ?sub)"
      by (induction ?sub) (simp_all add: sum_list_Suc)
    with Suc.prems Cons below_split [OF assms(1), of dirs_count p] len
    have "sum_list (map (\<lambda>p. Suc (below dirs_count fs p)) (?sub @ st)) \<le> n" by simp
    from Suc.IH [OF this] show ?thesis
      by (simp add: Cons sub fold_file_len below_split [OF assms(1), of file_len p] algebra_simps)
  qed simp
qed

lemma below_dirs_le: "below dirs_count fs p \<le> length fs"
  by (induction fs) (auto simp: below_def dirs_count_def)

lemma below_bytes_in:
  assumes "tree fs" and "look fs p = Some Dir"
  shows "below file_len fs p = bytes_in p fs"
  unfolding below_def bytes_in_def
proof (rule arg_cong [where f = sum_list], rule map_cong [OF refl])
  fix x
  assume x: "x \<in> set fs"
  obtain q e where qe: "x = (q, e)" by (cases x)
  have "file_len e = 0" if "q = p"
  proof -
    have "p \<noteq> []" using assms(1) x qe that by (auto simp: tree_def)
    with assms(2) have "(p, Dir) \<in> set fs" by (auto simp: look_def dest: map_of_SomeD)
    moreover have "distinct (map fst fs)" using assms(1) by (simp add: tree_def files_wf_def)
    ultimately have "e = Dir" using x qe that by (auto dest: eq_key_imp_eq_value)
    then show ?thesis by (simp add: file_len_def)
  qed
  then show "(case x of (q, e) \<Rightarrow> if strict_prefix p q then file_len e else 0) =
      (case x of (q, e) \<Rightarrow> if prefix p q then file_len e else 0)"
    by (auto simp: qe strict_prefix_def)
qed

lemma directory_size_sum:
  assumes "tree fs" and "canonicalize fs ps = Inr p" and "look fs p = Some Dir"
  shows "directory_size fs ps = Inr (word_of_nat (bytes_in p fs))"
proof -
  have "sum_list (map (\<lambda>p. Suc (below dirs_count fs p)) [p]) \<le> Suc (length fs)"
    using below_dirs_le [of fs p] by simp
  from size_loop_sum [OF assms(1) this, of 0] show ?thesis
    by (simp add: directory_size_def assms(2,3) below_bytes_in [OF assms(1,3)])
qed

section \<open>The quota\<close>

text \<open>A key that is one file name; the code does not ask for it.\<close>

definition plain_key :: "string \<Rightarrow> bool" where
  "plain_key k \<longleftrightarrow> k \<noteq> '''' \<and> k \<noteq> ''.'' \<and> k \<noteq> ''..'' \<and> CHR ''/'' \<notin> set k"

text \<open>The count is not below the bytes in the directory, and not above the quota.\<close>

definition disk_ok :: "path \<Rightarrow> DiskStore \<Rightarrow> fsys \<Rightarrow> bool" where
  "disk_ok base ds fs \<longleftrightarrow>
     tree fs \<and> canonicalize fs (ds_dir ds) = Inr base \<and> look fs base = Some Dir
     \<and> (\<forall>c t. look fs (base @ [c]) \<noteq> Some (Link t))
     \<and> bytes_in base fs \<le> unat (usage ds) \<and> usage ds \<le> quota_bytes ds"

lemma plain_key_path: "plain_key k \<Longrightarrow> store_path ds k = ds_dir ds @ [k]"
  by (cases k) (auto simp: plain_key_def store_path_def path_join_def is_abs_def starts_with_def pieces_def names_def
      split_on_none)

lemma plain_key_resolve:
  assumes "disk_ok base ds fs" and "plain_key k"
  shows "resolve fs True max_links [] (store_path ds k) = Inr (base @ [k])"
    and "metadata_len dl fs (store_path ds k) = (case look fs (base @ [k]) of None \<Rightarrow> None
        | Some Dir \<Rightarrow> Some dl | Some _ \<Rightarrow> Some (word_of_nat (len_at fs (base @ [k]))))"
    and "look fs (base @ [k]) = Some (File d) \<Longrightarrow> read_file fs (store_path ds k) = Inr d"
proof -
  have r: "resolve fs False max_links [] (ds_dir ds) = Inr base" "look fs base = Some Dir"
    and l: "\<And>t. look fs (base @ [k]) \<noteq> Some (Link t)"
    using assms(1) by (auto simp: disk_ok_def canonicalize_def)
  have k: "k \<noteq> ''.''" "k \<noteq> ''..''" using assms(2) by (auto simp: plain_key_def)
  obtain i j where i: "resolve fs True max_links [] (ds_dir ds @ [k]) = resolve fs True i base [k]"
    and j: "resolve fs False max_links [] (ds_dir ds @ [k]) = resolve fs False j base [k]"
    using resolve_append [OF r] by metis
  show "resolve fs True max_links [] (store_path ds k) = Inr (base @ [k])"
    unfolding plain_key_path [OF assms(2)] i using k l by (auto split: option.splits inode.splits)
  show "metadata_len dl fs (store_path ds k) = (case look fs (base @ [k]) of None \<Rightarrow> None
      | Some Dir \<Rightarrow> Some dl | Some _ \<Rightarrow> Some (word_of_nat (len_at fs (base @ [k]))))"
    unfolding plain_key_path [OF assms(2)] metadata_len_def canonicalize_def j
    using k l by (auto simp: len_at_def file_len_def split: option.splits inode.splits)
  show "read_file fs (store_path ds k) = Inr d" if "look fs (base @ [k]) = Some (File d)"
    unfolding plain_key_path [OF assms(2)] read_file_def canonicalize_def j using k that by simp
qed

lemma put_inode_entry: "(q, e) \<in> set (put_inode p v fs) \<Longrightarrow> q \<noteq> p \<Longrightarrow> (q, e) \<in> set fs"
  by (induction fs) (auto simp: put_inode_def split: if_splits)

lemma tree_put_file:
  assumes "tree fs" and "look fs base = Some Dir" and "look fs (base @ [k]) \<noteq> Some Dir"
  shows "tree (put_inode (base @ [k]) (File d) fs)"
proof -
  let ?p = "base @ [k]"
  let ?fs = "put_inode ?p (File d) fs"
  have "q \<noteq> [] \<and> look ?fs (butlast q) = Some Dir" if "(q, e) \<in> set ?fs" for q e
  proof (cases "q = ?p")
    case True
    then show ?thesis using assms(2) by simp
  next
    case False
    with that have "(q, e) \<in> set fs" by (rule put_inode_entry)
    with assms(1) have "q \<noteq> []" "look fs (butlast q) = Some Dir" by (auto simp: tree_def)
    moreover from this assms(3) have "butlast q \<noteq> ?p" by auto
    ultimately show ?thesis by simp
  qed
  moreover have "files_wf ?fs" using assms(1) by (simp add: tree_def files_wf_put)
  ultimately show ?thesis by (auto simp: tree_def)
qed

lemma len_of_word: "length data < 2 ^ 64 \<Longrightarrow> unat (word_of_nat (length data) :: u64) = length data"
  by (simp add: unat_of_nat)

text \<open>One store with a plain key: refused exactly when it would exceed the quota, otherwise the file
  has the data and the count still covers the directory.\<close>

lemma disk_store_put_step:
  assumes ok: "disk_ok base ds fs" and k: "plain_key k" and nd: "look fs (base @ [k]) \<noteq> Some Dir"
    and room: "unat (quota_bytes ds) + length data < 2 ^ 64"
  shows "disk_store_put dl None k data ds fs =
      (if unat (quota_bytes ds) < unat (usage ds) - len_at fs (base @ [k]) + length data
       then (Inl (Other ''quota exceeded''), ds, fs)
       else (Inr (), ds\<lparr>usage := usage ds + sat_sub (word_of_nat (length data)) (word_of_nat (len_at fs (base @ [k])))\<rparr>,
             put_inode (base @ [k]) (File data) fs))"
proof -
  let ?p = "base @ [k]" and ?len = "word_of_nat (length data) :: u64" and ?old = "word_of_nat (len_at fs (base @ [k])) :: u64"
  have old: "(case metadata_len dl fs (store_path ds k) of None \<Rightarrow> 0 | Some n \<Rightarrow> n) = ?old"
    unfolding plain_key_resolve(2) [OF ok k] using nd ok
    by (auto simp: len_at_def disk_ok_def split: option.splits inode.splits)
  have "len_at fs ?p \<le> bytes_in base fs" by (rule len_at_le) simp
  also have "\<dots> \<le> unat (usage ds)" using ok by (simp add: disk_ok_def)
  finally have ol: "len_at fs ?p \<le> unat (usage ds)" .
  then have "unat ?old = len_at fs ?p"
    using unsigned_less [of "usage ds", where ?'a = nat] by (simp add: unat_of_nat)
  moreover have "unat (usage ds) \<le> unat (quota_bytes ds)" using ok by (simp add: disk_ok_def word_le_nat_alt)
  ultimately have "unat (sat_sub (usage ds) ?old + ?len) = unat (usage ds) - len_at fs ?p + length data"
    using room by (subst unat_add_lem [THEN iffD1]) (auto simp: len_of_word)
  then show ?thesis
    using nd by (auto simp: disk_store_put_def Let_def old write_file_def plain_key_resolve(1) [OF ok k] word_less_nat_alt)
qed

lemma disk_ok_step:
  assumes ok: "disk_ok base ds fs" and k: "plain_key k" and nd: "look fs (base @ [k]) \<noteq> Some Dir"
    and room: "unat (quota_bytes ds) + length data < 2 ^ 64"
    and put: "disk_store_put dl None k data ds fs = (r, ds', fs')"
  shows "disk_ok base ds' fs' \<and> quota_bytes ds' = quota_bytes ds \<and> ds_dir ds' = ds_dir ds
    \<and> (r = Inr () \<longrightarrow> disk_store_load k ds' fs' = Some data)"
proof (cases "unat (quota_bytes ds) < unat (usage ds) - len_at fs (base @ [k]) + length data")
  case True
  with put disk_store_put_step [OF assms(1-4), of dl] ok show ?thesis by auto
next
  case False
  let ?p = "base @ [k]" and ?len = "word_of_nat (length data) :: u64" and ?old = "word_of_nat (len_at fs (base @ [k])) :: u64"
  from False put disk_store_put_step [OF assms(1-4), of dl] have
    r: "r = Inr ()" and ds': "ds' = ds\<lparr>usage := usage ds + sat_sub ?len ?old\<rparr>" and fs': "fs' = put_inode ?p (File data) fs"
    by simp_all
  have tr: "tree fs" and dir: "look fs base = Some Dir" and can: "canonicalize fs (ds_dir ds) = Inr base"
    and nl: "\<And>c t. look fs (base @ [c]) \<noteq> Some (Link t)" and cnt: "bytes_in base fs \<le> unat (usage ds)"
    and quota: "unat (usage ds) \<le> unat (quota_bytes ds)"
    using ok by (auto simp: disk_ok_def word_le_nat_alt)
  have keep: "keeps fs fs'" unfolding fs' by (rule keeps_put_file) (use nd nl in auto)
  have "len_at fs ?p \<le> bytes_in base fs" by (rule len_at_le) simp
  then have ol: "len_at fs ?p \<le> bytes_in base fs" "len_at fs ?p \<le> unat (usage ds)" using cnt by simp_all
  have unat_old: "unat ?old = len_at fs ?p"
    using ol(2) unsigned_less [of "usage ds", where ?'a = nat] by (simp add: unat_of_nat)
  have unat_len: "unat ?len = length data" using room by (simp add: len_of_word)
  have usage': "unat (usage ds') = unat (usage ds) + (length data - len_at fs ?p)"
    unfolding ds' using quota room unat_old unat_len by (simp, subst unat_add_lem [THEN iffD1]) auto
  have bytes: "bytes_in base fs' = bytes_in base fs - len_at fs ?p + length data"
    unfolding fs' using tr by (subst bytes_in_put) (auto simp: tree_def file_len_def)
  have ok': "disk_ok base ds' fs'"
    unfolding disk_ok_def
  proof (intro conjI allI)
    show "tree fs'" unfolding fs' by (rule tree_put_file [OF tr dir nd])
    show "canonicalize fs' (ds_dir ds') = Inr base" using canonicalize_keeps [OF can keep] by (simp add: ds')
    show "look fs' base = Some Dir" by (rule keepsD(1) [OF keep dir])
    show "look fs' (base @ [c]) \<noteq> Some (Link t)" for c t using nl by (simp add: fs')
    show "bytes_in base fs' \<le> unat (usage ds')" using bytes usage' cnt ol by linarith
    show "usage ds' \<le> quota_bytes ds'"
      using usage' False ol quota by (simp add: ds' word_le_nat_alt)
  qed
  moreover have "disk_store_load k ds' fs' = Some data"
    using plain_key_resolve(3) [OF ok' k, of data] by (simp add: disk_store_load_def fs')
  ultimately show ?thesis by (simp add: ds')
qed

text \<open>A series of stores, one after the other.\<close>

fun disk_store_all :: "u64 \<Rightarrow> (string \<times> u8 list) list \<Rightarrow> DiskStore \<Rightarrow> fsys \<Rightarrow> DiskStore \<times> fsys" where
  "disk_store_all dl [] ds fs = (ds, fs)"
| "disk_store_all dl ((k, data) # kvs) ds fs =
     (let (_, ds1, fs1) = disk_store_put dl None k data ds fs in disk_store_all dl kvs ds1 fs1)"

lemma put_keeps_no_dir:
  assumes "disk_ok base ds fs" and "plain_key k" and "look fs (base @ [k]) \<noteq> Some Dir"
    and "unat (quota_bytes ds) + length data < 2 ^ 64" and "look fs (base @ [k']) \<noteq> Some Dir"
    and "disk_store_put dl None k data ds fs = (r, ds', fs')"
  shows "look fs' (base @ [k']) \<noteq> Some Dir"
  using disk_store_put_step [OF assms(1-4), of dl] assms(5,6) by (auto split: if_splits)


lemma demo_disk_ok: "disk_ok [''s''] \<lparr>ds_dir = [''s''], quota_bytes = 10, usage = 0\<rparr> [([''s''], Dir)]"
  unfolding disk_ok_def by (intro conjI allI) (code_simp | simp add: look_def)+


text \<open>
  What the count does not do: it never goes down, so a file that is overwritten by a shorter one
  keeps the bytes it had reserved, and a store that fits is refused while the directory is empty; and
  the key is not checked, so a key with \<open>..\<close> in it writes outside the directory.
\<close>

theorem disk_store_faults:
  "(let ds = \<lparr>ds_dir = [''s''], quota_bytes = 4, usage = 0\<rparr>;
        (ds1, fs1) = disk_store_all 0 [(''a'', [1, 2, 3, 4]), (''a'', [])] ds [([''s''], Dir)]
    in bytes_in [''s''] fs1 = 0 \<and> usage ds1 = 4
       \<and> fst (disk_store_put 0 None ''b'' [7] ds1 fs1) = Inl (Other ''quota exceeded''))
   \<and> disk_store_put 0 None ''../o'' [7] \<lparr>ds_dir = [''s''], quota_bytes = 4, usage = 0\<rparr> [([''s''], Dir)]
      = (Inr (), \<lparr>ds_dir = [''s''], quota_bytes = 4, usage = 1\<rparr>, [([''s''], Dir), ([''o''], File [7])])"
  by code_simp

text \<open>
  C38: the count a store starts with is the number of bytes in all files under its directory, in
  subdirectories too, links not followed.
\<close>

theorem disk_store_counts_files:
  assumes "disk_store_new cwd dir quota_mb fs = (ds, fs1)" and "tree fs1"
    and "canonicalize fs1 (path_join cwd dir) = Inr p" and "look fs1 p = Some Dir"
  shows "usage ds = word_of_nat (bytes_in p fs1) \<and> quota_bytes ds = quota_mb * 2 ^ 20"
  using assms directory_size_sum [OF assms(2-4)]
  by (auto simp: disk_store_new_def Let_def)

theorem disk_store_counts_files_witness:
  "usage (fst (disk_store_new [] ''/s'' 1 [([''s''], Dir), ([''s'', ''d''], Dir), ([''s'', ''d'', ''f''], File [1, 2]), ([''s'', ''g''], File [3])])) = 3"
proof -
  let ?fs = "[([''s''], Dir), ([''s'', ''d''], Dir), ([''s'', ''d'', ''f''], File [1, 2 :: u8]), ([''s'', ''g''], File [3])]"
  obtain ds fs1 where e: "disk_store_new [] ''/s'' 1 ?fs = (ds, fs1)" by (cases "disk_store_new [] ''/s'' 1 ?fs")
  have "snd (disk_store_new [] ''/s'' 1 ?fs) = ?fs" by code_simp
  with e have fs1: "fs1 = ?fs" by simp
  have "tree ?fs" by (simp add: tree_def files_wf_def look_def)
  moreover have "canonicalize ?fs (path_join [] ''/s'') = Inr [''s'']" "look ?fs [''s''] = Some Dir" by code_simp+
  moreover have "bytes_in [''s''] ?fs = 3" by code_simp
  ultimately show ?thesis using disk_store_counts_files [OF e] unfolding e fs1 by simp
qed

end
