(* ===== verification/NodeEval.thy ===== *)
theory NodeEval
  imports Messages
begin

text \<open>
  \<open>eval_complex\<close> of CPCluster_node/src/lib.rs: a stack machine over the tokens that meval delivers in
  postfix order. The tokenizer, \<open>to_rpn\<close> and the arithmetic of \<open>Complex64\<close> are parameters.
\<close>

section \<open>Tokens and numbers\<close>

datatype operation = Plus | Minus | Times | Div | Rem | Pow

datatype token =
    TNumber f64
  | TVar string
  | TBinary operation
  | TUnary operation
  | TOther

record 'c complex_ops =
  c_real :: "f64 \<Rightarrow> 'c"
  c_i :: 'c
  c_add :: "'c \<Rightarrow> 'c \<Rightarrow> 'c"
  c_sub :: "'c \<Rightarrow> 'c \<Rightarrow> 'c"
  c_mul :: "'c \<Rightarrow> 'c \<Rightarrow> 'c"
  c_div :: "'c \<Rightarrow> 'c \<Rightarrow> 'c"
  c_powc :: "'c \<Rightarrow> 'c \<Rightarrow> 'c"
  c_rem_re :: "'c \<Rightarrow> 'c \<Rightarrow> 'c"
  c_neg :: "'c \<Rightarrow> 'c"
  c_show :: "'c \<Rightarrow> string"

text \<open>\<open>c_rem_re a b\<close> is \<open>Complex64::new(a.re % b.re, a.im)\<close>.\<close>

fun apply_binary :: "'c complex_ops \<Rightarrow> operation \<Rightarrow> 'c \<Rightarrow> 'c \<Rightarrow> 'c" where
  "apply_binary C Plus a b = c_add C a b"
| "apply_binary C Minus a b = c_sub C a b"
| "apply_binary C Times a b = c_mul C a b"
| "apply_binary C Div a b = c_div C a b"
| "apply_binary C Pow a b = c_powc C a b"
| "apply_binary C Rem a b = c_rem_re C a b"

fun apply_unary :: "'c complex_ops \<Rightarrow> operation \<Rightarrow> 'c \<Rightarrow> string + 'c" where
  "apply_unary C Plus a = Inr a"
| "apply_unary C Minus a = Inr (c_neg C a)"
| "apply_unary C _ a = Inl ''unsupported unary''"

text \<open>The value of a variable: the imaginary unit or an error.\<close>

definition lookup_var :: "'c complex_ops \<Rightarrow> string \<Rightarrow> string + 'c" where
  "lookup_var C v = (if v = ''i'' then Inr (c_i C) else Inl (''unknown var '' @ v))"

section \<open>The stack machine\<close>

fun run_rpn :: "'c complex_ops \<Rightarrow> token list \<Rightarrow> 'c list \<Rightarrow> string + 'c list" where
  "run_rpn C [] st = Inr st"
| "run_rpn C (TNumber n # ts) st = run_rpn C ts (c_real C n # st)"
| "run_rpn C (TVar v # ts) st =
     (case lookup_var C v of Inl e \<Rightarrow> Inl e | Inr c \<Rightarrow> run_rpn C ts (c # st))"
| "run_rpn C (TBinary op # ts) st =
     (case st of
        b # a # st' \<Rightarrow> run_rpn C ts (apply_binary C op a b # st')
      | _ \<Rightarrow> Inl ''stack underflow'')"
| "run_rpn C (TUnary op # ts) st =
     (case st of
        a # st' \<Rightarrow> (case apply_unary C op a of Inl e \<Rightarrow> Inl e | Inr c \<Rightarrow> run_rpn C ts (c # st'))
      | [] \<Rightarrow> Inl ''stack underflow'')"
| "run_rpn C (TOther # ts) st = Inl ''unsupported token''"

definition eval_complex ::
  "(string \<Rightarrow> string + token list) \<Rightarrow> (token list \<Rightarrow> string + token list) \<Rightarrow> 'c complex_ops \<Rightarrow> string \<Rightarrow> string + 'c" where
  "eval_complex tokenize to_rpn C expr =
     (case tokenize expr of
        Inl e \<Rightarrow> Inl e
      | Inr tokens \<Rightarrow>
          (case to_rpn tokens of
             Inl e \<Rightarrow> Inl e
           | Inr rpn \<Rightarrow>
               (case run_rpn C rpn [] of
                  Inl e \<Rightarrow> Inl e
                | Inr [] \<Rightarrow> Inl ''no result''
                | Inr (c # _) \<Rightarrow> Inr c)))"

section \<open>The machine computes the value of the expression\<close>

datatype cexpr =
    ENum f64
  | EVar string
  | EBin operation cexpr cexpr
  | EUn operation cexpr

fun postfix :: "cexpr \<Rightarrow> token list" where
  "postfix (ENum n) = [TNumber n]"
| "postfix (EVar v) = [TVar v]"
| "postfix (EBin op a b) = postfix a @ postfix b @ [TBinary op]"
| "postfix (EUn op a) = postfix a @ [TUnary op]"

fun denote :: "'c complex_ops \<Rightarrow> cexpr \<Rightarrow> string + 'c" where
  "denote C (ENum n) = Inr (c_real C n)"
| "denote C (EVar v) = lookup_var C v"
| "denote C (EBin op a b) =
     (case denote C a of
        Inl e \<Rightarrow> Inl e
      | Inr x \<Rightarrow> (case denote C b of Inl e \<Rightarrow> Inl e | Inr y \<Rightarrow> Inr (apply_binary C op x y)))"
| "denote C (EUn op a) = (case denote C a of Inl e \<Rightarrow> Inl e | Inr x \<Rightarrow> apply_unary C op x)"

lemma run_postfix:
  "run_rpn C (postfix t @ ts) st = (case denote C t of Inl e \<Rightarrow> Inl e | Inr c \<Rightarrow> run_rpn C ts (c # st))"
  by (induction t arbitrary: ts st) (auto split: sum.splits)

text \<open>
  C39: when the parser delivers an expression in postfix order, \<open>eval_complex\<close> returns exactly the
  value of the expression, operands taken in their order, or the first error from the left: an
  unknown variable or an operation that has no unary form. It never reports a stack underflow then.
\<close>

theorem eval_complex_correct:
  assumes "tokenize s = Inr tokens" and "to_rpn tokens = Inr (postfix t)"
  shows "eval_complex tokenize to_rpn C s = denote C t"
  using run_postfix [of C t "[]" "[]"] assms by (simp add: eval_complex_def split: sum.splits)

definition gauss_ops :: "(int \<times> int) complex_ops" where
  "gauss_ops =
     \<lparr>c_real = (\<lambda>n. (uint n, 0)), c_i = (0, 1), c_add = (\<lambda>a b. (fst a + fst b, snd a + snd b)),
      c_sub = (\<lambda>a b. (fst a - fst b, snd a - snd b)),
      c_mul = (\<lambda>a b. (fst a * fst b - snd a * snd b, fst a * snd b + snd a * fst b)),
      c_div = (\<lambda>a b. a), c_powc = (\<lambda>a b. a), c_rem_re = (\<lambda>a b. (fst a mod fst b, snd a)),
      c_neg = (\<lambda>a. (- fst a, - snd a)), c_show = (\<lambda>_. [])\<rparr>"

theorem eval_complex_correct_witness:
  "eval_complex (\<lambda>_. Inr [TNumber 2, TVar ''i'', TNumber 3, TBinary Times, TBinary Plus]) Inr gauss_ops ''2+i*3'' = Inr (2, 3)"
proof -
  let ?t = "EBin Plus (ENum 2) (EBin Times (EVar ''i'') (ENum 3))"
  have "postfix ?t = [TNumber 2, TVar ''i'', TNumber 3, TBinary Times, TBinary Plus]" by simp
  then have "eval_complex (\<lambda>_. Inr [TNumber 2, TVar ''i'', TNumber 3, TBinary Times, TBinary Plus]) Inr gauss_ops ''2+i*3''
      = denote gauss_ops ?t"
    by (intro eval_complex_correct [OF refl]) simp
  also have "\<dots> = Inr (2, 3)" by code_simp
  finally show ?thesis .
qed

end
