(* ===== verification/NodeTasks.thy ===== *)
theory NodeTasks
  imports NodeStores NodeEval
begin

text \<open>
  The work of a node: the ports of an Internet node (CPCluster_node/src/internet_ports.rs),
  \<open>execute_task\<close> (cpcluster_common/src/execute.rs) and \<open>execute_node_task\<close>
  (CPCluster_node/src/lib.rs) with every branch. The outcomes of the network calls, of meval and of
  the HTTP client are arguments.
\<close>

section \<open>Ports of an Internet node\<close>

text \<open>A listener is what its \<open>local_addr\<close> says; a UDP socket is kept as it is.\<close>

record 'u InternetPorts =
  ip_tcp :: "u16 option list"
  ip_udp :: "'u list"
  tcp_idx :: u64
  udp_idx :: u64

definition bind_ports :: "(u16 \<Rightarrow> u16 option option) \<Rightarrow> (u16 \<Rightarrow> 'u option) \<Rightarrow> u16 list \<Rightarrow> 'u InternetPorts" where
  "bind_ports bind_tcp bind_udp ports =
     \<lparr>ip_tcp = List.map_filter bind_tcp ports, ip_udp = List.map_filter bind_udp ports, tcp_idx = 0, udp_idx = 0\<rparr>"

definition tcp_port :: "'u InternetPorts \<Rightarrow> u16 option \<times> 'u InternetPorts" where
  "tcp_port i =
     (if ip_tcp i = [] then (None, i)
      else (ip_tcp i ! (unat (tcp_idx i) mod length (ip_tcp i)), i\<lparr>tcp_idx := tcp_idx i + 1\<rparr>))"

definition udp_socket :: "'u InternetPorts \<Rightarrow> 'u option \<times> 'u InternetPorts" where
  "udp_socket i =
     (if ip_udp i = [] then (None, i)
      else (Some (ip_udp i ! (unat (udp_idx i) mod length (ip_udp i))), i\<lparr>udp_idx := udp_idx i + 1\<rparr>))"

section \<open>Tasks without resources of the node\<close>

record 'r web =
  eval_str :: "string \<Rightarrow> string + f64"
  http_send :: "string \<Rightarrow> string + 'r"
  http_text :: "'r \<Rightarrow> string + string"

definition execute_task :: "'r web \<Rightarrow> Task \<Rightarrow> TaskResult" where
  "execute_task W t =
     (case t of
        Compute expression \<Rightarrow> (case eval_str W expression of Inr v \<Rightarrow> Number v | Inl e \<Rightarrow> Error e)
      | HttpRequest url \<Rightarrow>
          (case http_send W url of
             Inr resp \<Rightarrow> (case http_text W resp of Inr s \<Rightarrow> Response s | Inl e \<Rightarrow> Error e)
           | Inl e \<Rightarrow> Error e)
      | _ \<Rightarrow> Error ''Unsupported task'')"

section \<open>Sockets\<close>

text \<open>
  \<open>connect\<close> takes a text, \<open>connect_bound\<close> an address the text parsed to, from a local port. The
  answer of the peer is the outcome of one read into a buffer of 1024 bytes.
\<close>

record ('a, 'u) net =
  tcp_socket :: "string + unit"
  tcp_bind :: "u16 \<Rightarrow> bool"
  parse_addr :: "string \<Rightarrow> 'a option"
  connect_bound :: "'a \<Rightarrow> string + unit"
  connect :: "string \<Rightarrow> string + unit"
  tcp_write :: "u8 list \<Rightarrow> string + unit"
  tcp_read :: "string + u8 list"
  udp_bind :: "string + 'u"
  udp_send :: "'u \<Rightarrow> u8 list \<Rightarrow> string \<Rightarrow> string + unit"
  udp_recv :: "'u \<Rightarrow> string + u8 list"

definition buffer_size :: nat where
  "buffer_size = 1024"

definition bytes_or_error :: "string + u8 list \<Rightarrow> TaskResult" where
  "bytes_or_error r = (case r of Inr d \<Rightarrow> Bytes (take buffer_size d) | Inl e \<Rightarrow> Error e)"

text \<open>\<open>None\<close> is the \<open>unwrap\<close> of an address that does not parse.\<close>

definition tcp_connect :: "('a, 'u) net \<Rightarrow> u16 option \<Rightarrow> string \<Rightarrow> (string + unit) option" where
  "tcp_connect N port addr =
     (case port of
        None \<Rightarrow> Some (connect N addr)
      | Some inet \<Rightarrow>
          (case tcp_socket N of
             Inl _ \<Rightarrow> Some (connect N addr)
           | Inr _ \<Rightarrow>
               if tcp_bind N inet
               then map_option (connect_bound N) (parse_addr N addr)
               else Some (connect N addr)))"

definition run_tcp :: "('a, 'u) net \<Rightarrow> u16 option \<Rightarrow> string \<Rightarrow> u8 list \<Rightarrow> task_outcome" where
  "run_tcp N port addr data =
     (case tcp_connect N port addr of
        None \<Rightarrow> Panicked
      | Some (Inl e) \<Rightarrow> Done (Error e)
      | Some (Inr _) \<Rightarrow>
          (case tcp_write N data of
             Inl e \<Rightarrow> Done (Error e)
           | Inr _ \<Rightarrow> Done (bytes_or_error (tcp_read N))))"

definition run_udp :: "('a, 'u) net \<Rightarrow> 'u option \<Rightarrow> string \<Rightarrow> u8 list \<Rightarrow> TaskResult" where
  "run_udp N own addr data =
     (case (case own of Some sock \<Rightarrow> Inr sock | None \<Rightarrow> udp_bind N) of
        Inl e \<Rightarrow> Error e
      | Inr sock \<Rightarrow>
          (case udp_send N sock data addr of
             Inl e \<Rightarrow> Error e
           | Inr _ \<Rightarrow> bytes_or_error (udp_recv N sock)))"

section \<open>The node\<close>

record ('m, 'u) node_res =
  nr_fs :: fsys
  nr_mem :: 'm
  nr_disk :: "DiskStore option"
  nr_inet :: "'u InternetPorts option"

text \<open>What a task depends on besides the resources of the node.\<close>

record ('r, 'a, 'u, 'm, 'c) node_world =
  w_web :: "'r web"
  w_net :: "('a, 'u) net"
  w_dash :: "'m dashmap"
  w_tokenize :: "string \<Rightarrow> string + token list"
  w_to_rpn :: "token list \<Rightarrow> string + token list"
  w_complex :: "'c complex_ops"
  w_dir_len :: u64
  w_broken :: "nat option"
  w_cwd :: path

definition stat_line :: "string \<Rightarrow> nat \<Rightarrow> string" where
  "stat_line k n = k @ '': '' @ show_nat n @ '' bytes'' @ [CHR 0x0A]"

definition no_entries :: string where
  "no_entries = ''No entries found'' @ [CHR 0x0A]"

definition global_ram :: "(string \<times> nat) list \<Rightarrow> string" where
  "global_ram stats = (if stats = [] then no_entries else concat (map (\<lambda>(k, n). stat_line k n) stats))"

definition storage_report :: "(string \<times> u64) list \<times> u64 \<Rightarrow> string" where
  "storage_report st =
     (let (files, free) = st
      in stat_line ''free'' (unat free)
         @ (if files = [] then no_entries else concat (map (\<lambda>(k, n). stat_line k (unat n)) files)))"

text \<open>The next port or socket of an Internet node, if it is one.\<close>

definition pick_tcp :: "('m, 'u) node_res \<Rightarrow> u16 option \<times> ('m, 'u) node_res" where
  "pick_tcp n =
     (case nr_inet n of
        None \<Rightarrow> (None, n)
      | Some i \<Rightarrow> (let (p, i') = tcp_port i in (p, n\<lparr>nr_inet := Some i'\<rparr>)))"

definition pick_udp :: "('m, 'u) node_res \<Rightarrow> 'u option \<times> ('m, 'u) node_res" where
  "pick_udp n =
     (case nr_inet n of
        None \<Rightarrow> (None, n)
      | Some i \<Rightarrow> (let (u, i') = udp_socket i in (u, n\<lparr>nr_inet := Some i'\<rparr>)))"

fun execute_node_task ::
  "('r, 'a, 'u, 'm, 'c) node_world \<Rightarrow> string \<Rightarrow> Task \<Rightarrow> ('m, 'u) node_res \<Rightarrow> task_outcome \<times> ('m, 'u) node_res" where
  "execute_node_task W sd (Compute e) n = (Done (execute_task (w_web W) (Compute e)), n)"
| "execute_node_task W sd (HttpRequest url) n = (Done (execute_task (w_web W) (HttpRequest url)), n)"
| "execute_node_task W sd (Tcp addr data) n =
     (let (p, n1) = pick_tcp n in (run_tcp (w_net W) p addr data, n1))"
| "execute_node_task W sd (Udp addr data) n =
     (let (u, n1) = pick_udp n in (Done (run_udp (w_net W) u addr data), n1))"
| "execute_node_task W sd (ComplexMath e) n =
     (Done (case eval_complex (w_tokenize W) (w_to_rpn W) (w_complex W) e of
              Inr c \<Rightarrow> Response (c_show (w_complex W) c) | Inl err \<Rightarrow> Error err), n)"
| "execute_node_task W sd (StoreData k data) n =
     (case nr_disk n of
        Some ds \<Rightarrow>
          (case disk_store_put (w_dir_len W) (w_broken W) k data ds (nr_fs n) of
             (Inr _, ds', fs') \<Rightarrow> (Done Stored, n\<lparr>nr_disk := Some ds', nr_fs := fs'\<rparr>)
           | (Inl e, ds', fs') \<Rightarrow> (io_error e, n\<lparr>nr_disk := Some ds', nr_fs := fs'\<rparr>))
      | None \<Rightarrow> (Done Stored, n\<lparr>nr_mem := mem_store (w_dash W) k data (nr_mem n)\<rparr>))"
| "execute_node_task W sd (RetrieveData k) n =
     (Done (case (case nr_disk n of
                    Some ds \<Rightarrow> disk_store_load k ds (nr_fs n)
                  | None \<Rightarrow> mem_load (w_dash W) k (nr_mem n)) of
              Some d \<Rightarrow> Bytes d | None \<Rightarrow> Error ''Key not found''), n)"
| "execute_node_task W sd (DiskWrite path data) n =
     (let (r, fs') = disk_write (w_broken W) (w_cwd W) sd path data (nr_fs n) in (r, n\<lparr>nr_fs := fs'\<rparr>))"
| "execute_node_task W sd (DiskRead path) n = (disk_read (w_cwd W) sd path (nr_fs n), n)"
| "execute_node_task W sd GetGlobalRam n = (Done (Response (global_ram (mem_stats (w_dash W) (nr_mem n)))), n)"
| "execute_node_task W sd GetStorage n =
     (Done (case nr_disk n of
              Some ds \<Rightarrow> (case disk_store_stats ds (nr_fs n) of
                 Inr st \<Rightarrow> Response (storage_report st) | Inl e \<Rightarrow> Error (show_err e))
            | None \<Rightarrow> Error ''No disk store configured''), n)"

section \<open>Properties\<close>

lemma funpow_tcp_idx:
  "((\<lambda>i. snd (tcp_port i)) ^^ k) i = (if ip_tcp i = [] then i else i\<lparr>tcp_idx := tcp_idx i + word_of_nat k\<rparr>)"
  by (induction k) (auto simp: tcp_port_def algebra_simps)

text \<open>
  The ports of an Internet node are used in turn: the \<open>k\<close>-th call takes the \<open>k\<close>-th listener after
  the first one, cyclically, as long as the counter has not wrapped around 2^64, so any run of as
  many calls as there are listeners uses each of them exactly once.
\<close>

theorem internet_ports_round_robin:
  assumes "ip_tcp i \<noteq> []" and "unat (tcp_idx i) + k < 2 ^ 64"
  shows "fst (tcp_port (((\<lambda>i. snd (tcp_port i)) ^^ k) i)) = ip_tcp i ! ((unat (tcp_idx i) + k) mod length (ip_tcp i))
    \<and> mset (map (\<lambda>k. (unat (tcp_idx i) + k) mod length (ip_tcp i)) [0 ..< length (ip_tcp i)])
       = mset [0 ..< length (ip_tcp i)]"
proof
  have "unat (word_of_nat k :: u64) = k" using assms(2) by (simp add: unat_of_nat)
  then have "unat (tcp_idx i + word_of_nat k) = unat (tcp_idx i) + k"
    using assms(2) by (subst unat_add_lem [THEN iffD1]) simp_all
  with assms(1) show "fst (tcp_port (((\<lambda>i. snd (tcp_port i)) ^^ k) i)) =
      ip_tcp i ! ((unat (tcp_idx i) + k) mod length (ip_tcp i))"
    unfolding funpow_tcp_idx by (simp add: tcp_port_def)
  let ?n = "length (ip_tcp i)" and ?f = "\<lambda>k. (unat (tcp_idx i) + k) mod length (ip_tcp i)"
  have n: "0 < ?n" using assms(1) by simp
  have inj: "inj_on ?f {0 ..< ?n}"
  proof (rule inj_onI)
    fix a b
    assume ab: "a \<in> {0 ..< ?n}" "b \<in> {0 ..< ?n}" "?f a = ?f b"
    have le: "x = y" if "x \<le> y" "y < ?n" "?f x = ?f y" for x y
    proof -
      have "?n dvd y - x" using that mod_eq_dvd_iff_nat [of "unat (tcp_idx i) + x" "unat (tcp_idx i) + y" ?n] by simp
      with that(1,2) show ?thesis by (metis diff_is_0_eq dvd_imp_le le_antisym less_imp_diff_less not_le zero_less_iff_neq_zero)
    qed
    from ab show "a = b" using le [of a b] le [of b a] by (cases "a \<le> b") auto
  qed
  then have "?f ` {0 ..< ?n} = {0 ..< ?n}"
    by (intro endo_inj_surj) (use n in auto)
  with inj show "mset (map ?f [0 ..< ?n]) = mset [0 ..< ?n]"
    by (intro set_eq_iff_mset_eq_distinct [THEN iffD1]) (auto simp: distinct_map)
qed

theorem internet_ports_round_robin_witness:
  "fst (tcp_port (((\<lambda>i. snd (tcp_port i)) ^^ 3) \<lparr>ip_tcp = [Some 7, Some 8], ip_udp = [] :: unit list, tcp_idx = 0, udp_idx = 0\<rparr>)) = Some 8"
proof -
  let ?i = "\<lparr>ip_tcp = [Some 7, Some 8], ip_udp = [] :: unit list, tcp_idx = 0, udp_idx = 0\<rparr>"
  have "fst (tcp_port (((\<lambda>i. snd (tcp_port i)) ^^ 3) ?i)) =
      ip_tcp ?i ! ((unat (tcp_idx ?i) + 3) mod length (ip_tcp ?i))"
    by (rule internet_ports_round_robin [THEN conjunct1]) simp_all
  also have "\<dots> = Some 8" by (simp add: numeral_2_eq_2 [symmetric])
  finally show ?thesis .
qed

lemma disk_write_no_panic: "fst (disk_write broken cwd sd path data fs) \<noteq> Panicked"
proof (cases "disk_write broken cwd sd path data fs")
  case (Pair r fs')
  then show ?thesis by (cases rule: disk_write_course) (simp_all add: Pair)
qed

lemma disk_read_no_panic: "disk_read cwd sd path fs \<noteq> Panicked"
  by (auto simp: disk_read_def Let_def split: sum.splits)

lemma panics_iff:
  "fst (execute_node_task W sd t n) = Panicked \<longleftrightarrow>
     (\<exists>addr data port u. t = Tcp addr data \<and> fst (pick_tcp n) = Some port \<and> tcp_socket (w_net W) = Inr u
        \<and> tcp_bind (w_net W) port \<and> parse_addr (w_net W) addr = None)"
proof (cases t)
  case (Tcp addr data)
  then show ?thesis
    by (auto simp: run_tcp_def tcp_connect_def Let_def split: prod.splits option.splits sum.splits)
next
  case (DiskWrite path data)
  with disk_write_no_panic [of "w_broken W" "w_cwd W" sd path data "nr_fs n"] show ?thesis
    by (auto simp: Let_def split: prod.splits)
qed (auto simp: Let_def disk_read_no_panic split: prod.splits option.splits sum.splits)


text \<open>The contract of the map behind the memory store, as its documentation gives it.\<close>

locale memory_map =
  fixes D :: "'m dashmap"
  assumes get_insert: "dm_get D (dm_insert D k d m) k' = (if k' = k then Some d else dm_get D m k')"
begin

lemma load_store: "mem_load D k' (mem_store D k d m) = (if k' = k then Some d else mem_load D k' m)"
  by (simp add: mem_load_def mem_store_def get_insert)

end

text \<open>The sequential behaviour of such a map, on an association list.\<close>

definition list_dashmap :: "u8 list hmap dashmap" where
  "list_dashmap = \<lparr>dm_insert = hm_insert, dm_get = hm_get, dm_iter = (\<lambda>m. m)\<rparr>"

interpretation list_map: memory_map list_dashmap
  by unfold_locales (simp add: list_dashmap_def)

end
