(* ===== verification/NodeConn.thy ===== *)
theory NodeConn
  imports IpAddr NodeTasks
begin

text \<open>
  How a node reaches a master (CPCluster_node/src/node.rs): \<open>connect\<close> with its TLS configuration,
  \<open>connect_to_master\<close> and \<open>reconnect\<close> with their attempts and growing pauses. The network, rustls and
  the certificates of the platform are the record \<open>dialer\<close>; a connection is a socket that already
  holds what the master is going to send.
\<close>

section \<open>TLS configuration\<close>

text \<open>
  \<open>handshake n roots name\<close> is the outcome of the TLS handshake on the \<open>n\<close>-th connection, with these
  trusted roots and this server name.
\<close>

record 'c dialer =
  tcp_dial :: "nat \<Rightarrow> string \<Rightarrow> string + sock"
  pem_certs :: "u8 list \<Rightarrow> string + 'c list"
  root_error :: "'c \<Rightarrow> string option"
  native_certs :: "'c list \<times> string list"
  is_server_name :: "string \<Rightarrow> bool"
  handshake :: "nat \<Rightarrow> 'c list \<Rightarrow> string \<Rightarrow> sock \<Rightarrow> string + sock"
  pem_files :: files

fun add_roots :: "'c dialer \<Rightarrow> 'c list \<Rightarrow> 'c list \<Rightarrow> 'c list result" where
  "add_roots D root_store [] = Inr root_store"
| "add_roots D root_store (cert # certs) =
     (case root_error D cert of
        Some e \<Rightarrow> Inl (Io e)
      | None \<Rightarrow> add_roots D (root_store @ [cert]) certs)"

definition add_pem :: "'c dialer \<Rightarrow> u8 list \<Rightarrow> 'c list result" where
  "add_pem D pem = (case pem_certs D pem of Inl e \<Rightarrow> Inl (Io e) | Inr certs \<Rightarrow> add_roots D [] certs)"

definition build_tls_config :: "'c dialer \<Rightarrow> string option \<Rightarrow> string option \<Rightarrow> 'c list result" where
  "build_tls_config D path cert =
     (case cert of
        Some pem_str \<Rightarrow> add_pem D (as_bytes pem_str)
      | None \<Rightarrow>
          (case path of
             Some p \<Rightarrow>
               (case pem_files D p of
                  None \<Rightarrow> Inl (Io (''failed to open CA certificate '' @ p))
                | Some text \<Rightarrow> add_pem D (as_bytes text))
           | None \<Rightarrow>
               (let (certs, errors) = native_certs D
                in if errors \<noteq> [] then Inl (Other ''could not load platform certs'')
                   else add_roots D [] certs)))"

text \<open>The client side of TLS on an open connection, towards the name \<open>ip\<close>.\<close>

definition tls_upgrade :: "'c dialer \<Rightarrow> nat \<Rightarrow> string option \<Rightarrow> string option \<Rightarrow> string \<Rightarrow> sock \<Rightarrow> sock result" where
  "tls_upgrade D n path cert ip tcp =
     (case build_tls_config D path cert of
        Inl e \<Rightarrow> Inl e
      | Inr roots \<Rightarrow>
          if \<not> is_server_name D ip then Inl (Other ''invalid dns name'')
          else (case handshake D n roots ip tcp of Inl e \<Rightarrow> Inl (Io e) | Inr tls \<Rightarrow> Inr tls))"

definition connect_node ::
  "'c dialer \<Rightarrow> nat \<Rightarrow> string \<Rightarrow> bool \<Rightarrow> string \<Rightarrow> string option \<Rightarrow> string option \<Rightarrow> sock result" where
  "connect_node D n addr local ip path cert =
     (case tcp_dial D n addr of
        Inl e \<Rightarrow> Inl (Io e)
      | Inr tcp \<Rightarrow> if local then Inr tcp else tls_upgrade D n path cert ip tcp)"

section \<open>One address\<close>

text \<open>\<open>JoinError\<close> is a \<open>?\<close>: it leaves the whole function; \<open>NotJoined\<close> goes on with the next address.\<close>

datatype joined = Joined sock | NotJoined | JoinError err

definition ask_peers :: "('a) serde_scheme \<Rightarrow> sock \<Rightarrow> joined" where
  "ask_peers J s =
     (case read_length_prefixed s of
        (Inl _, s1) \<Rightarrow> Joined s1
      | (Inr buf, s1) \<Rightarrow>
          (case from_slice J buf of
             Some (ConnectedNodes (peer # _)) \<Rightarrow>
               (case send_msg J (RequestConnection peer) s1 of
                  (Inl e, _) \<Rightarrow> JoinError e
                | (Inr _, s2) \<Rightarrow> Joined s2)
           | _ \<Rightarrow> Joined s1))"

definition authenticate :: "string \<Rightarrow> sock \<Rightarrow> bool result \<times> sock" where
  "authenticate token s =
     (case write_length_prefixed (as_bytes token) s of
        (Inl e, s1) \<Rightarrow> (Inl e, s1)
      | (Inr _, s1) \<Rightarrow>
          (case read_length_prefixed s1 of
             (Inl e, s2) \<Rightarrow> (Inl e, s2)
           | (Inr auth_response, s2) \<Rightarrow> (Inr (auth_response \<noteq> as_bytes ''Invalid token''), s2)))"

definition join_master :: "('a) serde_scheme \<Rightarrow> 'c dialer \<Rightarrow> JoinInfo \<Rightarrow> Config \<Rightarrow> nat \<Rightarrow> string \<Rightarrow> joined" where
  "join_master J D ji cfg n addr =
     (case connect_node D n addr (is_local_ip (join_ip ji)) (join_ip ji) (ca_cert_path cfg) (ca_cert cfg) of
        Inl _ \<Rightarrow> NotJoined
      | Inr s \<Rightarrow>
          (case authenticate (join_token ji) s of
             (Inl e, _) \<Rightarrow> JoinError e
           | (Inr False, _) \<Rightarrow> NotJoined
           | (Inr True, s1) \<Rightarrow>
               (case send_msg J (RegisterRole (cfg_role cfg)) s1 of
                  (Inl e, _) \<Rightarrow> JoinError e
                | (Inr _, s2) \<Rightarrow>
                    (case send_msg J GetConnectedNodes s2 of
                       (Inl e, _) \<Rightarrow> JoinError e
                     | (Inr _, s3) \<Rightarrow> ask_peers J s3))))"

text \<open>The results that are still open are sent again; a failure is only logged.\<close>

fun resend :: "('a) serde_scheme \<Rightarrow> NodeMessage list \<Rightarrow> sock \<Rightarrow> sock" where
  "resend J [] s = s"
| "resend J (msg # msgs) s = resend J msgs (snd (send_msg J msg s))"

definition rejoin_master ::
  "('a) serde_scheme \<Rightarrow> 'c dialer \<Rightarrow> JoinInfo \<Rightarrow> Config \<Rightarrow> NodeMessage list \<Rightarrow> nat \<Rightarrow> string \<Rightarrow> joined" where
  "rejoin_master J D ji cfg open_msgs n addr =
     (case connect_node D n addr (is_local_ip (join_ip ji)) (join_ip ji) (ca_cert_path cfg) (ca_cert cfg) of
        Inl _ \<Rightarrow> NotJoined
      | Inr s \<Rightarrow>
          (case authenticate (join_token ji) s of
             (Inl e, _) \<Rightarrow> JoinError e
           | (Inr False, _) \<Rightarrow> NotJoined
           | (Inr True, s1) \<Rightarrow>
               (case send_msg J GetConnectedNodes s1 of
                  (Inl _, s2) \<Rightarrow> Joined (resend J open_msgs s2)
                | (Inr _, s2) \<Rightarrow> Joined (resend J open_msgs (snd (read_length_prefixed s2))))))"

section \<open>Attempts\<close>

text \<open>All addresses in their order; the connections are numbered by \<open>n\<close>.\<close>

fun try_addresses :: "(nat \<Rightarrow> string \<Rightarrow> joined) \<Rightarrow> string list \<Rightarrow> nat \<Rightarrow> joined \<times> nat" where
  "try_addresses f [] n = (NotJoined, n)"
| "try_addresses f (addr # addrs) n =
     (case f n addr of
        NotJoined \<Rightarrow> try_addresses f addrs (Suc n)
      | r \<Rightarrow> (r, Suc n))"

text \<open>The delay after \<open>k\<close> doublings, in milliseconds; a \<open>Duration\<close> holds fewer than 2^64 seconds.\<close>

definition delay_ms :: "nat \<Rightarrow> nat" where
  "delay_ms k = 100 * 2 ^ k"

definition duration_fits :: "nat \<Rightarrow> bool" where
  "duration_fits ms \<longleftrightarrow> ms < 1000 * 2 ^ 64"

datatype joining = Online sock | Aborted err | GaveUp | Overflow

lemma duration_fits_delay: "duration_fits (delay_ms k) \<longleftrightarrow> k \<le> 67"
proof
  assume "duration_fits (delay_ms k)"
  then have "(2 :: nat) ^ k < 2 ^ 68" by (simp add: duration_fits_def delay_ms_def)
  then have "k < 68" by (rule power_less_imp_less_exp [rotated]) simp
  then show "k \<le> 67" by simp
next
  assume "k \<le> 67"
  then have "(2 :: nat) ^ k \<le> 2 ^ 67" by (intro power_increasing) simp_all
  then show "duration_fits (delay_ms k)" by (simp add: duration_fits_def delay_ms_def)
qed

text \<open>
  The loop: a round over the addresses, then the count of attempts, the pause and its doubling, which
  panics when the duration overflows. The pauses taken are part of the result.
\<close>

function retry :: "(nat \<Rightarrow> string \<Rightarrow> joined) \<Rightarrow> string list \<Rightarrow> u32 \<Rightarrow> u32 \<Rightarrow> nat \<Rightarrow> nat \<Rightarrow> joining \<times> nat \<times> nat list" where
  "retry f addrs limit attempt k n =
     (case try_addresses f addrs n of
        (Joined s, n1) \<Rightarrow> (Online s, n1, [])
      | (JoinError e, n1) \<Rightarrow> (Aborted e, n1, [])
      | (NotJoined, n1) \<Rightarrow>
          (if limit < attempt + 1 then (GaveUp, n1, [])
           else if \<not> duration_fits (delay_ms (Suc k)) then (Overflow, n1, [delay_ms k])
           else (let (r, n2, slept) = retry f addrs limit (attempt + 1) (Suc k) n1
                 in (r, n2, delay_ms k # slept))))"
  by pat_completeness auto
termination
  by (relation "measure (\<lambda>(f, addrs, limit, attempt, k, n). 68 - k)") (auto simp: duration_fits_delay)

declare retry.simps [simp del]

text \<open>The function's own error or the error of a \<open>?\<close>; \<open>None\<close> is the panic of the doubling.\<close>

definition joining_result :: "string \<Rightarrow> joining \<Rightarrow> sock result option" where
  "joining_result msg r =
     (case r of
        Online s \<Rightarrow> Some (Inr s)
      | Aborted e \<Rightarrow> Some (Inl e)
      | GaveUp \<Rightarrow> Some (Inl (Other msg))
      | Overflow \<Rightarrow> None)"

definition connect_to_master ::
  "('a) serde_scheme \<Rightarrow> 'c dialer \<Rightarrow> JoinInfo \<Rightarrow> Config \<Rightarrow> nat \<Rightarrow> sock result option \<times> nat \<times> nat list" where
  "connect_to_master J D ji cfg n =
     (case retry (join_master J D ji cfg) (master_addresses cfg) (max_retries cfg) 0 0 n of
        (r, n1, slept) \<Rightarrow> (joining_result ''Unable to connect to any master node'' r, n1, slept))"

definition reconnect ::
  "('a) serde_scheme \<Rightarrow> hash_order \<Rightarrow> 'c dialer \<Rightarrow> JoinInfo \<Rightarrow> Config \<Rightarrow> NodeMessage hmap \<Rightarrow> nat
     \<Rightarrow> sock result option \<times> nat \<times> nat list" where
  "reconnect J ord D ji cfg open_tasks n =
     (case retry (rejoin_master J D ji cfg (map snd (hm_iter ord open_tasks)))
             (master_addresses cfg) (max_retries cfg) 0 0 n of
        (r, n1, slept) \<Rightarrow> (joining_result ''Unable to reconnect to any master node'' r, n1, slept))"

section \<open>How long the attempts go on\<close>

lemma try_addresses_count:
  assumes "try_addresses f addrs n = (r, n1)"
  shows "n \<le> n1" and "n1 \<le> n + length addrs"
    and "r = NotJoined \<longleftrightarrow> (\<forall>i < length addrs. f (n + i) (addrs ! i) = NotJoined)"
    and "r = NotJoined \<Longrightarrow> n1 = n + length addrs"
proof -
  have "n \<le> n1 \<and> n1 \<le> n + length addrs
    \<and> (r = NotJoined \<longleftrightarrow> (\<forall>i < length addrs. f (n + i) (addrs ! i) = NotJoined))
    \<and> (r = NotJoined \<longrightarrow> n1 = n + length addrs)"
    using assms
  proof (induction addrs arbitrary: n)
    case (Cons addr addrs)
    show ?case
    proof (cases "f n addr = NotJoined")
      case True
      with Cons.prems have "try_addresses f addrs (Suc n) = (r, n1)" by simp
      from Cons.IH [OF this] True show ?thesis by (auto simp: less_Suc_eq_0_disj)
    next
      case False
      with Cons.prems show ?thesis by (auto split: joined.splits)
    qed
  qed simp
  then show "n \<le> n1" and "n1 \<le> n + length addrs"
    and "r = NotJoined \<longleftrightarrow> (\<forall>i < length addrs. f (n + i) (addrs ! i) = NotJoined)"
    and "r = NotJoined \<Longrightarrow> n1 = n + length addrs" by blast+
qed

lemma attempt_test:
  fixes limit :: u32
  assumes "k \<le> 67"
  shows "limit < word_of_nat k + 1 \<longleftrightarrow> unat limit \<le> k"
proof -
  have "word_of_nat k + 1 = (word_of_nat (Suc k) :: u32)" by simp
  moreover have "unat (word_of_nat (Suc k) :: u32) = Suc k" using assms by (simp add: unat_of_nat del: of_nat_Suc)
  ultimately show ?thesis by (simp only: word_less_nat_alt less_Suc_eq_le)
qed

text \<open>One round of the loop, by the outcome of the addresses.\<close>

lemma retry_cases:
  assumes "retry f addrs limit (word_of_nat k) k n = (r, n1, slept)" and "k \<le> 67"
  obtains (online) s where "try_addresses f addrs n = (Joined s, n1)" "r = Online s" "slept = []"
  | (aborted) e where "try_addresses f addrs n = (JoinError e, n1)" "r = Aborted e" "slept = []"
  | (gave_up) "try_addresses f addrs n = (NotJoined, n1)" "unat limit \<le> k" "r = GaveUp" "slept = []"
  | (overflow) "try_addresses f addrs n = (NotJoined, n1)" "k < unat limit" "k = 67" "r = Overflow" "slept = [delay_ms k]"
  | (again) n2 slept' where "try_addresses f addrs n = (NotJoined, n2)" "k < unat limit" "Suc k \<le> 67"
      "retry f addrs limit (word_of_nat (Suc k)) (Suc k) n2 = (r, n1, slept')" "slept = delay_ms k # slept'"
proof -
  obtain t n2 where t: "try_addresses f addrs n = (t, n2)" by (cases "try_addresses f addrs n")
  have w: "word_of_nat k + 1 = (word_of_nat (Suc k) :: u32)" by simp
  note eq = assms(1) [unfolded retry.simps [of f addrs limit "word_of_nat k" k n] t, simplified attempt_test [OF assms(2)] duration_fits_delay]
  show thesis
  proof (cases t)
    case (Joined s)
    with eq t that(1) show thesis by simp
  next
    case (JoinError e)
    with eq t that(2) show thesis by simp
  next
    case NotJoined
    consider "unat limit \<le> k" | "k < unat limit" "k = 67" | "k < unat limit" "Suc k \<le> 67" using assms(2) by linarith
    then show thesis
    proof cases
      case 1
      with eq t NotJoined that(3) show thesis by simp
    next
      case 2
      with eq t NotJoined that(4) show thesis by simp
    next
      case 3
      obtain r' n' sl where rec: "retry f addrs limit (word_of_nat (Suc k)) (Suc k) n2 = (r', n', sl)"
        by (cases "retry f addrs limit (word_of_nat (Suc k)) (Suc k) n2")
      from eq NotJoined 3 have "(r, n1, slept) =
          (case retry f addrs limit (word_of_nat (Suc k)) (Suc k) n2 of (r, n2, slept) \<Rightarrow> (r, n2, delay_ms k # slept))"
        unfolding w by (simp add: Let_def)
      with rec have "r = r'" "n1 = n'" "slept = delay_ms k # sl" by simp_all
      with rec t NotJoined 3 that(5) show thesis by simp
    qed
  qed
qed

lemma retry_bounds:
  assumes "retry f addrs limit (word_of_nat k) k n = (r, n1, slept)" and "k \<le> 67" and "k \<le> unat limit"
  shows "n1 \<le> n + (min (Suc (unat limit)) 68 - k) * length addrs
    \<and> slept = map delay_ms [k ..< k + length slept] \<and> k + length slept \<le> min (unat limit) 68
    \<and> (r = Overflow \<longrightarrow> 68 \<le> unat limit)"
  using assms
proof (induction "68 - k" arbitrary: k n slept rule: less_induct)
  case less
  have "0 < min (Suc (unat limit)) 68 - k" using less.prems by simp
  then have one: "length addrs \<le> (min (Suc (unat limit)) 68 - k) * length addrs"
    by (cases "min (Suc (unat limit)) 68 - k") simp_all
  have first: "n2 \<le> n + (min (Suc (unat limit)) 68 - k) * length addrs" if "try_addresses f addrs n = (t, n2)" for t n2
    using try_addresses_count(2) [OF that] one by linarith
  from less.prems(1,2) show ?case
  proof (cases rule: retry_cases)
    case (again n2 slept')
    from try_addresses_count(2) [OF again(1)] have n2: "n2 \<le> n + length addrs" .
    have IH: "n1 \<le> n2 + (min (Suc (unat limit)) 68 - Suc k) * length addrs
        \<and> slept' = map delay_ms [Suc k ..< Suc k + length slept'] \<and> Suc k + length slept' \<le> min (unat limit) 68
        \<and> (r = Overflow \<longrightarrow> 68 \<le> unat limit)"
      using less.hyps [of "Suc k" n2 slept'] again(2-4) by simp
    define rounds where "rounds = min (Suc (unat limit)) 68 - Suc k"
    have rounds: "min (Suc (unat limit)) 68 - k = Suc rounds" using again(2,3) by (simp add: rounds_def)
    have "slept = map delay_ms (k # [Suc k ..< Suc k + length slept'])" using IH again(5) by simp
    also have "k # [Suc k ..< Suc k + length slept'] = [k ..< k + length slept]"
      using upt_conv_Cons [of k "Suc k + length slept'"] by (simp add: again(5))
    finally have "slept = map delay_ms [k ..< k + length slept]" .
    with IH n2 again(5) show ?thesis unfolding rounds by (simp add: rounds_def)
  qed (use less.prems in \<open>auto dest!: first\<close>)
qed

lemma all_less_add: "(\<forall>i < m + n :: nat. P i) \<longleftrightarrow> (\<forall>i < m. P i) \<and> (\<forall>i < n. P (m + i))"
  by (metis add.commute add_diff_inverse_nat less_diff_conv nat_add_left_cancel_less trans_less_add1)

lemma retry_gives_up:
  assumes "retry f addrs limit (word_of_nat k) k n = (r, n1, slept)" and "k \<le> 67" and "k \<le> unat limit"
  shows "(r = GaveUp \<longleftrightarrow> unat limit \<le> 67
      \<and> (\<forall>i < (Suc (unat limit) - k) * length addrs. f (n + i) (addrs ! (i mod length addrs)) = NotJoined))
    \<and> (r = GaveUp \<longrightarrow> n1 = n + (Suc (unat limit) - k) * length addrs \<and> length slept = unat limit - k)"
  using assms
proof (induction "68 - k" arbitrary: k n slept rule: less_induct)
  case less
  let ?P = "\<lambda>n i. f (n + i) (addrs ! (i mod length addrs)) = NotJoined"
  have split: "(\<forall>i < (Suc (unat limit) - k) * length addrs. ?P n i) \<longleftrightarrow>
      (\<forall>i < length addrs. f (n + i) (addrs ! i) = NotJoined)
      \<and> (\<forall>i < (unat limit - k) * length addrs. ?P (n + length addrs) i)"
    using less.prems(3) by (simp add: Suc_diff_le all_less_add add.assoc)
  from less.prems(1,2) show ?case
  proof (cases rule: retry_cases)
    case (online s)
    then show ?thesis unfolding split using try_addresses_count(3) [of f addrs n] by (metis joined.distinct(1) joining.distinct(3))
  next
    case (aborted e)
    then show ?thesis unfolding split using try_addresses_count(3) [of f addrs n] by (metis joined.distinct(5) joining.distinct(7))
  next
    case gave_up
    with less.prems show ?thesis unfolding split using try_addresses_count(3,4) [OF gave_up(1)] by simp
  next
    case overflow
    then show ?thesis by simp
  next
    case (again n2 slept')
    note first = try_addresses_count(3) [OF again(1)] try_addresses_count(4) [OF again(1) refl]
    define later where "later \<longleftrightarrow> (\<forall>i < (unat limit - k) * length addrs. ?P (n + length addrs) i)"
    from first have n2: "n2 = n + length addrs" and now: "\<forall>i < length addrs. f (n + i) (addrs ! i) = NotJoined" by auto
    have "(r = GaveUp \<longleftrightarrow> unat limit \<le> 67
          \<and> (\<forall>i < (Suc (unat limit) - Suc k) * length addrs. ?P n2 i))
        \<and> (r = GaveUp \<longrightarrow> n1 = n2 + (Suc (unat limit) - Suc k) * length addrs \<and> length slept' = unat limit - Suc k)"
      by (rule less.hyps [OF _ again(4,3)]) (use again(2,3) in simp_all)
    then have IH: "r = GaveUp \<longleftrightarrow> unat limit \<le> 67 \<and> later"
        "r = GaveUp \<longrightarrow> n1 = n2 + (unat limit - k) * length addrs \<and> length slept' = unat limit - Suc k"
      unfolding n2 later_def diff_Suc_Suc by blast+
    have len: "length slept' = unat limit - Suc k \<Longrightarrow> length slept = unat limit - k"
      using again(2,5) by simp
    have "Suc (unat limit) - k = Suc (unat limit - k)" using less.prems(3) by simp
    then have total: "n + (Suc (unat limit) - k) * length addrs = n2 + (unat limit - k) * length addrs" by (simp add: n2)
    from now IH len show ?thesis unfolding split total later_def [symmetric] by blast
  qed
qed

definition unreachable :: "('a) serde_scheme \<Rightarrow> 'c dialer \<Rightarrow> JoinInfo \<Rightarrow> Config \<Rightarrow> nat \<Rightarrow> nat \<Rightarrow> bool" where
  "unreachable J D ji cfg n rounds \<longleftrightarrow>
     (\<forall>i < rounds * length (master_addresses cfg).
        join_master J D ji cfg (n + i) (master_addresses cfg ! (i mod length (master_addresses cfg))) = NotJoined)"


definition dead_dialer :: "unit dialer" where
  "dead_dialer =
     \<lparr>tcp_dial = (\<lambda>_ _. Inl ''refused''), pem_certs = (\<lambda>_. Inl ''''), root_error = (\<lambda>_. None), native_certs = ([], []),
      is_server_name = (\<lambda>_. True), handshake = (\<lambda>_ _ _ _. Inl ''''), pem_files = Map.empty\<rparr>"


text \<open>
  C18: the attempts do not survive a master that accepts the connection and closes it before it has
  answered the token, as one does that is about to stop: the error ends the whole function, whatever
  \<open>max_retries\<close> is, and the addresses after it are never tried. The same holds for \<open>reconnect\<close>.
\<close>

theorem dropped_handshake_aborts:
  assumes "master_addresses cfg = pre @ addr # post"
    and "\<forall>i < length pre. \<exists>e. tcp_dial D (n + i) (pre ! i) = Inl e"
    and "connect_node D (n + length pre) addr (is_local_ip (join_ip ji)) (join_ip ji) (ca_cert_path cfg) (ca_cert cfg) = Inr s"
    and "inp s = []"
  shows "\<exists>e. connect_to_master J D ji cfg n = (Some (Inl e), n + length pre + 1, [])
    \<and> reconnect J ord D ji cfg open_tasks n = (Some (Inl e), n + length pre + 1, [])"
proof -
  have closed: "fst (read_length_prefixed t) = Inl (Io ''early eof'')" if "inp t = []" for t
    using that by (simp add: read_length_prefixed_def read_exact_def)
  have auth: "\<exists>e t. authenticate (join_token ji) s = (Inl e, t)"
    using closed [of "snd (write_length_prefixed (as_bytes (join_token ji)) s)"] assms(4)
    by (auto simp: authenticate_def split: prod.splits sum.splits)
  then obtain e where e: "join_master J D ji cfg (n + length pre) addr = JoinError e"
    "rejoin_master J D ji cfg ms (n + length pre) addr = JoinError e" for ms
    using assms(3) by (auto simp: join_master_def rejoin_master_def)
  have skip: "try_addresses f (pre @ addr # post) n = (JoinError e, Suc (n + length pre))"
    if "\<forall>i < length pre. f (n + i) (pre ! i) = NotJoined" "f (n + length pre) addr = JoinError e" for f
    using that
  proof (induction pre arbitrary: n)
    case (Cons a pre)
    then have "f n a = NotJoined" by auto
    moreover have "try_addresses f (pre @ addr # post) (Suc n) = (JoinError e, Suc (Suc n + length pre))"
      using Cons.prems by (intro Cons.IH) auto
    ultimately show ?case by simp
  qed simp
  have refused: "\<forall>i < length pre. join_master J D ji cfg (n + i) (pre ! i) = NotJoined"
    "\<forall>i < length pre. rejoin_master J D ji cfg ms (n + i) (pre ! i) = NotJoined" for ms
    using assms(2) by (auto simp: join_master_def rejoin_master_def connect_node_def split: sum.splits)
  show ?thesis
    using skip [OF refused(1) e(1)] skip [OF refused(2) e(2)]
    by (auto simp: connect_to_master_def reconnect_def assms(1) retry.simps joining_result_def)
qed

theorem dropped_handshake_aborts_witness:
  "\<exists>e. connect_to_master \<lparr>to_vec = (\<lambda>_. None), from_slice = (\<lambda>_. None)\<rparr>
         (dead_dialer\<lparr>tcp_dial := (\<lambda>n _. if n = 1 then Inr \<lparr>inp = [], out = [], room = None\<rparr> else Inl ''refused'')\<rparr>)
         \<lparr>join_token = ''t'', join_ip = ''10.0.0.1'', join_port = 7\<rparr>
         (Config_default\<lparr>master_addresses := [''a'', ''b'', ''c'']\<rparr>) 0 = (Some (Inl e), 2, [])"
proof -
  let ?D = "dead_dialer\<lparr>tcp_dial := (\<lambda>n _. if n = 1 then Inr \<lparr>inp = [], out = [], room = None\<rparr> else Inl ''refused'')\<rparr>"
  let ?c = "Config_default\<lparr>master_addresses := [''a'', ''b'', ''c'']\<rparr>"
    and ?j = "\<lparr>join_token = ''t'', join_ip = ''10.0.0.1'', join_port = 7\<rparr>"
  have local: "is_local_ip ''10.0.0.1''" by code_simp
  have c: "master_addresses ?c = [''a''] @ ''b'' # [''c'']" by simp
  have r: "\<forall>i < length [''a'']. \<exists>e. tcp_dial ?D (0 + i) ([''a''] ! i) = Inl e" by simp
  have d: "connect_node ?D (0 + length [''a'']) ''b'' (is_local_ip (join_ip ?j)) (join_ip ?j) (ca_cert_path ?c) (ca_cert ?c)
      = Inr \<lparr>inp = [], out = [], room = None\<rparr>"
    by (simp add: connect_node_def local)
  have "sock.inp \<lparr>inp = [], out = [], room = None\<rparr> = []" by simp
  from dropped_handshake_aborts [OF c r d this, of "\<lparr>to_vec = (\<lambda>_. None), from_slice = (\<lambda>_. None)\<rparr>"]
  show ?thesis by (auto simp: numeral_2_eq_2)
qed

end
