(* ===== verification/NodeLoop.thy ===== *)
theory NodeLoop
  imports NodeConn
begin

text \<open>
  The main loop of a node (CPCluster_node/src/node.rs): \<open>heartbeat_loop\<close> as a step for each outcome
  of its \<open>select!\<close>, and \<open>handle_connection\<close>, the direct connections to other nodes, which run beside
  it and share the open results and the stores. Everything a step meets outside, the order of a map
  and the outcomes of network calls, comes with the step.
\<close>

section \<open>State\<close>

text \<open>
  \<open>nd_dials\<close> numbers the connections, \<open>nd_calls\<close> holds the direct connections that were announced and
  not established yet, \<open>nd_direct\<close> the established ones.
\<close>

record ('m, 'u) node_state =
  nd_stream :: sock
  open_tasks :: "NodeMessage hmap"
  nd_res :: "('m, 'u) node_res"
  nd_dials :: nat
  nd_calls :: "(string \<times> u16) list"
  nd_direct :: "sock list"

text \<open>The loop goes on, was left for good, or the process panicked.\<close>

datatype course = Running | Left | Crashed

section \<open>A task\<close>

text \<open>
  Executed, recorded as open, sent, and struck off when the send succeeded; the same code serves the
  master and the direct connections. \<open>Crashed\<close> is a panic of the task.
\<close>

definition perform_task ::
  "('j) serde_scheme \<Rightarrow> ('r, 'a, 'u, 'm, 'c) node_world \<Rightarrow> string \<Rightarrow> string \<Rightarrow> Task \<Rightarrow> sock \<Rightarrow> NodeMessage hmap
     \<Rightarrow> ('m, 'u) node_res \<Rightarrow> course \<times> sock \<times> NodeMessage hmap \<times> ('m, 'u) node_res" where
  "perform_task J W sd tid t s tasks n =
     (case execute_node_task W sd t n of
        (Panicked, n1) \<Rightarrow> (Crashed, s, tasks, n1)
      | (Done result, n1) \<Rightarrow>
          (let msg = TaskResultMsg tid result;
               tasks1 = hm_insert tid msg tasks
           in case send_msg J msg s of
                (Inr _, s1) \<Rightarrow> (Running, s1, hm_remove tid tasks1, n1)
              | (Inl _, s1) \<Rightarrow> (Running, s1, tasks1, n1)))"

section \<open>The loop\<close>

definition recover ::
  "('j) serde_scheme \<Rightarrow> hash_order \<Rightarrow> 'd dialer \<Rightarrow> JoinInfo \<Rightarrow> Config \<Rightarrow> ('m, 'u) node_state \<Rightarrow> course \<times> ('m, 'u) node_state" where
  "recover J ord D ji cfg st =
     (case reconnect J ord D ji cfg (open_tasks st) (nd_dials st) of
        (Some (Inr s), k, _) \<Rightarrow> (Running, st\<lparr>nd_stream := s, nd_dials := k\<rparr>)
      | (Some (Inl _), k, _) \<Rightarrow> (Left, st\<lparr>nd_dials := k\<rparr>)
      | (None, k, _) \<Rightarrow> (Crashed, st\<lparr>nd_dials := k\<rparr>))"

fun dispatch ::
  "('j) serde_scheme \<Rightarrow> ('r, 'a, 'u, 'm, 'c) node_world \<Rightarrow> Config \<Rightarrow> NodeMessage \<Rightarrow> ('m, 'u) node_state \<Rightarrow> course \<times> ('m, 'u) node_state" where
  "dispatch J W cfg (ConnectionInfo peer port) st = (Running, st\<lparr>nd_calls := nd_calls st @ [(peer, port)]\<rparr>)"
| "dispatch J W cfg (AssignTask tid t) st =
     (case perform_task J W (storage_dir cfg) tid t (nd_stream st) (open_tasks st) (nd_res st) of
        (c, s, tasks, n) \<Rightarrow> (c, st\<lparr>nd_stream := s, open_tasks := tasks, nd_res := n\<rparr>))"
| "dispatch J W cfg _ st = (Running, st)"

text \<open>
  The tick drops the pending \<open>read_length_prefixed\<close>, which may have taken \<open>n\<close> bytes of the next message
  from the stream already; they are gone.
\<close>

definition drop_read :: "nat \<Rightarrow> sock \<Rightarrow> sock" where
  "drop_read n s = s\<lparr>inp := drop n (inp s)\<rparr>"

definition read_pending :: "nat \<Rightarrow> sock \<Rightarrow> bool" where
  "read_pending n s \<longleftrightarrow>
     n \<le> length (inp s) \<and> (case fst (read_length_prefixed (s\<lparr>inp := take n (inp s)\<rparr>)) of Inl _ \<Rightarrow> True | Inr _ \<Rightarrow> False)"

definition hb_tick ::
  "('j) serde_scheme \<Rightarrow> hash_order \<Rightarrow> 'd dialer \<Rightarrow> JoinInfo \<Rightarrow> Config \<Rightarrow> nat \<Rightarrow> ('m, 'u) node_state \<Rightarrow> course \<times> ('m, 'u) node_state" where
  "hb_tick J ord D ji cfg n st =
     (case send_msg J Heartbeat (drop_read n (nd_stream st)) of
        (Inr _, s) \<Rightarrow> (Running, st\<lparr>nd_stream := s\<rparr>)
      | (Inl _, s) \<Rightarrow> recover J ord D ji cfg (st\<lparr>nd_stream := s\<rparr>))"

definition hb_read ::
  "('j) serde_scheme \<Rightarrow> hash_order \<Rightarrow> ('r, 'a, 'u, 'm, 'c) node_world \<Rightarrow> 'd dialer \<Rightarrow> JoinInfo \<Rightarrow> Config \<Rightarrow> ('m, 'u) node_state
     \<Rightarrow> course \<times> ('m, 'u) node_state" where
  "hb_read J ord W D ji cfg st =
     (case read_length_prefixed (nd_stream st) of
        (Inl _, s) \<Rightarrow> recover J ord D ji cfg (st\<lparr>nd_stream := s\<rparr>)
      | (Inr buf, s) \<Rightarrow>
          (case from_slice J buf of
             Some msg \<Rightarrow> dispatch J W cfg msg (st\<lparr>nd_stream := s\<rparr>)
           | None \<Rightarrow> (Running, st\<lparr>nd_stream := s\<rparr>)))"

section \<open>Direct connections\<close>

text \<open>What the race between calling and being called ends with; \<open>Nobody\<close> when both have failed.\<close>

datatype meeting = Bind_error string | Called sock | Was_called sock | Nobody

definition direct_addr :: "string \<Rightarrow> u16 \<Rightarrow> string" where
  "direct_addr peer port = peer @ '':'' @ show_nat (unat port)"

text \<open>\<open>None\<close> is the panic of a \<open>select!\<close> without a branch left.\<close>

definition direct_connect ::
  "'d dialer \<Rightarrow> nat \<Rightarrow> (string \<Rightarrow> u16 \<Rightarrow> meeting) \<Rightarrow> Config \<Rightarrow> string \<Rightarrow> u16 \<Rightarrow> sock result option" where
  "direct_connect D n meet cfg peer port =
     (let use_tls = \<not> is_local_ip peer;
          upgrade = (\<lambda>s. if use_tls then tls_upgrade D n (ca_cert_path cfg) (ca_cert cfg) peer s else Inr s)
      in case meet (direct_addr peer port) port of
           Bind_error e \<Rightarrow> Some (Inl (Io e))
         | Called s \<Rightarrow> Some (upgrade s)
         | Was_called s \<Rightarrow> Some (upgrade s)
         | Nobody \<Rightarrow> None)"

text \<open>One message on a direct connection; \<open>Left\<close> when the other side is gone.\<close>

definition direct_round ::
  "('j) serde_scheme \<Rightarrow> ('r, 'a, 'u, 'm, 'c) node_world \<Rightarrow> string \<Rightarrow> sock \<Rightarrow> NodeMessage hmap \<Rightarrow> ('m, 'u) node_res
     \<Rightarrow> course \<times> sock \<times> NodeMessage hmap \<times> ('m, 'u) node_res" where
  "direct_round J W sd s tasks n =
     (case read_length_prefixed s of
        (Inl _, s1) \<Rightarrow> (Left, s1, tasks, n)
      | (Inr buf, s1) \<Rightarrow>
          (case from_slice J buf of
             Some (AssignTask tid t) \<Rightarrow> perform_task J W sd tid t s1 tasks n
           | _ \<Rightarrow> (Running, s1, tasks, n)))"

section \<open>Runs\<close>

text \<open>
  What happens next: the interval ticks, the stream of the master is ready, the \<open>i\<close>-th announced
  connection is established or fails, the \<open>i\<close>-th direct connection has a message or is over. A panic
  in a direct connection ends its task only.
\<close>

datatype node_event = Tick nat | Ready | Meet nat "string \<Rightarrow> u16 \<Rightarrow> meeting" | Direct nat

fun remove_nth :: "nat \<Rightarrow> 'a list \<Rightarrow> 'a list" where
  "remove_nth i xs = take i xs @ drop (Suc i) xs"

fun node_step ::
  "('j) serde_scheme \<Rightarrow> 'd dialer \<Rightarrow> JoinInfo \<Rightarrow> Config \<Rightarrow> hash_order \<times> ('r, 'a, 'u, 'm, 'c) node_world \<times> node_event
     \<Rightarrow> ('m, 'u) node_state \<Rightarrow> course \<times> ('m, 'u) node_state" where
  "node_step J D ji cfg (ord, W, Tick n) st = hb_tick J ord D ji cfg n st"
| "node_step J D ji cfg (ord, W, Ready) st = hb_read J ord W D ji cfg st"
| "node_step J D ji cfg (ord, W, Meet i meet) st =
     (if i < length (nd_calls st)
      then (let (peer, port) = nd_calls st ! i;
                st1 = st\<lparr>nd_calls := remove_nth i (nd_calls st), nd_dials := Suc (nd_dials st)\<rparr>
            in case direct_connect D (nd_dials st) meet cfg peer port of
                 Some (Inr s) \<Rightarrow> (Running, st1\<lparr>nd_direct := nd_direct st @ [s]\<rparr>)
               | _ \<Rightarrow> (Running, st1))
      else (Running, st))"
| "node_step J D ji cfg (ord, W, Direct i) st =
     (if i < length (nd_direct st)
      then (case direct_round J W (storage_dir cfg) (nd_direct st ! i) (open_tasks st) (nd_res st) of
              (Running, s, tasks, n) \<Rightarrow>
                (Running, st\<lparr>nd_direct := (nd_direct st)[i := s], open_tasks := tasks, nd_res := n\<rparr>)
            | (_, _, tasks, n) \<Rightarrow>
                (Running, st\<lparr>nd_direct := remove_nth i (nd_direct st), open_tasks := tasks, nd_res := n\<rparr>))
      else (Running, st))"

fun node_steps ::
  "('j) serde_scheme \<Rightarrow> 'd dialer \<Rightarrow> JoinInfo \<Rightarrow> Config \<Rightarrow> (hash_order \<times> ('r, 'a, 'u, 'm, 'c) node_world \<times> node_event) list
     \<Rightarrow> ('m, 'u) node_state \<Rightarrow> course \<times> ('m, 'u) node_state" where
  "node_steps J D ji cfg [] st = (Running, st)"
| "node_steps J D ji cfg (ev # evs) st =
     (case node_step J D ji cfg ev st of
        (Running, st1) \<Rightarrow> node_steps J D ji cfg evs st1
      | (c, st1) \<Rightarrow> (c, st1))"

section \<open>Start and end\<close>

definition node_disk :: "path \<Rightarrow> Config \<Rightarrow> fsys \<Rightarrow> DiskStore option \<times> fsys" where
  "node_disk cwd cfg fs =
     (if cfg_role cfg = Disk
      then (let (ds, fs1) = disk_store_new cwd (storage_dir cfg) (disk_space_mb cfg) fs in (Some ds, fs1))
      else (None, fs))"

definition node_inet :: "(u16 \<Rightarrow> u16 option option) \<Rightarrow> (u16 \<Rightarrow> 'u option) \<Rightarrow> Config \<Rightarrow> 'u InternetPorts option" where
  "node_inet bind_tcp bind_udp cfg =
     (if cfg_role cfg = Internet
      then (case cfg_internet_ports cfg of
              Some ports \<Rightarrow> Some (bind_ports bind_tcp bind_udp ports)
            | None \<Rightarrow> Some (bind_ports bind_tcp bind_udp []))
      else None)"

text \<open>The part before the loop; \<open>None\<close> is the panic of an interval of zero milliseconds.\<close>

definition node_start ::
  "('j) serde_scheme \<Rightarrow> path \<Rightarrow> (u16 \<Rightarrow> u16 option option) \<Rightarrow> (u16 \<Rightarrow> 'u option) \<Rightarrow> Config \<Rightarrow> 'm \<Rightarrow> fsys \<Rightarrow> sock \<Rightarrow> nat
     \<Rightarrow> ('m, 'u) node_state option" where
  "node_start J cwd bind_tcp bind_udp cfg memory fs s k =
     (let (ds, fs1) = node_disk cwd cfg fs;
          inet = node_inet bind_tcp bind_udp cfg
      in if cfg_failover_timeout_ms cfg div 2 = 0 then None
         else Some \<lparr>nd_stream = snd (send_msg J Heartbeat s), open_tasks = [],
                    nd_res = \<lparr>nr_fs = fs1, nr_mem = memory, nr_disk = ds, nr_inet = inet\<rparr>,
                    nd_dials = k, nd_calls = [], nd_direct = []\<rparr>)"

definition node_leave :: "('j) serde_scheme \<Rightarrow> ('m, 'u) node_state \<Rightarrow> ('m, 'u) node_state" where
  "node_leave J st = st\<lparr>nd_stream := snd (send_msg J Disconnect (nd_stream st))\<rparr>"

text \<open>
  \<open>run\<close>: the connection, the start, the events; the result is \<open>None\<close> for a panic, an error when no
  master could be joined, and otherwise the state in which the loop was left or still is.
\<close>

definition run_node ::
  "('j) serde_scheme \<Rightarrow> 'd dialer \<Rightarrow> JoinInfo \<Rightarrow> Config \<Rightarrow> path \<Rightarrow> (u16 \<Rightarrow> u16 option option) \<Rightarrow> (u16 \<Rightarrow> 'u option)
     \<Rightarrow> 'm \<Rightarrow> fsys \<Rightarrow> (hash_order \<times> ('r, 'a, 'u, 'm, 'c) node_world \<times> node_event) list
     \<Rightarrow> (course \<times> ('m, 'u) node_state) result option" where
  "run_node J D ji cfg cwd bind_tcp bind_udp memory fs evs =
     (case connect_to_master J D ji cfg 0 of
        (None, _, _) \<Rightarrow> None
      | (Some (Inl e), _, _) \<Rightarrow> Some (Inl e)
      | (Some (Inr s), k, _) \<Rightarrow>
          (case node_start J cwd bind_tcp bind_udp cfg memory fs s k of
             None \<Rightarrow> None
           | Some st \<Rightarrow>
               (case node_steps J D ji cfg evs st of
                  (Left, st1) \<Rightarrow> Some (Inr (Left, node_leave J st1))
                | (Crashed, _) \<Rightarrow> None
                | (Running, st1) \<Rightarrow> Some (Inr (Running, st1)))))"

end
