(* ===== verification/NodeLoopProps.thy ===== *)
theory NodeLoopProps
  imports NodeLoop
begin

text \<open>
  What the loop of a node keeps: the kind of its resources and of its open results, results that
  could not be sent, and what a reconnect and a cancelled read do to the stream.
\<close>

section \<open>The resources of a node\<close>

definition same_res :: "('m, 'u) node_res \<Rightarrow> ('m, 'u) node_res \<Rightarrow> bool" where
  "same_res n n' \<longleftrightarrow>
     map_option ds_dir (nr_disk n') = map_option ds_dir (nr_disk n)
     \<and> map_option quota_bytes (nr_disk n') = map_option quota_bytes (nr_disk n)
     \<and> map_option ip_tcp (nr_inet n') = map_option ip_tcp (nr_inet n)
     \<and> map_option ip_udp (nr_inet n') = map_option ip_udp (nr_inet n)"

lemma same_res_refl [simp]: "same_res n n"
  by (simp add: same_res_def)

lemma same_res_trans: "same_res a b \<Longrightarrow> same_res b c \<Longrightarrow> same_res a c"
  by (simp add: same_res_def)

lemma disk_store_put_static:
  "disk_store_put dl broken k data ds fs = (r, ds', fs') \<Longrightarrow> ds_dir ds' = ds_dir ds \<and> quota_bytes ds' = quota_bytes ds"
  by (auto simp: disk_store_put_def Let_def split: if_splits prod.splits sum.splits)

lemma pick_tcp_same: "pick_tcp n = (p, n') \<Longrightarrow> same_res n n'"
  by (auto simp: pick_tcp_def tcp_port_def same_res_def Let_def split: option.splits prod.splits if_splits)

lemma pick_udp_same: "pick_udp n = (u, n') \<Longrightarrow> same_res n n'"
  by (auto simp: pick_udp_def udp_socket_def same_res_def Let_def split: option.splits prod.splits if_splits)

lemma execute_same_res: "execute_node_task W sd t n = (r, n') \<Longrightarrow> same_res n n'"
proof (cases t)
  case (StoreData k data)
  assume "execute_node_task W sd t n = (r, n')"
  with StoreData show ?thesis
    by (auto simp: same_res_def split: option.splits prod.splits sum.splits dest!: disk_store_put_static)
qed (auto simp: Let_def dest: pick_tcp_same pick_udp_same split: prod.splits, simp_all add: same_res_def)

section \<open>What a step changes\<close>

lemma perform_task_cases:
  assumes "perform_task J W sd tid t s tasks n = (c, s', tasks', n')"
  obtains (crashed) "c = Crashed" "s' = s" "tasks' = tasks" "execute_node_task W sd t n = (Panicked, n')"
  | (sent) result where "c = Running" "execute_node_task W sd t n = (Done result, n')"
      "tasks' = hm_remove tid (hm_insert tid (TaskResultMsg tid result) tasks)"
      "send_msg J (TaskResultMsg tid result) s = (Inr (), s')"
  | (kept) result e where "c = Running" "execute_node_task W sd t n = (Done result, n')"
      "tasks' = hm_insert tid (TaskResultMsg tid result) tasks"
      "send_msg J (TaskResultMsg tid result) s = (Inl e, s')"
  using assms by (auto simp: perform_task_def Let_def split: task_outcome.splits prod.splits sum.splits)

definition open_ok :: "NodeMessage hmap \<Rightarrow> bool" where
  "open_ok tasks \<longleftrightarrow> hm_wf tasks \<and> (\<forall>tid msg. hm_get tasks tid = Some msg \<longrightarrow> (\<exists>r. msg = TaskResultMsg tid r))"

definition parts :: "('m, 'u) node_state \<Rightarrow> NodeMessage hmap \<times> ('m, 'u) node_res" where
  "parts st = (open_tasks st, nd_res st)"

lemma recover_parts: "recover J ord D ji cfg st = (c, st') \<Longrightarrow> parts st' = parts st"
  by (auto simp: recover_def parts_def split: prod.splits option.splits sum.splits)

text \<open>A step leaves the open results and the resources alone, or it performs a task.\<close>

lemma node_step_parts:
  assumes "node_step J D ji cfg ev st = (c, st')"
  obtains (same) "parts st' = parts st"
  | (performed) tid t s s' c' where
      "perform_task J (fst (snd ev)) (storage_dir cfg) tid t s (open_tasks st) (nd_res st) = (c', s', open_tasks st', nd_res st')"
proof -
  obtain ord W e where ev: "ev = (ord, W, e)" by (cases ev)
  show thesis
  proof (cases e)
    case (Tick n)
    with assms ev show thesis
      by (auto simp: hb_tick_def parts_def split: prod.splits sum.splits
          dest!: recover_parts intro: that)
  next
    case Ready
    with assms ev have "hb_read J ord W D ji cfg st = (c, st')" by simp
    then consider s where "recover J ord D ji cfg (st\<lparr>nd_stream := s\<rparr>) = (c, st')"
      | s msg where "dispatch J W cfg msg (st\<lparr>nd_stream := s\<rparr>) = (c, st')"
      | s where "st' = st\<lparr>nd_stream := s\<rparr>"
      by (auto simp: hb_read_def split: prod.splits sum.splits option.splits)
    then show thesis
    proof cases
      case 1
      from recover_parts [OF 1] show thesis by (intro that(1)) (simp add: parts_def)
    next
      case (2 s msg)
      show thesis
      proof (cases msg)
        case (AssignTask tid t)
        with 2 obtain s1 where "perform_task J W (storage_dir cfg) tid t s (open_tasks st) (nd_res st)
            = (c, s1, open_tasks st', nd_res st')"
          by (auto split: prod.splits)
        with ev show thesis by (intro that(2)) simp
      qed (use 2 in \<open>auto simp: parts_def intro: that(1)\<close>)
    next
      case 3
      then show thesis by (intro that(1)) (simp add: parts_def)
    qed
  next
    case (Meet i meet)
    with assms ev show thesis
      by (intro that(1)) (auto simp: parts_def Let_def split: prod.splits if_splits option.splits sum.splits)
  next
    case (Direct i)
    with assms ev show thesis
      by (auto simp: parts_def direct_round_def split: prod.splits if_splits course.splits sum.splits option.splits
          NodeMessage.splits intro: that)
  qed
qed

lemma perform_open_ok:
  assumes "perform_task J W sd tid t s tasks n = (c, s', tasks', n')" and "open_ok tasks"
  shows "open_ok tasks'"
  using assms(1) by (cases rule: perform_task_cases) (use assms(2) in \<open>auto simp: open_ok_def\<close>)

lemma perform_same_res:
  assumes "perform_task J W sd tid t s tasks n = (c, s', tasks', n')"
  shows "same_res n n'"
  using assms by (cases rule: perform_task_cases) (auto dest: execute_same_res)

text \<open>An invariant of single steps is one of runs, whatever way they end.\<close>

lemma node_steps_invariant:
  assumes "node_steps J D ji cfg evs st = (c, st')" and "I st"
    and "\<And>ev st c st'. ev \<in> set evs \<Longrightarrow> node_step J D ji cfg ev st = (c, st') \<Longrightarrow> I st \<Longrightarrow> I st'"
  shows "I st'"
  using assms
proof (induction evs arbitrary: st)
  case (Cons ev evs)
  obtain c1 st1 where s: "node_step J D ji cfg ev st = (c1, st1)" by (cases "node_step J D ji cfg ev st")
  from Cons.prems(3) [OF _ s Cons.prems(2)] have "I st1" by simp
  moreover have keep: "\<And>ev st c st'. ev \<in> set evs \<Longrightarrow> node_step J D ji cfg ev st = (c, st') \<Longrightarrow> I st \<Longrightarrow> I st'"
    using Cons.prems(3) by (metis list.set_intros(2))
  ultimately show ?case using Cons.IH [OF _ _ keep] Cons.prems(1) s by (cases c1) simp_all
qed simp

definition node_typed :: "Config \<Rightarrow> ('m, 'u) node_state \<Rightarrow> bool" where
  "node_typed cfg st \<longleftrightarrow>
     open_ok (open_tasks st)
     \<and> (nr_disk (nd_res st) = None \<longleftrightarrow> cfg_role cfg \<noteq> Disk)
     \<and> (nr_inet (nd_res st) = None \<longleftrightarrow> cfg_role cfg \<noteq> Internet)
     \<and> (\<forall>ds. nr_disk (nd_res st) = Some ds \<longrightarrow> quota_bytes ds = disk_space_mb cfg * 1024 * 1024)"

lemma node_typed_step:
  assumes "node_step J D ji cfg ev st = (c, st')" and "node_typed cfg st"
  shows "node_typed cfg st'"
  using assms(1)
proof (cases rule: node_step_parts)
  case same
  with assms(2) show ?thesis by (simp add: node_typed_def parts_def)
next
  case (performed tid t s s' c')
  from perform_same_res [OF performed] perform_open_ok [OF performed] assms(2) show ?thesis
    by (auto simp: node_typed_def same_res_def map_option_case split: option.splits)
qed

lemma node_typed_start:
  assumes "node_start J cwd bt bu cfg memory fs s k = Some st"
  shows "node_typed cfg st"
  using assms by (auto simp: node_start_def node_disk_def node_inet_def node_typed_def open_ok_def disk_store_new_def
      Let_def split: if_splits prod.splits option.splits)

section \<open>What a reconnect sends\<close>

lemma send_msg_free:
  "room s = None \<Longrightarrow> out (snd (send_msg J msg s)) = out s @ msg_frame J msg \<and> room (snd (send_msg J msg s)) = None"
  by (simp add: send_msg_def msg_frame_def write_length_prefixed_None split: option.splits)

lemma resend_free:
  "room s = None \<Longrightarrow> out (resend J msgs s) = out s @ concat (map (msg_frame J) msgs) \<and> room (resend J msgs s) = None"
  by (induction msgs arbitrary: s) (simp_all add: send_msg_free)

lemma try_addresses_joined:
  "try_addresses f addrs n = (Joined s, n1) \<Longrightarrow> \<exists>k addr. addr \<in> set addrs \<and> f k addr = Joined s"
  by (induction addrs arbitrary: n) (fastforce split: joined.splits)+

lemma retry_online: "retry f addrs limit a k n = (Online s, n1, slept) \<Longrightarrow> \<exists>k addr. addr \<in> set addrs \<and> f k addr = Joined s"
proof (induction f addrs limit a k n arbitrary: n1 slept rule: retry.induct)
  case (1 f addrs limit a k n)
  from "1.prems" show ?case
    by (subst (asm) retry.simps)
      (auto simp: Let_def dest: try_addresses_joined intro: "1.IH" split: prod.splits joined.splits if_splits)
qed

lemma authenticate_free:
  "room s = None \<Longrightarrow> out (snd (authenticate token s)) = out s @ frame (as_bytes token) \<and> room (snd (authenticate token s)) = None"
  using read_length_prefixed_out [of "s\<lparr>out := out s @ frame (as_bytes token)\<rparr>"]
  by (cases "read_length_prefixed (s\<lparr>out := out s @ frame (as_bytes token)\<rparr>)")
    (simp add: authenticate_def write_length_prefixed_None split: sum.splits)

definition dialled :: "'d dialer \<Rightarrow> JoinInfo \<Rightarrow> Config \<Rightarrow> sock \<Rightarrow> bool" where
  "dialled D ji cfg s \<longleftrightarrow>
     (\<exists>k. \<exists>addr \<in> set (master_addresses cfg).
        connect_node D k addr (is_local_ip (join_ip ji)) (join_ip ji) (ca_cert_path cfg) (ca_cert cfg) = Inr s)"

lemma rejoin_bytes:
  assumes "rejoin_master J D ji cfg msgs k addr = Joined s'" and "addr \<in> set (master_addresses cfg)"
  obtains s where "dialled D ji cfg s" and "room s = None \<longrightarrow> room s' = None \<and> out s' =
      out s @ frame (as_bytes (join_token ji)) @ msg_frame J GetConnectedNodes @ concat (map (msg_frame J) msgs)"
proof -
  from assms(1) obtain s s1 s2 where s: "connect_node D k addr (is_local_ip (join_ip ji)) (join_ip ji) (ca_cert_path cfg) (ca_cert cfg) = Inr s"
    and a: "authenticate (join_token ji) s = (Inr True, s1)"
    and s2: "s2 = snd (send_msg J GetConnectedNodes s1)"
    and s': "s' = resend J msgs s2 \<or> s' = resend J msgs (snd (read_length_prefixed s2))"
    by (auto simp: rejoin_master_def split: sum.splits prod.splits bool.splits)
  show thesis
  proof (rule that)
    from s assms(2) show "dialled D ji cfg s" by (auto simp: dialled_def)
    show "room s = None \<longrightarrow> room s' = None \<and> out s' =
        out s @ frame (as_bytes (join_token ji)) @ msg_frame J GetConnectedNodes @ concat (map (msg_frame J) msgs)"
    proof
    assume "room s = None"
    with authenticate_free [of s "join_token ji"] a
    have "out s1 = out s @ frame (as_bytes (join_token ji))" "room s1 = None" by simp_all
    with send_msg_free [of s1 J GetConnectedNodes]
    have "out s2 = out s @ frame (as_bytes (join_token ji)) @ msg_frame J GetConnectedNodes" "room s2 = None"
      by (simp_all add: s2)
    with s' resend_free [of s2 J msgs] resend_free [of "snd (read_length_prefixed s2)" J msgs]
    show "room s' = None \<and> out s' =
        out s @ frame (as_bytes (join_token ji)) @ msg_frame J GetConnectedNodes @ concat (map (msg_frame J) msgs)"
      by auto
    qed
  qed
qed

lemma reconnect_bytes:
  assumes "reconnect J ord D ji cfg tasks n = (Some (Inr s'), n1, slept)"
  obtains s where "dialled D ji cfg s" and "room s = None \<longrightarrow> room s' = None \<and> out s' =
      out s @ frame (as_bytes (join_token ji)) @ msg_frame J GetConnectedNodes
      @ concat (map (msg_frame J) (map snd (hm_iter ord tasks)))"
proof -
  from assms have "retry (rejoin_master J D ji cfg (map snd (hm_iter ord tasks))) (master_addresses cfg) (max_retries cfg) 0 0 n
      = (Online s', n1, slept)"
    by (auto simp: reconnect_def joining_result_def split: prod.splits joining.splits)
  from retry_online [OF this] obtain k addr where "addr \<in> set (master_addresses cfg)"
    "rejoin_master J D ji cfg (map snd (hm_iter ord tasks)) k addr = Joined s'" by blast
  from rejoin_bytes [OF this(2,1)] that show thesis by blast
qed

section \<open>Results that could not be sent\<close>

text \<open>The task a step is about to perform.\<close>

definition assigned_on :: "('j) serde_scheme \<Rightarrow> sock \<Rightarrow> string option" where
  "assigned_on J s = (case recv_msg J s of (Inr (AssignTask tid _), _) \<Rightarrow> Some tid | _ \<Rightarrow> None)"

fun task_of_step :: "('j) serde_scheme \<Rightarrow> node_event \<Rightarrow> ('m, 'u) node_state \<Rightarrow> string option" where
  "task_of_step J Ready st = assigned_on J (nd_stream st)"
| "task_of_step J (Direct i) st = (if i < length (nd_direct st) then assigned_on J (nd_direct st ! i) else None)"
| "task_of_step J _ st = None"

fun never_performs ::
  "string \<Rightarrow> ('j) serde_scheme \<Rightarrow> 'd dialer \<Rightarrow> JoinInfo \<Rightarrow> Config \<Rightarrow> (hash_order \<times> ('r, 'a, 'u, 'm, 'c) node_world \<times> node_event) list
     \<Rightarrow> ('m, 'u) node_state \<Rightarrow> bool" where
  "never_performs tid J D ji cfg [] st = True"
| "never_performs tid J D ji cfg (ev # evs) st =
     (task_of_step J (snd (snd ev)) st \<noteq> Some tid \<and> never_performs tid J D ji cfg evs (snd (node_step J D ji cfg ev st)))"

lemma perform_other:
  assumes "perform_task J W sd tid t s tasks n = (c, s', tasks', n')"
  shows "\<forall>tid'. tid' \<noteq> tid \<longrightarrow> hm_get tasks' tid' = hm_get tasks tid'"
  using assms by (cases rule: perform_task_cases) simp_all

lemma node_step_open:
  assumes "node_step J D ji cfg ev st = (c, st')" and "task_of_step J (snd (snd ev)) st \<noteq> Some tid"
  shows "hm_get (open_tasks st') tid = hm_get (open_tasks st) tid"
proof -
  obtain ord W e where ev: "ev = (ord, W, e)" by (cases ev)
  show ?thesis
  proof (cases e)
    case (Tick n)
    with assms(1) ev show ?thesis
      by (auto simp: hb_tick_def parts_def split: prod.splits sum.splits dest!: recover_parts)
  next
    case Ready
    with assms(1) ev have h: "hb_read J ord W D ji cfg st = (c, st')" by simp
    obtain r s where rd: "read_length_prefixed (nd_stream st) = (r, s)" by (cases "read_length_prefixed (nd_stream st)")
    show ?thesis
    proof (cases r)
      case (Inl e)
      with h rd show ?thesis by (auto simp: hb_read_def parts_def dest!: recover_parts)
    next
      case (Inr buf)
      show ?thesis
      proof (cases "from_slice J buf")
        case (Some msg)
        with assms(2) ev Ready rd Inr have no: "msg = AssignTask tid' t \<Longrightarrow> tid' \<noteq> tid" for tid' t
          by (auto simp: assigned_on_def recv_msg_def)
        from h rd Inr Some have "dispatch J W cfg msg (st\<lparr>nd_stream := s\<rparr>) = (c, st')" by (simp add: hb_read_def)
        with no show ?thesis
          by (cases msg) (auto split: prod.splits dest!: perform_other)
      qed (use h rd Inr in \<open>auto simp: hb_read_def\<close>)
    qed
  next
    case (Meet i meet)
    with assms(1) ev show ?thesis by (auto simp: Let_def split: prod.splits if_splits option.splits sum.splits)
  next
    case (Direct i)
    with assms ev show ?thesis
      by (auto simp: direct_round_def assigned_on_def recv_msg_def split: prod.splits if_splits course.splits sum.splits
          option.splits NodeMessage.splits dest!: perform_other)
  qed
qed

lemma node_steps_open:
  assumes "node_steps J D ji cfg evs st = (c, st')" and "never_performs tid J D ji cfg evs st"
  shows "hm_get (open_tasks st') tid = hm_get (open_tasks st) tid"
  using assms
proof (induction evs arbitrary: st)
  case (Cons ev evs)
  obtain c1 st1 where s: "node_step J D ji cfg ev st = (c1, st1)" by (cases "node_step J D ji cfg ev st")
  with Cons.prems have "hm_get (open_tasks st1) tid = hm_get (open_tasks st) tid"
    by (auto dest: node_step_open)
  with s Cons show ?case by (cases c1) auto
qed simp

section \<open>Properties\<close>



lemma be_length_ge:
  "unat (u32_from_be_bytes [0x7B, 0x22, a, b]) \<ge> 0x7B220000"
proof -
  let ?high = "push_bit 24 (ucast (0x7B :: u8)) OR push_bit 16 (ucast (0x22 :: u8)) :: u32"
    and ?low = "push_bit 8 (ucast a) OR ucast b :: u32"
  have "u32_from_be_bytes [0x7B, 0x22, a, b] = ?high OR ?low"
    unfolding u32_from_be_bytes_def by (simp only: list.case or.assoc)
  moreover have "?high = 0x7B220000" by code_simp
  ultimately have "(0x7B220000 :: u32) \<le> u32_from_be_bytes [0x7B, 0x22, a, b]"
    using le_word_or2 [of ?high ?low] by simp
  then show ?thesis by (simp add: word_le_nat_alt)
qed

text \<open>
  C17: a heartbeat can cost the node everything the master sends. When the interval ticks while the
  length of a message has been read and its body has not, the half-finished read is dropped with the
  four bytes. The node then takes the first bytes of the JSON text for the next length, 2 GB or more,
  and no message comes out of the stream any more: with less than that to come, the next read ends
  with the stream and the node reconnects. Had the tick come before the message, it would be read.
\<close>

theorem cancelled_read_swallows:
  assumes "inp (nd_stream st) = frame d @ r" and "fits_u32 d" and "d = 0x7B # 0x22 # text"
    and "length (d @ r) < 0x7B220000" and "msg_ok J Heartbeat" and "room (nd_stream st) = None"
  shows "read_pending 4 (nd_stream st)
    \<and> (\<exists>st1. hb_tick J ord D ji cfg 4 st = (Running, st1)
        \<and> hb_read J ord W D ji cfg st1 = recover J ord D ji cfg (st1\<lparr>nd_stream := (nd_stream st1)\<lparr>inp := []\<rparr>\<rparr>))
    \<and> (\<exists>st1. hb_tick J ord D ji cfg 0 st = (Running, st1)
        \<and> read_length_prefixed (nd_stream st1) = (Inr d, (nd_stream st1)\<lparr>inp := r\<rparr>))"
proof (intro conjI)
  have header: "take 4 (inp (nd_stream st)) = u32_to_be_bytes (word_of_nat (length d))"
    and rest: "drop 4 (inp (nd_stream st)) = d @ r"
    by (simp_all add: assms(1) frame_def)
  have len: "unat (word_of_nat (length d) :: u32) = length d"
    using assms(2) by (simp add: fits_u32_def unat_of_nat)
  show "read_pending 4 (nd_stream st)"
    unfolding read_pending_def header
    by (simp add: read_length_prefixed_def read_exact_def Let_def assms(1) len) (simp add: assms(3))
  have tick: "hb_tick J ord D ji cfg k st = (Running, st\<lparr>nd_stream := (drop_read k (nd_stream st))\<lparr>out :=
      out (nd_stream st) @ msg_frame J Heartbeat\<rparr>\<rparr>)" for k
    using send_msg_None [OF assms(5), of "drop_read k (nd_stream st)"] assms(6)
    by (simp add: hb_tick_def drop_read_def)
  have swallow: "read_length_prefixed s = (Inl (Io ''early eof''), s\<lparr>inp := []\<rparr>)" if s: "inp s = d @ r" for s
  proof (cases "4 \<le> length (d @ r)")
    case True
    then obtain a b u where dr: "d @ r = 0x7B # 0x22 # a # b # u"
      using assms(3) by (cases "text @ r"; cases "tl (text @ r)") auto
    from be_length_ge [of a b] assms(4)
    have "\<not> unat (u32_from_be_bytes [0x7B, 0x22, a, b]) \<le> length u" by (simp add: dr)
    then show ?thesis by (simp add: read_length_prefixed_def read_exact_def s dr Let_def)
  next
    case False
    then show ?thesis by (simp add: read_length_prefixed_def read_exact_def s)
  qed
  show "\<exists>st1. hb_tick J ord D ji cfg 4 st = (Running, st1)
        \<and> hb_read J ord W D ji cfg st1 = recover J ord D ji cfg (st1\<lparr>nd_stream := (nd_stream st1)\<lparr>inp := []\<rparr>\<rparr>)"
    unfolding tick by (simp add: hb_read_def swallow drop_read_def rest)
  show "\<exists>st1. hb_tick J ord D ji cfg 0 st = (Running, st1)
        \<and> read_length_prefixed (nd_stream st1) = (Inr d, (nd_stream st1)\<lparr>inp := r\<rparr>)"
    unfolding tick by (simp add: drop_read_def read_length_prefixed_frame [OF assms(2)] assms(1))
qed

text \<open>
  A direct connection always goes through TLS, on the local network too, and calls an address
  with two ports: the address of the other node comes from the master with its port, and the node
  tests it and appends to it as if it were an IP address.
\<close>

theorem direct_connection_address:
  "direct_connect D n meet cfg (show_sock_addr (show_ipv4 a b c d) p) port =
     (case meet (show_sock_addr (show_ipv4 a b c d) p @ '':'' @ show_nat (unat port)) port of
        Bind_error e \<Rightarrow> Some (Inl (Io e))
      | Called s \<Rightarrow> Some (tls_upgrade D n (ca_cert_path cfg) (ca_cert cfg) (show_sock_addr (show_ipv4 a b c d) p) s)
      | Was_called s \<Rightarrow> Some (tls_upgrade D n (ca_cert_path cfg) (ca_cert cfg) (show_sock_addr (show_ipv4 a b c d) p) s)
      | Nobody \<Rightarrow> None)"
  by (simp add: direct_connect_def direct_addr_def Let_def sock_addr_never_local split: meeting.splits)

section \<open>Instances\<close>

definition node_table :: "(NodeMessage \<times> u8 list) list" where
  "node_table =
     [(Heartbeat, [1]), (HeartbeatAck, [2]), (GetConnectedNodes, [3]), (ConnectedNodes [], [4]),
      (AssignTask ''t1'' (Compute ''1+1''), [5]), (TaskResultMsg ''t1'' (Number 7), [6]), (RegisterRole Worker, [7]),
      (RegisterRole Internet, [8]), (Disconnect, [9])]"

definition node_serde :: serde where
  "node_serde = \<lparr>to_vec = map_of node_table, from_slice = map_of (map (\<lambda>(x, y). (y, x)) node_table)\<rparr>"

definition demo_dialer :: "u8 list \<Rightarrow> unit dialer" where
  "demo_dialer bs = dead_dialer\<lparr>tcp_dial := (\<lambda>_ _. Inr \<lparr>inp = bs, out = [], room = None\<rparr>)\<rparr>"

definition demo_join :: JoinInfo where
  "demo_join = \<lparr>join_token = ''t'', join_ip = ''10.0.0.1'', join_port = 7\<rparr>"

definition demo_web :: "unit web" where
  "demo_web = \<lparr>eval_str = (\<lambda>_. Inr 7), http_send = (\<lambda>_. Inl ''no route''), http_text = (\<lambda>_. Inl '''')\<rparr>"

definition demo_net :: "(unit, unit) net" where
  "demo_net =
     \<lparr>tcp_socket = Inr (), tcp_bind = (\<lambda>_. False), parse_addr = (\<lambda>_. None), connect_bound = (\<lambda>_. Inl ''refused''),
      connect = (\<lambda>_. Inl ''refused''), tcp_write = (\<lambda>_. Inr ()), tcp_read = Inl ''reset'', udp_bind = Inl ''in use'',
      udp_send = (\<lambda>_ _ _. Inr ()), udp_recv = (\<lambda>_. Inl ''reset'')\<rparr>"

definition demo_world :: "(unit, unit, unit, u8 list hmap, int \<times> int) node_world" where
  "demo_world =
     \<lparr>w_web = demo_web, w_net = demo_net, w_dash = list_dashmap, w_tokenize = (\<lambda>_. Inl ''''), w_to_rpn = Inr,
      w_complex = gauss_ops, w_dir_len = 0, w_broken = None, w_cwd = []\<rparr>"

definition master_answers :: "u8 list" where
  "master_answers = frame (as_bytes ''OK'') @ msg_frame node_serde (ConnectedNodes [])"

lemma demo_dialled: "dialled (demo_dialer bs) demo_join cfg s \<Longrightarrow> s = \<lparr>inp = bs, out = [], room = None\<rparr>"
proof -
  have "is_local_ip ''10.0.0.1''" by code_simp
  moreover assume "dialled (demo_dialer bs) demo_join cfg s"
  ultimately show ?thesis by (auto simp: dialled_def demo_dialer_def connect_node_def demo_join_def)
qed

definition demo_run where
  "demo_run =
     run_node node_serde (demo_dialer (master_answers @ msg_frame node_serde (AssignTask ''t1'' (Compute ''1+1''))))
       demo_join (Config_default\<lparr>cfg_role := Internet, cfg_internet_ports := Some [7, 8]\<rparr>) []
       (\<lambda>p. Some (Some p)) (\<lambda>_. Some ()) [] [] [(\<lambda>ks. ks, demo_world, Tick 0), (\<lambda>ks. ks, demo_world, Ready)]"


definition node_demo :: "sock \<Rightarrow> NodeMessage hmap \<Rightarrow> (u8 list hmap, unit) node_state" where
  "node_demo s tasks =
     \<lparr>nd_stream = s, open_tasks = tasks, nd_res = \<lparr>nr_fs = [], nr_mem = [], nr_disk = None, nr_inet = None\<rparr>,
      nd_dials = 0, nd_calls = [], nd_direct = []\<rparr>"

definition broken_node :: "(u8 list hmap, unit) node_state" where
  "broken_node = node_demo \<lparr>inp = [], out = [], room = Some 0\<rparr> [(''t1'', TaskResultMsg ''t1'' (Number 7))]"


theorem cancelled_read_swallows_witness:
  "read_pending 4 \<lparr>inp = frame [0x7B, 0x22, 0x7D], out = [], room = None\<rparr>
   \<and> (\<exists>st1. hb_tick node_serde (\<lambda>ks. ks) dead_dialer demo_join Config_default 4
          (node_demo \<lparr>inp = frame [0x7B, 0x22, 0x7D], out = [], room = None\<rparr> []) = (Running, st1)
        \<and> hb_read node_serde (\<lambda>ks. ks) demo_world dead_dialer demo_join Config_default st1
          = recover node_serde (\<lambda>ks. ks) dead_dialer demo_join Config_default (st1\<lparr>nd_stream := (nd_stream st1)\<lparr>inp := []\<rparr>\<rparr>))"
proof -
  let ?st = "node_demo \<lparr>inp = frame [0x7B, 0x22, 0x7D], out = [], room = None\<rparr> []"
  have i: "inp (nd_stream ?st) = frame [0x7B, 0x22, 0x7D] @ []" and r: "room (nd_stream ?st) = None"
    by (simp_all add: node_demo_def)
  have f: "fits_u32 [0x7B, 0x22, 0x7D]" and d: "[0x7B, 0x22, 0x7D] = 0x7B # 0x22 # [0x7D :: u8]"
    and l: "length ([0x7B, 0x22, 0x7D :: u8] @ []) < 0x7B220000"
    by (simp_all add: fits_u32_def)
  have h: "msg_ok node_serde Heartbeat"
    by (simp add: msg_ok_def node_serde_def node_table_def fits_u32_def)
  note c = cancelled_read_swallows [OF i f d l h r]
  have s: "nd_stream ?st = \<lparr>inp = frame [0x7B, 0x22, 0x7D], out = [], room = None\<rparr>" by (simp add: node_demo_def)
  show ?thesis
  proof
    show "read_pending 4 \<lparr>inp = frame [0x7B, 0x22, 0x7D], out = [], room = None\<rparr>"
      using c [THEN conjunct1] by (simp only: s)
  qed (rule c [THEN conjunct2, THEN conjunct1])
qed

end
