(* ===== verification/NodeMaster.thy ===== *)
theory NodeMaster
  imports NodeLoopProps MasterConnProps
begin

text \<open>
  Nodes and master together: what the messages a node sends when it joins and when it reconnects do
  to the master that receives them.
\<close>

section \<open>The role of a reconnected node\<close>

definition plain_worker :: "string \<Rightarrow> MasterNode \<Rightarrow> bool" where
  "plain_worker addr m \<longleftrightarrow>
     (\<forall>n. hm_get (connected_nodes m) addr = Some n \<longrightarrow>
        node_role n = Worker \<and> (\<forall>tid t. hm_get (active_tasks n) tid = Some t \<longrightarrow> role_for_task t = Worker))"

text \<open>No registration by this node, and no peer that brings an entry for it.\<close>

definition unregistered :: "string \<Rightarrow> action \<Rightarrow> bool" where
  "unregistered addr a \<longleftrightarrow>
     (case a of
        Request addr' (RegisterRole _) \<Rightarrow> addr' \<noteq> addr
      | Peer st \<Rightarrow> hm_get (ps_connected_nodes st) addr = None
      | _ \<Rightarrow> True)"

lemma plain_worker_nodes:
  assumes "plain_worker addr m" and "\<And>n'. hm_get (connected_nodes m') addr = Some n' \<Longrightarrow>
      \<exists>n. hm_get (connected_nodes m) addr = Some n \<and> node_role n' = node_role n
        \<and> (\<forall>tid t. hm_get (active_tasks n') tid = Some t \<longrightarrow> hm_get (active_tasks n) tid = Some t)"
  shows "plain_worker addr m'"
  using assms unfolding plain_worker_def by metis

lemma plain_worker_take:
  assumes "plain_worker addr m" and "hm_get (connected_nodes m) a = Some n" and "eligible m a (node_role n) tid p"
  shows "plain_worker addr (take_task a tid p m)"
  using assms by (auto simp: plain_worker_def task_step eligible_def split: if_splits)

lemma plain_worker_untake:
  "plain_worker addr m \<Longrightarrow> plain_worker addr (untake_task a tid p m)"
  by (erule plain_worker_nodes) (auto simp: task_step split: if_splits)

lemma plain_worker_send:
  "plain_worker addr m \<Longrightarrow> plain_worker addr (snd (snd (send_pending_tasks J ord a s m)))"
  by (erule send_pending_invariant) (auto intro: plain_worker_take plain_worker_untake)

lemma plain_worker_effect:
  assumes "plain_worker addr m" and "unregistered addr (Request a req)"
  shows "plain_worker addr (request_effect now a req m)"
proof (cases req)
  case (RequestConnection t)
  with assms(1) grant_port_nodes [of a m] show ?thesis
    by (auto elim!: plain_worker_nodes split: if_splits)
qed (use assms in \<open>auto simp: unregistered_def elim!: plain_worker_nodes split: if_splits\<close>)

lemma plain_worker_step:
  assumes "master_step J m a m'" and "unregistered addr a" and "maps_wf m" and "plain_worker addr m"
  shows "plain_worker addr m'"
  using assms
proof (induction rule: master_step.induct)
  case (enter ord a s now m r s' m')
  have "plain_worker addr (enter_node a now m)"
    using enter.prems(3) by (auto simp: plain_worker_def fresh_node_def)
  from plain_worker_send [OF this, of J ord a s] enter.hyps show ?case by simp
next
  case (request ord now a req s m r s' m')
  show ?case
    by (rule handle_request_keeps [where I = "plain_worker addr", OF request.hyps(2)])
      (intro plain_worker_effect plain_worker_send request.prems | assumption)+
next
  case (cleanup ord m now)
  from cleanup.prems(3) show ?case
    by (rule plain_worker_nodes) (auto simp: cleanup_fields(2) [OF cleanup.hyps cleanup.prems(2)] split: if_splits)
next
  case (peer ord st m)
  from peer.prems(3) show ?case
    by (rule plain_worker_nodes)
      (use peer in \<open>auto simp: merge_state_get(1) unregistered_def map_add_def split: option.splits\<close>)
qed (auto simp: add_task_def elim!: plain_worker_nodes split: if_splits)

lemma plain_worker_enter:
  assumes "master_step J m (Enter addr) m'"
  shows "plain_worker addr m'"
proof -
  from assms obtain ord s now r s' where "send_pending_tasks J ord addr s (enter_node addr now m) = (r, s', m')"
    by (cases rule: step_enterE) auto
  moreover have "plain_worker addr (enter_node addr now m)" by (simp add: plain_worker_def fresh_node_def)
  ultimately show ?thesis using plain_worker_send [of addr "enter_node addr now m" J ord addr s] by simp
qed

text \<open>
  C16: a node that reconnects is a plain worker from then on. On the new connection it sends the token,
  the question for the nodes and the open results; and whatever else happens at the master after the
  connection has been accepted, as long as the node does not register and no peer brings an entry for
  it, its role there is \<open>Worker\<close> and the tasks assigned to it are those for workers. A \<open>Disk\<close> or
  \<open>Internet\<close> node gets no task of its kind after a reconnect.
\<close>

theorem role_lost_on_reconnect:
  assumes "reconnect J' ord D ji cfg tasks k = (Some (Inr s'), k', slept)"
    and "\<And>s. dialled D ji cfg s \<Longrightarrow> room s = None \<and> out s = []" and "open_ok tasks"
    and "master_run J m (Enter addr # as) m'" and "maps_wf m" and "\<forall>a \<in> set as. unregistered addr a"
    and "hm_get (connected_nodes m') addr = Some n"
  shows "out s' = frame (as_bytes (join_token ji)) @ msg_frame J' GetConnectedNodes
        @ concat (map (msg_frame J') (map snd (hm_iter ord tasks)))
    \<and> (\<forall>msg \<in> set (map snd (hm_iter ord tasks)). \<exists>tid r. msg = TaskResultMsg tid r)
    \<and> node_role n = Worker
    \<and> (\<forall>tid t. hm_get (active_tasks n) tid = Some t \<longrightarrow> role_for_task t = Worker)"
proof -
  obtain s where "dialled D ji cfg s" and "room s = None \<longrightarrow> room s' = None \<and> out s' =
      out s @ frame (as_bytes (join_token ji)) @ msg_frame J' GetConnectedNodes
      @ concat (map (msg_frame J') (map snd (hm_iter ord tasks)))"
    by (rule reconnect_bytes [OF assms(1)])
  with assms(2) [of s] have bytes: "out s' = frame (as_bytes (join_token ji)) @ msg_frame J' GetConnectedNodes
      @ concat (map (msg_frame J') (map snd (hm_iter ord tasks)))" by simp
  have results: "\<forall>msg \<in> set (map snd (hm_iter ord tasks)). \<exists>tid r. msg = TaskResultMsg tid r"
    using assms(3) by (fastforce simp: open_ok_def dest: hm_iter_get)
  from assms(4) obtain m1 where e: "master_step J m (Enter addr) m1" and run: "master_run J m1 as m'"
    by (auto simp: master_run_Cons)
  have "maps_wf m' \<and> plain_worker addr m'"
    using run
  proof (rule master_run_invariant [where allowed = "unregistered addr"])
    show "maps_wf m1 \<and> plain_worker addr m1" using maps_wf_step [OF e assms(5)] plain_worker_enter [OF e] by simp
  qed (use assms(6) maps_wf_step plain_worker_step in blast)+
  with bytes results assms(7) show ?thesis by (simp add: plain_worker_def)
qed

section \<open>The first node of a cluster\<close>

text \<open>One round of the master on the connection of a node that has not sent a heartbeat yet.\<close>

lemma idle_round:
  assumes "msg_ok J req" and "inp s = msg_frame J req @ rest"
    and "process_request J ord now addr req (s\<lparr>inp := rest\<rparr>) m = (Inr Go, s1, m1)"
    and "hm_get (connected_nodes m1) addr = Some n" and "\<not> is_worker n"
  shows "conn_round J ord now addr s m = (Inr Go, s1, m1)"
proof -
  obtain b where b: "to_vec J req = Some b" "fits_u32 b" "from_slice J b = Some req"
    using assms(1) by (auto simp: msg_ok_def)
  then have "read_length_prefixed s = (Inr b, s\<lparr>inp := rest\<rparr>)"
    using assms(2) by (simp add: read_length_prefixed_frame msg_frame_def)
  with b assms(3-5) show ?thesis
    by (simp add: conn_round_def handle_request_def send_pending_tasks_def del: process_request.simps)
qed

lemma conn_loop_go:
  "conn_round J (ords i) (clk i) addr s m = (Inr Go, s1, m1) \<Longrightarrow>
     conn_loop J ords clk addr i s m = conn_loop J ords clk addr (Suc i) s1 m1"
  by (simp add: conn_loop.simps [of J ords clk addr i])

lemma reply_free:
  "msg_ok J msg \<Longrightarrow> room s = None \<Longrightarrow> reply J msg s m = (Inr Go, s\<lparr>out := out s @ msg_frame J msg\<rparr>, m)"
  by (simp add: reply_def send_msg_None)

lemma ord_single: "lawful_order ord \<Longrightarrow> ord [x] = [x]"
  by (metis lawful_order_def mset_single_iff mset.simps(1,2) add_mset_add_single empty_neutral(1) mset_zero_iff_right length_0_conv mset_eq_length)

text \<open>What the master reads and writes when the first node joins with its three requests.\<close>

lemma master_first_node:
  assumes "connected_nodes m = []" and "available_ports m = p # ps" and "\<And>i. lawful_order (ords i)"
    and "msg_ok J (RegisterRole role)" and "msg_ok J GetConnectedNodes" and "msg_ok J (RequestConnection addr)"
    and "msg_ok J (ConnectedNodes [addr])" and "msg_ok J (ConnectionInfo addr p)"
    and "room s = None" and "inp s = msg_frame J (RegisterRole role) @ msg_frame J GetConnectedNodes @ msg_frame J (RequestConnection addr)"
  shows "\<exists>s' m'. serve_client J ords clk addr s m = (Inr (), s', m')
    \<and> out s' = out s @ frame (as_bytes ''OK'') @ msg_frame J (ConnectedNodes [addr]) @ msg_frame J (ConnectionInfo addr p)
    \<and> available_ports m' = ps \<and> connected_nodes m' = []"
proof -
  let ?n0 = "fresh_node addr (clk 0)" and ?m0 = "enter_node addr (clk 0) m"
  let ?n1 = "?n0\<lparr>node_role := role\<rparr>"
  let ?s0 = "s\<lparr>out := out s @ frame (as_bytes ''OK'')\<rparr>"
  let ?s1 = "?s0\<lparr>inp := msg_frame J GetConnectedNodes @ msg_frame J (RequestConnection addr)\<rparr>"
  let ?m1 = "modify_node addr (\<lambda>n. n\<lparr>node_role := role\<rparr>) ?m0"
  let ?s2 = "?s1\<lparr>inp := msg_frame J (RequestConnection addr), out := out ?s1 @ msg_frame J (ConnectedNodes [addr])\<rparr>"
  let ?m2 = "modify_node addr (\<lambda>n. n\<lparr>node_port := Some p\<rparr>) (spawn_save_state (?m1\<lparr>available_ports := ps\<rparr>))"
  let ?s3 = "?s2\<lparr>inp := [], out := out ?s2 @ msg_frame J (ConnectionInfo addr p)\<rparr>"
  have nodes: "connected_nodes ?m1 = [(addr, ?n1)]" "available_ports ?m1 = p # ps"
    using assms(1,2) by (simp_all add: hm_insert_def hm_modify_def)
  have fresh: "is_worker ?n0 = False" "node_addr ?n0 = addr" by (simp_all add: fresh_node_def)
  have r1: "conn_round J (ords 1) (clk 1) addr ?s0 ?m0 = (Inr Go, ?s1, ?m1)"
    by (rule idle_round [OF assms(4), where n = ?n1]) (simp_all add: assms(10) fresh)
  have r2: "conn_round J (ords (Suc 1)) (clk (Suc 1)) addr ?s1 ?m1 = (Inr Go, ?s2, ?m1)"
    using assms(7,9) nodes
    by (intro idle_round [OF assms(5), where n = ?n1])
      (simp_all add: reply_free hm_keys_def ord_single [OF assms(3)] fresh hm_get_def del: modify_node_fields)
  have r3: "conn_round J (ords (Suc (Suc 1))) (clk (Suc (Suc 1))) addr ?s2 ?m1 = (Inr Go, ?s3, ?m2)"
    using assms(8,9) nodes(2)
    by (intro idle_round [OF assms(6), where n = "?n1\<lparr>node_port := Some p\<rparr>"])
      (simp_all add: reply_free allocate_port_def fresh spawn_save_state_def Let_def)
  have r4: "conn_round J ord now addr t m' = (Inr Break, t\<lparr>inp := []\<rparr>, m')" if "inp t = []" for ord now t m'
    using that by (simp add: conn_round_def read_length_prefixed_def read_exact_def)
  have loop: "conn_loop J ords clk addr 1 ?s0 ?m0 = (Inr (), ?s3, ?m2)"
    unfolding conn_loop_go [where ords = ords and clk = clk, OF r1] conn_loop_go [where ords = ords and clk = clk, OF r2]
      conn_loop_go [where ords = ords and clk = clk, OF r3]
    by (subst conn_loop.simps) (simp add: r4)
  have send: "send_pending_tasks J (ords 0) addr ?s0 ?m0 = (Inr (), ?s0, ?m0)"
    by (simp add: send_pending_tasks_def fresh)
  have "write_length_prefixed (as_bytes ''OK'') s = (Inr (), ?s0)" using assms(9) by (rule write_length_prefixed_None)
  with loop send have "serve_client J ords clk addr s m = (Inr (), ?s3, end_connection addr ?m2)"
    unfolding serve_client_def by (simp only: prod.case sum.case Let_def)
  with nodes show ?thesis
    by (auto simp: hm_remove_def hm_modify_def hm_insert_def assms(1) spawn_save_state_def)
qed

text \<open>The node's side: what it sends when the answers are already on the wire.\<close>

lemma node_joins:
  assumes "connect_node D k a (is_local_ip (join_ip ji)) (join_ip ji) (ca_cert_path cfg) (ca_cert cfg) = Inr s"
    and "inp s = frame (as_bytes ''OK'') @ msg_frame J (ConnectedNodes (addr # addrs)) @ r" and "room s = None"
    and "msg_ok J (RegisterRole (cfg_role cfg))" and "msg_ok J GetConnectedNodes" and "msg_ok J (RequestConnection addr)"
    and "msg_ok J (ConnectedNodes (addr # addrs))"
  shows "join_master J D ji cfg k a = Joined (s\<lparr>inp := r, out := out s @ frame (as_bytes (join_token ji))
      @ msg_frame J (RegisterRole (cfg_role cfg)) @ msg_frame J GetConnectedNodes @ msg_frame J (RequestConnection addr)\<rparr>)"
proof -
  let ?s1 = "s\<lparr>out := out s @ frame (as_bytes (join_token ji))\<rparr>"
  let ?r1 = "msg_frame J (ConnectedNodes (addr # addrs)) @ r"
  have ok: "fits_u32 (as_bytes ''OK'')" by (simp add: fits_u32_def)
  have "read_length_prefixed ?s1 = (Inr (as_bytes ''OK''), ?s1\<lparr>inp := ?r1\<rparr>)"
    by (rule read_length_prefixed_frame [OF ok]) (simp add: assms(2))
  moreover have "as_bytes ''OK'' \<noteq> as_bytes ''Invalid token''"
    by code_simp
  ultimately have auth: "authenticate (join_token ji) s = (Inr True, ?s1\<lparr>inp := ?r1\<rparr>)"
    by (simp add: authenticate_def write_length_prefixed_None assms(3))
  obtain b where b: "to_vec J (ConnectedNodes (addr # addrs)) = Some b" "fits_u32 b"
    "from_slice J b = Some (ConnectedNodes (addr # addrs))"
    using assms(7) by (auto simp: msg_ok_def)
  have rd: "read_length_prefixed t = (Inr b, t\<lparr>inp := r\<rparr>)" if "inp t = ?r1" for t
    using that b by (simp add: read_length_prefixed_frame msg_frame_def)
  show ?thesis
    using assms(3) by (simp add: join_master_def assms(1) auth ask_peers_def send_msg_None assms(4-6) rd b(3))
qed

text \<open>
  C27: the first node of a cluster asks for a connection to itself. Against a master without nodes, the
  node that joins is told its own address as the only one and requests a connection to it; the two
  sides' messages fit together byte for byte, the master spends its first free port on it and tells
  the node to connect to its own address, and when the connection is lost the port is not returned.
\<close>

theorem first_node_calls_itself:
  assumes "connect_node D k a (is_local_ip (join_ip ji)) (join_ip ji) (ca_cert_path cfg) (ca_cert cfg) = Inr s"
    and "s = \<lparr>inp = frame (as_bytes ''OK'') @ msg_frame J (ConnectedNodes [addr]) @ msg_frame J (ConnectionInfo addr p),
        out = [], room = None\<rparr>"
    and "connected_nodes m = []" and "available_ports m = p # ps" and "\<And>i. lawful_order (ords i)"
    and "msg_ok J (RegisterRole (cfg_role cfg))" and "msg_ok J GetConnectedNodes" and "msg_ok J (RequestConnection addr)"
    and "msg_ok J (ConnectedNodes [addr])" and "msg_ok J (ConnectionInfo addr p)"
    and "fits_u32 (as_bytes (join_token ji))" and "from_utf8 (as_bytes (join_token ji)) = Inr (join_token ji)"
    and "trim (join_token ji) = join_token ji" and "join_token ji \<noteq> master_sync_token"
  shows "\<exists>s' t m'. join_master J D ji cfg k a = Joined s'
    \<and> handle_connection J ords clk (join_token ji) addr \<lparr>inp = out s', out = [], room = None\<rparr> m = (Inr (), t, m')
    \<and> out t = inp s \<and> fst (recv_msg J s') = Inr (ConnectionInfo addr p)
    \<and> available_ports m' = ps \<and> connected_nodes m' = []"
proof -
  let ?req = "msg_frame J (RegisterRole (cfg_role cfg)) @ msg_frame J GetConnectedNodes @ msg_frame J (RequestConnection addr)"
  let ?s' = "s\<lparr>inp := msg_frame J (ConnectionInfo addr p), out := out s @ frame (as_bytes (join_token ji)) @ ?req\<rparr>"
  have join: "join_master J D ji cfg k a = Joined ?s'"
    using assms(2) by (intro node_joins [OF assms(1) _ _ assms(6-9)]) simp_all
  let ?t = "\<lparr>inp = out ?s', out = [], room = None\<rparr>"
  have rd: "read_length_prefixed ?t = (Inr (as_bytes (join_token ji)), ?t\<lparr>inp := ?req\<rparr>)"
    by (rule read_length_prefixed_frame [OF assms(11)]) (simp add: assms(2))
  have "\<exists>t m'. serve_client J ords clk addr (?t\<lparr>inp := ?req\<rparr>) m = (Inr (), t, m')
    \<and> out t = out (?t\<lparr>inp := ?req\<rparr>) @ frame (as_bytes ''OK'') @ msg_frame J (ConnectedNodes [addr]) @ msg_frame J (ConnectionInfo addr p)
    \<and> available_ports m' = ps \<and> connected_nodes m' = []"
    by (rule master_first_node [OF assms(3-10)]) simp_all
  then obtain t m' where serve: "serve_client J ords clk addr (?t\<lparr>inp := ?req\<rparr>) m = (Inr (), t, m')"
    and t: "out t = frame (as_bytes ''OK'') @ msg_frame J (ConnectedNodes [addr]) @ msg_frame J (ConnectionInfo addr p)"
    and m': "available_ports m' = ps" "connected_nodes m' = []"
    by auto
  have "handle_connection J ords clk (join_token ji) addr ?t m = (Inr (), t, m')"
    unfolding handle_connection_def rd by (simp add: assms(12-14) serve [simplified])
  moreover have "fst (recv_msg J ?s') = Inr (ConnectionInfo addr p)"
    using recv_msg_frame [OF assms(10), of ?s' "[]"] by simp
  ultimately show ?thesis using join t m' assms(2) by (intro exI [of _ ?s'] exI [of _ t] exI [of _ m']) simp
qed

section \<open>Instances\<close>

definition join_table :: "(NodeMessage \<times> u8 list) list" where
  "join_table =
     [(GetConnectedNodes, [1]), (ConnectedNodes [''n1''], [2]), (RegisterRole Worker, [3]),
      (RequestConnection ''n1'', [4]), (ConnectionInfo ''n1'' 7, [5])]"

definition join_serde :: mserde where
  "join_serde = demo_serde\<lparr>to_vec := map_of join_table, from_slice := map_of (map (\<lambda>(x, y). (y, x)) join_table)\<rparr>"

lemma join_msg_ok:
  "msg_ok join_serde GetConnectedNodes" "msg_ok join_serde (ConnectedNodes [''n1''])" "msg_ok join_serde (RegisterRole Worker)"
  "msg_ok join_serde (RequestConnection ''n1'')" "msg_ok join_serde (ConnectionInfo ''n1'' 7)"
  by (simp_all add: msg_ok_def join_serde_def join_table_def fits_u32_def)

theorem first_node_calls_itself_witness:
  "\<exists>s' t m'. join_master join_serde
        (demo_dialer (frame (as_bytes ''OK'') @ msg_frame join_serde (ConnectedNodes [''n1'']) @ msg_frame join_serde (ConnectionInfo ''n1'' 7)))
        demo_join Config_default 0 ''m'' = Joined s'
    \<and> handle_connection join_serde (\<lambda>_ ks. ks) (\<lambda>_. 5) ''t'' ''n1'' \<lparr>inp = out s', out = [], room = None\<rparr> (demo_master [] [7] [])
        = (Inr (), t, m')
    \<and> available_ports m' = []"
proof -
  let ?i = "frame (as_bytes ''OK'') @ msg_frame join_serde (ConnectedNodes [''n1'']) @ msg_frame join_serde (ConnectionInfo ''n1'' 7)"
  let ?s = "\<lparr>inp = ?i, out = [], room = None\<rparr>"
  have "is_local_ip ''10.0.0.1''" by code_simp
  then have conn: "connect_node (demo_dialer ?i) 0 ''m'' (is_local_ip (join_ip demo_join)) (join_ip demo_join)
      (ca_cert_path Config_default) (ca_cert Config_default) = Inr ?s"
    by (simp add: connect_node_def demo_dialer_def demo_join_def)
  have m: "connected_nodes (demo_master [] [7] []) = []" "available_ports (demo_master [] [7] []) = 7 # []"
    by (simp_all add: demo_master_def)
  have role: "cfg_role Config_default = Worker" by (simp add: Config_default_def)
  have tok: "join_token demo_join = ''t''" by (simp add: demo_join_def)
  have t: "fits_u32 (as_bytes ''t'')" "from_utf8 (as_bytes ''t'') = Inr ''t''" "trim ''t'' = ''t''" "''t'' \<noteq> master_sync_token"
    by (simp add: fits_u32_def, code_simp, code_simp, simp add: master_sync_token_def)
  have "\<exists>s' t m'. join_master join_serde (demo_dialer ?i) demo_join Config_default 0 ''m'' = Joined s'
    \<and> handle_connection join_serde (\<lambda>_ ks. ks) (\<lambda>_. 5) (join_token demo_join) ''n1'' \<lparr>inp = out s', out = [], room = None\<rparr>
        (demo_master [] [7] []) = (Inr (), t, m')
    \<and> out t = inp ?s \<and> fst (recv_msg join_serde s') = Inr (ConnectionInfo ''n1'' 7)
    \<and> available_ports m' = [] \<and> connected_nodes m' = []"
    by (rule first_node_calls_itself [OF conn refl m lawful_order_id]) (simp_all only: role tok t join_msg_ok simp_thms)
  then show ?thesis unfolding tok by blast
qed

theorem role_lost_on_reconnect_witness:
  "case reconnect node_serde (\<lambda>ks. ks) (demo_dialer master_answers) demo_join (Config_default\<lparr>cfg_role := Disk\<rparr>)
       [(''t1'', TaskResultMsg ''t1'' (Number 7))] 0 of
     (Some (Inr s'), _) \<Rightarrow>
       out s' = [0, 0, 0, 1, 116, 0, 0, 0, 1, 3, 0, 0, 0, 1, 6]
       \<and> (case hm_get (connected_nodes (snd (snd (handle_request demo_serde (\<lambda>ks. ks) 9 ''n1'' Heartbeat (demo_sock [])
              (enter_node ''n1'' 5 (demo_master [] [7] [(''t1'', demo_task)])))))) ''n1'' of
            Some n \<Rightarrow> node_role n = Worker | None \<Rightarrow> False)
   | _ \<Rightarrow> False"
proof -
  let ?tasks = "[(''t1'', TaskResultMsg ''t1'' (Number 7))]" and ?c = "Config_default\<lparr>cfg_role := Disk\<rparr>"
  let ?r = "reconnect node_serde (\<lambda>ks. ks) (demo_dialer master_answers) demo_join ?c ?tasks 0"
  let ?m = "demo_master [] [7] [(''t1'', demo_task)]"
  let ?h = "handle_request demo_serde (\<lambda>ks. ks) 9 ''n1'' Heartbeat (demo_sock []) (enter_node ''n1'' 5 ?m)"
  have "case ?r of (Some (Inr _), _) \<Rightarrow> True | _ \<Rightarrow> False" by code_simp
  then obtain s' n1 slept where r: "?r = (Some (Inr s'), n1, slept)"
    by (auto split: prod.splits option.splits sum.splits)
  have fresh: "send_pending_tasks demo_serde (\<lambda>ks. ks) ''n1'' (demo_sock []) (enter_node ''n1'' 5 ?m) = (Inr (), demo_sock [], enter_node ''n1'' 5 ?m)"
    by (simp add: send_pending_tasks_def fresh_node_def)
  obtain f t m' where h: "?h = (f, t, m')" by (cases ?h)
  have run: "master_run demo_serde ?m [Enter ''n1'', Request ''n1'' Heartbeat] m'"
    using master_step.enter [OF lawful_order_id fresh] master_step.request [OF lawful_order_id h]
    by (auto simp: master_run_Cons)
  have wf: "maps_wf ?m" by (simp add: demo_master_def maps_wf_def hm_wf_def)
  have "case hm_get (connected_nodes (snd (snd ?h))) ''n1'' of Some n \<Rightarrow> True | None \<Rightarrow> False" by code_simp
  then obtain n where n: "hm_get (connected_nodes m') ''n1'' = Some n" unfolding h by (auto split: option.splits)
  have d: "room s = None \<and> out s = []" if "dialled (demo_dialer master_answers) demo_join ?c s" for s
    using demo_dialled [OF that] by simp
  have ok: "open_ok ?tasks" by (simp add: open_ok_def hm_wf_def hm_get_def)
  have u: "\<forall>a \<in> set [Request ''n1'' Heartbeat]. unregistered ''n1'' a" by (simp add: unregistered_def)
  have bytes: "frame (as_bytes (join_token demo_join)) @ msg_frame node_serde GetConnectedNodes
      @ concat (map (msg_frame node_serde) (map snd (hm_iter (\<lambda>ks. ks) ?tasks)))
      = [0, 0, 0, 1, 116, 0, 0, 0, 1, 3, 0, 0, 0, 1, 6]" by code_simp
  from role_lost_on_reconnect [OF r d ok run wf u n] show ?thesis
    unfolding bytes by (simp add: r h n)
qed

end
