(* ===== verification/Cluster.thy ===== *)
theory Cluster
  imports NodeMaster
begin

text \<open>
  Master and node as one system: a heartbeat, the tasks the master sends with its acknowledgement, the
  node that performs them, and the results the master reads. What the one side writes is, byte for byte,
  what the other reads.
\<close>

section \<open>What the two sides exchange\<close>

definition result_frames :: "('a) serde_scheme \<Rightarrow> (string \<times> TaskResult) list \<Rightarrow> u8 list" where
  "result_frames J rs = concat (map (\<lambda>(tid, r). msg_frame J (TaskResultMsg tid r)) rs)"

text \<open>The results of the tasks, performed one after the other from the \<open>i\<close>-th step of the node on.\<close>

fun run_tasks ::
  "(nat \<Rightarrow> ('r, 'a, 'u, 'm, 'c) node_world) \<Rightarrow> nat \<Rightarrow> string \<Rightarrow> (string \<times> Task) list \<Rightarrow> ('m, 'u) node_res
     \<Rightarrow> (string \<times> TaskResult) list \<times> ('m, 'u) node_res" where
  "run_tasks W i sd [] n = ([], n)"
| "run_tasks W i sd ((tid, t) # ts) n =
     (case execute_node_task (W i) sd t n of
        (Panicked, n1) \<Rightarrow> ([], n1)
      | (Done r, n1) \<Rightarrow>
          (case run_tasks W (Suc i) sd ts n1 of (rs, n2) \<Rightarrow> ((tid, r) # rs, n2)))"

section \<open>The node\<close>

lemma offline_no_panic:
  assumes "nr_inet n = None"
  obtains r n' where "execute_node_task W sd t n = (Done r, n')" and "nr_inet n' = None"
proof -
  obtain c n' where e: "execute_node_task W sd t n = (c, n')" by (cases "execute_node_task W sd t n")
  have "c \<noteq> Panicked" using panics_iff [of W sd t n] e assms by (auto simp: pick_tcp_def)
  then obtain r where "c = Done r" by (cases c) auto
  moreover from execute_same_res [OF e] assms have "nr_inet n' = None" by (simp add: same_res_def)
  ultimately show thesis using that e by simp
qed

lemma node_performs:
  assumes "nr_inet (nd_res st) = None" and "room (nd_stream st) = None"
    and "inp (nd_stream st) = assign_frames J ts @ r"
    and "run_tasks W i (storage_dir cfg) ts (nd_res st) = (rs, n)"
    and "\<forall>(tid, t) \<in> set ts. msg_ok J (AssignTask tid t)" and "\<forall>(tid, x) \<in> set rs. msg_ok J (TaskResultMsg tid x)"
  shows "\<exists>tasks. node_steps J D ji cfg (map (\<lambda>j. (ord, W j, Ready)) [i ..< i + length ts]) st
      = (Running, st\<lparr>nd_stream := (nd_stream st)\<lparr>inp := r, out := out (nd_stream st) @ result_frames J rs\<rparr>,
           open_tasks := tasks, nd_res := n\<rparr>)
    \<and> hm_get tasks = hm_get (open_tasks st) |` (- fst ` set ts) \<and> map fst rs = map fst ts"
  using assms
proof (induction ts arbitrary: st i rs)
  case Nil
  then show ?case by (auto simp: assign_frames_def result_frames_def restrict_map_def intro!: exI [of _ "open_tasks st"])
next
  case (Cons x ts)
  obtain tid t where x: "x = (tid, t)" by (cases x)
  obtain res n1 where e: "execute_node_task (W i) (storage_dir cfg) t (nd_res st) = (Done res, n1)" and n1: "nr_inet n1 = None"
    using Cons.prems(1) by (rule offline_no_panic)
  obtain rs' where rec: "run_tasks W (Suc i) (storage_dir cfg) ts n1 = (rs', n)" and rs: "rs = (tid, res) # rs'"
    using Cons.prems(4) by (auto simp: x e split: prod.splits)
  have ok: "msg_ok J (AssignTask tid t)" "msg_ok J (TaskResultMsg tid res)" using Cons.prems(5,6) by (auto simp: x rs)
  then obtain b where b: "to_vec J (AssignTask tid t) = Some b" "fits_u32 b" "from_slice J b = Some (AssignTask tid t)"
    by (auto simp: msg_ok_def)
  let ?s = "nd_stream st" and ?rest = "assign_frames J ts @ r"
  let ?s1 = "?s\<lparr>inp := ?rest, out := out ?s @ msg_frame J (TaskResultMsg tid res)\<rparr>"
  let ?tasks1 = "hm_remove tid (hm_insert tid (TaskResultMsg tid res) (open_tasks st))"
  let ?st1 = "st\<lparr>nd_stream := ?s1, open_tasks := ?tasks1, nd_res := n1\<rparr>"
  have "read_length_prefixed ?s = (Inr b, ?s\<lparr>inp := ?rest\<rparr>)"
    by (rule read_length_prefixed_frame [OF b(2)])
      (use Cons.prems(3) b(1) in \<open>simp add: assign_frames_def x msg_frame_def\<close>)
  then have step: "node_step J D ji cfg (ord, W i, Ready) st = (Running, ?st1)"
    using Cons.prems(2) by (simp add: hb_read_def b(3) perform_task_def e send_msg_None [OF ok(2)] Let_def)
  have "\<exists>tasks. node_steps J D ji cfg (map (\<lambda>j. (ord, W j, Ready)) [Suc i ..< Suc i + length ts]) ?st1
      = (Running, ?st1\<lparr>nd_stream := (nd_stream ?st1)\<lparr>inp := r, out := out (nd_stream ?st1) @ result_frames J rs'\<rparr>,
          open_tasks := tasks, nd_res := n\<rparr>)
    \<and> hm_get tasks = hm_get (open_tasks ?st1) |` (- fst ` set ts) \<and> map fst rs' = map fst ts"
    by (rule Cons.IH) (use Cons.prems(2,5,6) n1 rec in \<open>simp_all add: x rs\<close>)
  then obtain tasks where steps: "node_steps J D ji cfg (map (\<lambda>j. (ord, W j, Ready)) [Suc i ..< Suc i + length ts]) ?st1
      = (Running, ?st1\<lparr>nd_stream := (nd_stream ?st1)\<lparr>inp := r, out := out (nd_stream ?st1) @ result_frames J rs'\<rparr>,
          open_tasks := tasks, nd_res := n\<rparr>)"
    and tasks: "hm_get tasks = hm_get (open_tasks ?st1) |` (- fst ` set ts)" "map fst rs' = map fst ts" by blast
  have "[i ..< i + length (x # ts)] = i # [Suc i ..< Suc i + length ts]" by (simp add: upt_rec)
  with step steps have "node_steps J D ji cfg (map (\<lambda>j. (ord, W j, Ready)) [i ..< i + length (x # ts)]) st
      = (Running, st\<lparr>nd_stream := ?s\<lparr>inp := r, out := out ?s @ result_frames J rs\<rparr>, open_tasks := tasks, nd_res := n\<rparr>)"
    by (simp only: list.map node_steps.simps prod.case course.case) (simp add: result_frames_def rs del: upt_Suc)
  moreover have "hm_get tasks = hm_get (open_tasks st) |` (- fst ` set (x # ts))"
    by (rule ext) (simp add: tasks(1) restrict_map_def x)
  ultimately show ?case using tasks(2) by (auto simp: rs x)
qed


text \<open>With the acknowledgement of its heartbeat in front of the tasks.\<close>

lemma node_answers:
  assumes "nr_inet (nd_res st) = None" and "nd_stream st = \<lparr>inp = msg_frame J HeartbeatAck @ assign_frames J ts, out = [], room = None\<rparr>"
    and "run_tasks W 1 (storage_dir cfg) ts (nd_res st) = (rs, n)" and "msg_ok J HeartbeatAck"
    and "\<forall>(tid, t) \<in> set ts. msg_ok J (AssignTask tid t)" and "\<forall>(tid, x) \<in> set rs. msg_ok J (TaskResultMsg tid x)"
  shows "\<exists>st'. node_steps J D ji cfg (map (\<lambda>j. (ord, W j, Ready)) [0 ..< Suc (length ts)]) st = (Running, st')
    \<and> nd_stream st' = \<lparr>inp = [], out = result_frames J rs, room = None\<rparr> \<and> nd_res st' = n
    \<and> hm_get (open_tasks st') = hm_get (open_tasks st) |` (- fst ` set ts) \<and> map fst rs = map fst ts"
proof -
  obtain b where b: "to_vec J HeartbeatAck = Some b" "fits_u32 b" "from_slice J b = Some HeartbeatAck"
    using assms(4) by (auto simp: msg_ok_def)
  let ?st = "st\<lparr>nd_stream := \<lparr>inp = assign_frames J ts, out = [], room = None\<rparr>\<rparr>"
  have "read_length_prefixed (nd_stream st) = (Inr b, (nd_stream st)\<lparr>inp := assign_frames J ts\<rparr>)"
    by (rule read_length_prefixed_frame [OF b(2)]) (simp add: msg_frame_def b(1) assms(2))
  then have "node_step J D ji cfg (ord, W 0, Ready) st = (Running, ?st)" by (simp add: hb_read_def b(3) assms(2))
  moreover have "[0 ..< Suc (length ts)] = 0 # [1 ..< 1 + length ts]" by (simp add: upt_rec)
  ultimately have steps: "node_steps J D ji cfg (map (\<lambda>j. (ord, W j, Ready)) [0 ..< Suc (length ts)]) st
      = node_steps J D ji cfg (map (\<lambda>j. (ord, W j, Ready)) [1 ..< 1 + length ts]) ?st"
    by (simp only: list.map node_steps.simps prod.case course.case)
  have "\<exists>tasks. node_steps J D ji cfg (map (\<lambda>j. (ord, W j, Ready)) [1 ..< 1 + length ts]) ?st
      = (Running, ?st\<lparr>nd_stream := (nd_stream ?st)\<lparr>inp := [], out := out (nd_stream ?st) @ result_frames J rs\<rparr>,
           open_tasks := tasks, nd_res := n\<rparr>)
    \<and> hm_get tasks = hm_get (open_tasks ?st) |` (- fst ` set ts) \<and> map fst rs = map fst ts"
    by (rule node_performs) (use assms in simp_all)
  then obtain tasks where "node_steps J D ji cfg (map (\<lambda>j. (ord, W j, Ready)) [1 ..< 1 + length ts]) ?st
      = (Running, ?st\<lparr>nd_stream := (nd_stream ?st)\<lparr>inp := [], out := out (nd_stream ?st) @ result_frames J rs\<rparr>,
           open_tasks := tasks, nd_res := n\<rparr>)"
    "hm_get tasks = hm_get (open_tasks ?st) |` (- fst ` set ts)" "map fst rs = map fst ts" by blast
  then show ?thesis unfolding steps by (intro exI conjI) (assumption | simp)+
qed

section \<open>The master\<close>

text \<open>On a connection that holds, a round of assignment writes all its messages.\<close>

lemma assign_loop_free:
  assumes "\<And>tid t. assigned m addr role tid = Some t \<Longrightarrow> msg_ok J (AssignTask tid t)"
  shows "\<exists>m' bs. (\<forall>s. room s = None \<longrightarrow> assign_loop J ord addr role s m = (Inr (), s\<lparr>out := out s @ bs\<rparr>, m'))
    \<and> next_task ord addr role m' = None"
  using assms
proof (induction "length (pending_tasks m)" arbitrary: m rule: less_induct)
  case less
  show ?case
  proof (cases "next_task ord addr role m")
    case None
    then show ?thesis by (auto simp: assign_loop.simps [of J ord addr role _ m] intro!: exI [of _ "[]"])
  next
    case (Some tp)
    obtain tid p where tp: "tp = (tid, p)" by (cases tp)
    note nt = Some [unfolded tp]
    from less.prems [OF next_task_assigned [OF nt]] obtain b where b: "to_vec J (AssignTask tid (task p)) = Some b" "fits_u32 b"
      by (auto simp: msg_ok_def)
    let ?m = "take_task addr tid p m"
    have "\<exists>m' bs. (\<forall>s. room s = None \<longrightarrow> assign_loop J ord addr role s ?m = (Inr (), s\<lparr>out := out s @ bs\<rparr>, m'))
        \<and> next_task ord addr role m' = None"
      by (rule less.hyps [OF next_task_shrinks [OF nt]])
        (use less.prems in \<open>auto simp: assigned_take split: if_splits\<close>)
    then obtain m' bs where rec: "\<And>s. room s = None \<Longrightarrow> assign_loop J ord addr role s ?m = (Inr (), s\<lparr>out := out s @ bs\<rparr>, m')"
      and none: "next_task ord addr role m' = None" by blast
    have "assign_loop J ord addr role s m = (Inr (), s\<lparr>out := out s @ frame b @ bs\<rparr>, m')" if "room s = None" for s
      using rec [of "s\<lparr>out := out s @ frame b\<rparr>"] nt b(1) that
      by (simp add: assign_loop.simps [of J ord addr role s m] Let_def write_length_prefixed_None)
    with none show ?thesis by blast
  qed
qed

text \<open>The master reads a result when nothing is left for this node.\<close>

lemma result_round:
  fixes m :: MasterNode
  assumes "lawful_order ord" and "msg_ok J (TaskResultMsg tid r)" and "inp s = msg_frame J (TaskResultMsg tid r) @ rest"
    and "hm_get (connected_nodes m) addr = Some n" and "assigned m addr (node_role n) = Map.empty"
    and "hm_get (pending_tasks m) tid = None"
  shows "\<exists>m'. conn_round J ord now addr s m = (Inr Go, s\<lparr>inp := rest\<rparr>, m')
    \<and> hm_get (completed_tasks m') = (hm_get (completed_tasks m))(tid \<mapsto> r)
    \<and> hm_get (pending_tasks m') = hm_get (pending_tasks m)
    \<and> hm_get (connected_nodes m') = (hm_get (connected_nodes m))(addr \<mapsto> n\<lparr>active_tasks := hm_remove tid (active_tasks n)\<rparr>)
    \<and> assigned m' addr (node_role n) = Map.empty"
proof -
  obtain b where b: "to_vec J (TaskResultMsg tid r) = Some b" "fits_u32 b" "from_slice J b = Some (TaskResultMsg tid r)"
    using assms(2) by (auto simp: msg_ok_def)
  have rd: "read_length_prefixed s = (Inr b, s\<lparr>inp := rest\<rparr>)"
    by (rule read_length_prefixed_frame [OF b(2)]) (use assms(3) b(1) in \<open>simp add: msg_frame_def\<close>)
  let ?n = "n\<lparr>active_tasks := hm_remove tid (active_tasks n)\<rparr>"
  define m' where "m' = snd (snd (process_request J ord now addr (TaskResultMsg tid r) (s\<lparr>inp := rest\<rparr>) m))"
  have m': "connected_nodes m' = hm_modify addr (\<lambda>n. n\<lparr>active_tasks := hm_remove tid (active_tasks n)\<rparr>) (connected_nodes m)"
    "pending_tasks m' = hm_remove tid (pending_tasks m)" "completed_tasks m' = hm_insert tid r (completed_tasks m)"
    by (simp_all add: m'_def Let_def)
  have "assigned m' addr (node_role n) tid' = None" for tid'
    using fun_cong [OF assms(5), of tid'] by (auto simp: assigned_def m' eligible_def list_ex_modify split: option.splits if_splits)
  then have none: "assigned m' addr (node_role n) = Map.empty" by blast
  then have "next_task ord addr (node_role n) m' = None"
    using next_task_assigned [of ord addr "node_role n" m'] by (cases "next_task ord addr (node_role n) m'") auto
  then have "send_pending_tasks J ord addr t m' = (Inr (), t, m')" for t
    by (simp add: send_pending_tasks_def m' assms(4) assign_loop.simps [of J ord addr])
  then have "handle_request J ord now addr (TaskResultMsg tid r) (s\<lparr>inp := rest\<rparr>) m = (Inr Go, s\<lparr>inp := rest\<rparr>, m')"
    using m'_def by (simp add: handle_request_def Let_def)
  with rd b(3) have "conn_round J ord now addr s m = (Inr Go, s\<lparr>inp := rest\<rparr>, m')" by (simp add: conn_round_def)
  with none assms(4,6) show ?thesis by (auto simp: m' fun_eq_iff)
qed

lemma closed_round: "inp s = [] \<Longrightarrow> conn_round J ord now addr s m = (Inr Break, s, m)"
  by (simp add: conn_round_def read_length_prefixed_def read_exact_def)

lemma results_loop:
  fixes m :: MasterNode
  assumes "\<And>i. lawful_order (ords i)" and "\<forall>(tid, r) \<in> set rs. msg_ok J (TaskResultMsg tid r)"
    and "inp s = result_frames J rs" and "distinct (map fst rs)"
    and "hm_get (connected_nodes m) addr = Some n" and "assigned m addr (node_role n) = Map.empty"
    and "\<forall>tid \<in> fst ` set rs. hm_get (pending_tasks m) tid = None"
  shows "\<exists>m' A. conn_loop J ords clk addr i s m = (Inr (), s\<lparr>inp := []\<rparr>, m')
    \<and> hm_get (completed_tasks m') = hm_get (completed_tasks m) ++ map_of rs
    \<and> hm_get (pending_tasks m') = hm_get (pending_tasks m)
    \<and> hm_get (connected_nodes m') = (hm_get (connected_nodes m))(addr \<mapsto> n\<lparr>active_tasks := A\<rparr>)
    \<and> hm_get A = hm_get (active_tasks n) |` (- fst ` set rs)"
  using assms(2-)
proof (induction rs arbitrary: s m n i)
  case Nil
  then have "conn_loop J ords clk addr i s m = (Inr (), s, m)" "s\<lparr>inp := []\<rparr> = s"
    by (simp_all add: conn_loop.simps [of J ords clk addr i] closed_round result_frames_def)
  with Nil show ?case
    by (intro exI [of _ m] exI [of _ "active_tasks n"]) (auto simp: fun_eq_iff restrict_map_def)
next
  case (Cons x rs)
  obtain tid r where x: "x = (tid, r)" by (cases x)
  let ?s = "s\<lparr>inp := result_frames J rs\<rparr>" and ?n = "n\<lparr>active_tasks := hm_remove tid (active_tasks n)\<rparr>"
  obtain m1 where round: "conn_round J (ords i) (clk i) addr s m = (Inr Go, ?s, m1)"
    and m1: "hm_get (completed_tasks m1) = (hm_get (completed_tasks m))(tid \<mapsto> r)" "hm_get (pending_tasks m1) = hm_get (pending_tasks m)"
      "hm_get (connected_nodes m1) = (hm_get (connected_nodes m))(addr \<mapsto> ?n)" "assigned m1 addr (node_role n) = Map.empty"
    using result_round [OF assms(1) [of i], of J tid r s "result_frames J rs" m addr n "clk i"] Cons.prems
    by (auto simp: x result_frames_def)
  have "\<exists>m' A. conn_loop J ords clk addr (Suc i) ?s m1 = (Inr (), ?s\<lparr>inp := []\<rparr>, m')
    \<and> hm_get (completed_tasks m') = hm_get (completed_tasks m1) ++ map_of rs
    \<and> hm_get (pending_tasks m') = hm_get (pending_tasks m1)
    \<and> hm_get (connected_nodes m') = (hm_get (connected_nodes m1))(addr \<mapsto> ?n\<lparr>active_tasks := A\<rparr>)
    \<and> hm_get A = hm_get (active_tasks ?n) |` (- fst ` set rs)"
    by (rule Cons.IH) (use Cons.prems m1 in \<open>simp_all add: x\<close>)
  then obtain m' A where "conn_loop J ords clk addr (Suc i) ?s m1 = (Inr (), s\<lparr>inp := []\<rparr>, m')"
    and m': "hm_get (completed_tasks m') = hm_get (completed_tasks m1) ++ map_of rs"
    "hm_get (pending_tasks m') = hm_get (pending_tasks m1)"
    "hm_get (connected_nodes m') = (hm_get (connected_nodes m1))(addr \<mapsto> ?n\<lparr>active_tasks := A\<rparr>)"
    "hm_get A = hm_get (active_tasks ?n) |` (- fst ` set rs)" by auto
  then have "conn_loop J ords clk addr i s m = (Inr (), s\<lparr>inp := []\<rparr>, m')" using conn_loop_go [where ords = ords and clk = clk, OF round] by simp
  moreover have "hm_get (completed_tasks m') = hm_get (completed_tasks m) ++ map_of (x # rs)"
    using Cons.prems(3) unfolding m'(1) m1(1)
    by (auto simp: x fun_eq_iff map_add_def map_of_eq_None_iff split: option.splits dest!: map_of_SomeD intro: rev_image_eqI)
  moreover have "hm_get A = hm_get (active_tasks n) |` (- fst ` set (x # rs))"
    unfolding m'(4) by (auto simp: x fun_eq_iff restrict_map_def)
  moreover have "hm_get (connected_nodes m') = (hm_get (connected_nodes m))(addr \<mapsto> n\<lparr>active_tasks := A\<rparr>)"
    unfolding m'(3) m1(3) by simp
  ultimately show ?case using m'(2) m1(2) by metis
qed

text \<open>
  The master reads a heartbeat: the acknowledgement, then a message for every task of this node, whatever
  follows on the connection.
\<close>

lemma heartbeat_round:
  fixes m :: MasterNode
  assumes "lawful_order ord" and "msg_ok J Heartbeat" and "msg_ok J HeartbeatAck"
    and "hm_get (connected_nodes m) addr = Some n" and as: "as = assigned m addr (node_role n)"
    and "\<And>tid t. as tid = Some t \<Longrightarrow> msg_ok J (AssignTask tid t)"
  shows "\<exists>m1 ts A. (\<forall>s rest. inp s = msg_frame J Heartbeat @ rest \<and> room s = None \<longrightarrow> conn_round J ord now addr s m
        = (Inr Go, s\<lparr>inp := rest, out := out s @ msg_frame J HeartbeatAck @ assign_frames J ts\<rparr>, m1))
    \<and> distinct (map fst ts) \<and> map_of ts = as
    \<and> hm_get (pending_tasks m1) = hm_get (pending_tasks m) |` (- dom as)
    \<and> completed_tasks m1 = completed_tasks m
    \<and> hm_get (connected_nodes m1) = (hm_get (connected_nodes m))(addr \<mapsto> n\<lparr>last_heartbeat := now, is_worker := True, active_tasks := A\<rparr>)
    \<and> hm_get A = hm_get (active_tasks n) ++ as
    \<and> assigned m1 addr (node_role n) = Map.empty"
proof -
  obtain b where b: "to_vec J Heartbeat = Some b" "fits_u32 b" "from_slice J b = Some Heartbeat"
    using assms(2) by (auto simp: msg_ok_def)
  let ?beat = "\<lambda>n. n\<lparr>last_heartbeat := now, is_worker := True\<rparr>" and ?role = "node_role n"
  let ?m = "modify_node addr ?beat m" and ?ack = "msg_frame J HeartbeatAck"
  have same: "assigned ?m addr ?role = as"
    by (rule ext) (simp add: as assigned_def eligible_def list_ex_modify modify_node_def split: option.split)
  then obtain m1 bs where loop: "\<And>s. room s = None \<Longrightarrow> assign_loop J ord addr ?role s ?m = (Inr (), s\<lparr>out := out s @ bs\<rparr>, m1)"
    and none: "next_task ord addr ?role m1 = None"
    using assign_loop_free [of ?m addr ?role J ord] assms(6) by auto
  have node: "hm_get (connected_nodes ?m) addr = Some (?beat n)" using assms(4) by (simp add: modify_node_def)
  let ?e = "\<lparr>inp = [], out = [], room = None\<rparr>"
  have post: "assign_post J addr (?beat n) as ?e ?m (?e\<lparr>out := bs\<rparr>) m1"
    using assign_loop_post [OF assms(1) node loop [of ?e]] by (simp add: same)
  have "conn_round J ord now addr s m = (Inr Go, s\<lparr>inp := rest, out := out s @ ?ack @ bs\<rparr>, m1)"
    if s: "inp s = msg_frame J Heartbeat @ rest" "room s = None" for s rest
  proof -
    have rd: "read_length_prefixed s = (Inr b, s\<lparr>inp := rest\<rparr>)"
      by (rule read_length_prefixed_frame [OF b(2)]) (use s b(1) in \<open>simp add: msg_frame_def\<close>)
    have "send_pending_tasks J ord addr t ?m = (Inr (), t\<lparr>out := out t @ bs\<rparr>, m1)" if "room t = None" for t
      using loop [OF that] node by (simp add: send_pending_tasks_def del: modify_node_fields)
    with rd b(3) s(2) show ?thesis
      by (simp add: conn_round_def handle_request_def reply_free [OF assms(3)] del: modify_node_fields)
  qed
  moreover obtain ts A where "distinct (map fst ts)" "map_of ts = as" "bs = assign_frames J ts"
    and "hm_get (pending_tasks m1) = hm_get (pending_tasks m) |` (- dom as)" "completed_tasks m1 = completed_tasks m"
    and "hm_get A = hm_get (active_tasks n) ++ as"
    and "hm_get (connected_nodes m1) = (hm_get (connected_nodes m))(addr \<mapsto> n\<lparr>last_heartbeat := now, is_worker := True, active_tasks := A\<rparr>)"
    using post by (auto simp: assign_post_def modify_node_def)
  ultimately show ?thesis using next_task_None [OF assms(1) none] by blast
qed

section \<open>Both together\<close>

text \<open>
  C4: a heartbeat finishes the work that waits for a node. For every node without sockets of its own and
  every order in which the master looks at its queue there is a series of tasks, exactly those that wait
  for this node, such that both sides run on each other's bytes: the master, reading the heartbeat and then
  what the node writes, reaches the end of the connection; the node, reading what the master writes, performs
  each task once, in the order in which it was sent, and holds no result back; and afterwards the
  master has, in addition to its results, those the node computed, the tasks are out of the queue, and
  none of them is active at the node.
\<close>

theorem heartbeat_finishes_tasks:
  fixes m :: MasterNode
  assumes "\<And>i. lawful_order (ords i)" and "hm_get (connected_nodes m) addr = Some n"
    and "as = assigned m addr (node_role n)" and "nr_inet (nd_res st) = None"
    and "msg_ok J Heartbeat" and "msg_ok J HeartbeatAck" and "\<And>tid t. as tid = Some t \<Longrightarrow> msg_ok J (AssignTask tid t)"
    and "\<And>ts tid r. map_of ts = as \<Longrightarrow> distinct (map fst ts) \<Longrightarrow> (tid, r) \<in> set (fst (run_tasks W 1 (storage_dir cfg) ts (nd_res st))) \<Longrightarrow>
        msg_ok J (TaskResultMsg tid r)"
  shows "\<exists>ts rs t m' st' A. map_of ts = as \<and> distinct (map fst ts)
    \<and> run_tasks W 1 (storage_dir cfg) ts (nd_res st) = (rs, nd_res st') \<and> map fst rs = map fst ts
    \<and> conn_loop J ords clk addr i \<lparr>inp = msg_frame J Heartbeat @ result_frames J rs, out = [], room = None\<rparr> m = (Inr (), t, m')
    \<and> node_steps J D ji cfg (map (\<lambda>j. (ord, W j, Ready)) [0 ..< Suc (length ts)])
        (st\<lparr>nd_stream := \<lparr>inp = out t, out = [], room = None\<rparr>\<rparr>) = (Running, st')
    \<and> nd_stream st' = \<lparr>inp = [], out = result_frames J rs, room = None\<rparr>
    \<and> hm_get (open_tasks st') = hm_get (open_tasks st) |` (- dom as)
    \<and> hm_get (completed_tasks m') = hm_get (completed_tasks m) ++ map_of rs
    \<and> hm_get (pending_tasks m') = hm_get (pending_tasks m) |` (- dom as)
    \<and> hm_get (connected_nodes m') =
        (hm_get (connected_nodes m))(addr \<mapsto> n\<lparr>last_heartbeat := clk i, is_worker := True, active_tasks := A\<rparr>)
    \<and> hm_get A = hm_get (active_tasks n)"
proof -
  let ?sd = "storage_dir cfg" and ?ack = "msg_frame J HeartbeatAck"
  let ?e = "\<lparr>inp = [], out = [], room = None\<rparr>"
  obtain m1 ts A1 where round: "\<And>s rest. inp s = msg_frame J Heartbeat @ rest \<Longrightarrow> room s = None \<Longrightarrow>
      conn_round J (ords i) (clk i) addr s m = (Inr Go, s\<lparr>inp := rest, out := out s @ ?ack @ assign_frames J ts\<rparr>, m1)"
    and ts: "distinct (map fst ts)" "map_of ts = as"
    and m1: "hm_get (pending_tasks m1) = hm_get (pending_tasks m) |` (- dom as)" "completed_tasks m1 = completed_tasks m"
      "hm_get (connected_nodes m1) = (hm_get (connected_nodes m))(addr \<mapsto> n\<lparr>last_heartbeat := clk i, is_worker := True, active_tasks := A1\<rparr>)"
      "hm_get A1 = hm_get (active_tasks n) ++ as" "assigned m1 addr (node_role n) = Map.empty"
    using heartbeat_round [OF assms(1) [of i] assms(5,6,2,3,7), of "clk i"] by blast
  obtain rs res where run: "run_tasks W 1 ?sd ts (nd_res st) = (rs, res)" by (cases "run_tasks W 1 ?sd ts (nd_res st)")
  have dom: "fst ` set ts = dom as" by (simp add: ts(2) [symmetric] dom_map_of_conv_image_fst)
  have ok: "\<forall>(tid, t) \<in> set ts. msg_ok J (AssignTask tid t)" "\<forall>(tid, x) \<in> set rs. msg_ok J (TaskResultMsg tid x)"
    using assms(7) assms(8) [OF ts(2,1)] run ts by (auto simp: map_of_eq_Some_iff)
  let ?s = "\<lparr>inp = msg_frame J Heartbeat @ result_frames J rs, out = [], room = None\<rparr>"
  let ?t = "\<lparr>inp = result_frames J rs, out = ?ack @ assign_frames J ts, room = None\<rparr>"
  let ?n1 = "n\<lparr>last_heartbeat := clk i, is_worker := True, active_tasks := A1\<rparr>"
  have r1: "conn_round J (ords i) (clk i) addr ?s m = (Inr Go, ?t, m1)" using round [of ?s] by simp
  obtain st' where steps: "node_steps J D ji cfg (map (\<lambda>j. (ord, W j, Ready)) [0 ..< Suc (length ts)])
      (st\<lparr>nd_stream := \<lparr>inp = ?ack @ assign_frames J ts, out = [], room = None\<rparr>\<rparr>) = (Running, st')"
    and st': "nd_stream st' = \<lparr>inp = [], out = result_frames J rs, room = None\<rparr>" "nd_res st' = res"
      "hm_get (open_tasks st') = hm_get (open_tasks st) |` (- dom as)" "map fst rs = map fst ts"
    using node_answers [of "st\<lparr>nd_stream := \<lparr>inp = ?ack @ assign_frames J ts, out = [], room = None\<rparr>\<rparr>" J ts W cfg rs res D ji ord]
      assms(4,6) run ok by (auto simp: dom)
  have waiting: "\<forall>tid \<in> fst ` set rs. hm_get (pending_tasks m1) tid = None"
  proof
    fix tid assume "tid \<in> fst ` set rs"
    then have "tid \<in> dom as" using st'(4) dom by (metis list.set_map)
    then show "hm_get (pending_tasks m1) tid = None" by (simp add: m1(1))
  qed
  have n1: "hm_get (connected_nodes m1) addr = Some ?n1" "assigned m1 addr (node_role ?n1) = Map.empty" "distinct (map fst rs)"
    using m1(3,5) ts(1) st'(4) by simp_all
  have "\<exists>m' A. conn_loop J ords clk addr (Suc i) ?t m1 = (Inr (), ?t\<lparr>inp := []\<rparr>, m')
    \<and> hm_get (completed_tasks m') = hm_get (completed_tasks m1) ++ map_of rs
    \<and> hm_get (pending_tasks m') = hm_get (pending_tasks m1)
    \<and> hm_get (connected_nodes m') = (hm_get (connected_nodes m1))(addr \<mapsto> ?n1\<lparr>active_tasks := A\<rparr>)
    \<and> hm_get A = hm_get (active_tasks ?n1) |` (- fst ` set rs)"
    by (rule results_loop [OF assms(1) ok(2) _ n1(3,1,2) waiting]) simp
  then obtain m' A where loop: "conn_loop J ords clk addr (Suc i) ?t m1 = (Inr (), ?t\<lparr>inp := []\<rparr>, m')"
    and m': "hm_get (completed_tasks m') = hm_get (completed_tasks m1) ++ map_of rs"
    "hm_get (pending_tasks m') = hm_get (pending_tasks m1)"
    "hm_get (connected_nodes m') = (hm_get (connected_nodes m1))(addr \<mapsto> ?n1\<lparr>active_tasks := A\<rparr>)"
    "hm_get A = hm_get (active_tasks ?n1) |` (- fst ` set rs)" by blast
  have "hm_get (active_tasks n) tid = None" if "tid \<in> dom as" for tid
    using that assms(2) eligible_not_active [of m addr "node_role n" tid _ addr]
    by (auto simp: assms(3) assigned_def active_on_def split: option.splits if_splits)
  moreover have "fst ` set rs = dom as" using st'(4) dom by (metis list.set_map)
  ultimately have A: "hm_get A = hm_get (active_tasks n)"
    using m1(4) by (auto simp: m'(4) fun_eq_iff restrict_map_def map_add_def split: option.splits)
  have master: "conn_loop J ords clk addr i ?s m = (Inr (), ?t\<lparr>inp := []\<rparr>, m')"
    using conn_loop_go [where ords = ords and clk = clk, OF r1] loop by simp
  have nodes: "hm_get (connected_nodes m') =
      (hm_get (connected_nodes m))(addr \<mapsto> n\<lparr>last_heartbeat := clk i, is_worker := True, active_tasks := A\<rparr>)"
    by (simp add: m'(3) m1(3))
  show ?thesis
    by (rule exI [of _ ts], rule exI [of _ rs], rule exI [of _ "?t\<lparr>inp := []\<rparr>"], rule exI [of _ m'], rule exI [of _ st'], rule exI [of _ A])
      (use ts run st' master nodes steps A m'(1,2) m1(1,2) in simp)
qed

text \<open>A worker that has not sent a heartbeat yet, and the task \<open>1+1\<close> waiting for any worker.\<close>

definition idle_node :: NodeInfo where
  "idle_node = fresh_node ''n1'' 5"

definition waiting_master :: MasterNode where
  "waiting_master = demo_master [(''n1'', idle_node)] [7] [(''t1'', demo_task)]"

definition adding_world :: "(unit, unit, unit, u8 list hmap, int \<times> int) node_world" where
  "adding_world = demo_world\<lparr>w_web := demo_web\<lparr>eval_str := (\<lambda>_. Inr 2)\<rparr>\<rparr>"

theorem heartbeat_finishes_tasks_witness:
  "\<exists>t m' st'. conn_loop demo_serde (\<lambda>_ ks. ks) (\<lambda>_. 9) ''n1'' 0
        \<lparr>inp = msg_frame demo_serde Heartbeat @ msg_frame demo_serde (TaskResultMsg ''t1'' (Number 2)), out = [], room = None\<rparr>
        waiting_master = (Inr (), t, m')
    \<and> node_steps demo_serde (demo_dialer []) demo_join Config_default (map (\<lambda>j. (\<lambda>ks. ks, adding_world, Ready)) [0 ..< 2])
        (node_demo \<lparr>inp = out t, out = [], room = None\<rparr> []) = (Running, st')
    \<and> out (nd_stream st') = msg_frame demo_serde (TaskResultMsg ''t1'' (Number 2))
    \<and> hm_get (completed_tasks m') ''t1'' = Some (Number 2) \<and> hm_get (pending_tasks m') ''t1'' = None"
proof -
  let ?as = "assigned waiting_master ''n1'' (node_role idle_node)" and ?st = "node_demo \<lparr>inp = [], out = [], room = None\<rparr> []"
  have n: "hm_get (connected_nodes waiting_master) ''n1'' = Some idle_node"
    by (simp add: waiting_master_def demo_master_def hm_get_def)
  have as: "?as = [''t1'' \<mapsto> Compute ''1+1'']"
    by (rule ext) (simp add: assigned_def waiting_master_def idle_node_def fresh_node_def demo_defs hm_get_def eligible_def
        role_for_task_def hm_values_def)
  have only: "ts = [(''t1'', Compute ''1+1'')]" if "map_of ts = ?as" "distinct (map fst ts)" for ts
  proof -
    have "(k, v) \<in> set ts \<longleftrightarrow> k = ''t1'' \<and> v = Compute ''1+1''" for k v
      using map_of_eq_Some_iff [OF that(2), of k v, symmetric] by (simp add: that(1) as del: map_of_eq_Some_iff) auto
    then have "set ts = {(''t1'', Compute ''1+1'')}" by auto
    with that(2) show ?thesis by (cases ts; cases "tl ts") (auto simp: distinct_map)
  qed
  have run: "run_tasks (\<lambda>_. adding_world) 1 (storage_dir Config_default) [(''t1'', Compute ''1+1'')] (nd_res ?st)
      = ([(''t1'', Number 2)], nd_res ?st)"
    by (simp add: execute_task_def adding_world_def demo_web_def)
  have ok: "msg_ok demo_serde (TaskResultMsg ''t1'' (Number 2))"
    by (simp add: msg_ok_def demo_serde_def demo_table_def fits_u32_def)
  have inet: "nr_inet (nd_res ?st) = None" by (simp add: node_demo_def)
  have h7: "msg_ok demo_serde (AssignTask tid t)" if "?as tid = Some t" for tid t
    using that by (auto simp: as split: if_splits)
  have h8: "msg_ok demo_serde (TaskResultMsg tid r)" if "map_of ts = ?as" "distinct (map fst ts)"
    "(tid, r) \<in> set (fst (run_tasks (\<lambda>_. adding_world) 1 (storage_dir Config_default) ts (nd_res ?st)))" for ts tid r
    using that(3) run ok only [OF that(1,2)] by simp
  note T = heartbeat_finishes_tasks [where W = "\<lambda>_. adding_world" and cfg = Config_default and clk = "\<lambda>_. 9" and i = 0
      and D = "demo_dialer []" and ji = demo_join and ord = "\<lambda>ks. ks", OF lawful_order_id n refl inet demo_msg_ok(1,2)]
  obtain ts rs t m' st' where r: "map_of ts = ?as" "distinct (map fst ts)"
      "run_tasks (\<lambda>_. adding_world) 1 (storage_dir Config_default) ts (nd_res ?st) = (rs, nd_res st')"
    and master: "conn_loop demo_serde (\<lambda>_ ks. ks) (\<lambda>_. 9) ''n1'' 0
      \<lparr>inp = msg_frame demo_serde Heartbeat @ result_frames demo_serde rs, out = [], room = None\<rparr> waiting_master = (Inr (), t, m')"
    and node: "node_steps demo_serde (demo_dialer []) demo_join Config_default
      (map (\<lambda>j. (\<lambda>ks. ks, adding_world, Ready)) [0 ..< Suc (length ts)])
      (?st\<lparr>nd_stream := \<lparr>inp = out t, out = [], room = None\<rparr>\<rparr>) = (Running, st')"
    and out: "nd_stream st' = \<lparr>inp = [], out = result_frames demo_serde rs, room = None\<rparr>"
      "hm_get (completed_tasks m') = hm_get (completed_tasks waiting_master) ++ map_of rs"
      "hm_get (pending_tasks m') = hm_get (pending_tasks waiting_master) |` (- dom ?as)"
    by (rule T [THEN exE], erule h7, erule (2) h8) (elim exE conjE, (rule that; assumption))
  note ts = only [OF r(1,2)]
  have rs: "rs = [(''t1'', Number 2)]" using r(3) run unfolding ts by simp
  have st: "?st\<lparr>nd_stream := s\<rparr> = node_demo s []" for s by (simp add: node_demo_def)
  have two: "Suc (length ts) = 2" by (simp add: ts)
  show ?thesis
    by (rule exI [of _ t], rule exI [of _ m'], rule exI [of _ st'])
      (use master node [unfolded st two] out in \<open>simp add: rs result_frames_def as\<close>)
qed

end
