(* ===== verification/Client.thy ===== *)
theory Client
  imports NodeConn MasterConn
begin

text \<open>
  The client: \<open>submit_and_wait\<close> (cpcluster_client/src/lib.rs), which submits a task and polls for its
  result until a deadline, and the session of the program itself (cpcluster_client/src/main.rs), with
  its own polling, the chained task, the data tests and the local execution. Times are milliseconds;
  how long each step takes is the record \<open>pace\<close>.
\<close>

section \<open>Submitting with a deadline\<close>

text \<open>
  For the \<open>i\<close>-th poll: the time the request takes, the time until its answer is complete, how much
  longer than 500 ms the pause is, and how many bytes of the answer a timed-out read has taken.
\<close>

record pace =
  lag :: "nat \<Rightarrow> nat"
  took :: "nat \<Rightarrow> nat"
  late :: "nat \<Rightarrow> nat"
  partly :: "nat \<Rightarrow> nat"

definition timed_out :: err where
  "timed_out = Other ''task timed out''"

definition default_timeout :: nat where
  "default_timeout = 5 * 1000"

text \<open>One round: the result, the end with an error, or the time at which the answer was no result.\<close>

datatype polled = Result TaskResult | Failed err | Again nat

definition poll_round :: "('j) serde_scheme \<Rightarrow> pace \<Rightarrow> string \<Rightarrow> nat \<Rightarrow> nat \<Rightarrow> nat \<Rightarrow> sock \<Rightarrow> polled \<times> sock" where
  "poll_round J P tid deadline i now s =
     (case send_msg J (GetTaskResult tid) s of
        (Inl e, s1) \<Rightarrow> (Failed e, s1)
      | (Inr _, s1) \<Rightarrow>
          (let t1 = now + lag P i;
               remaining = deadline - t1
           in if remaining = 0 then (Failed timed_out, s1)
              else if remaining < took P i then (Failed timed_out, s1\<lparr>inp := drop (partly P i) (inp s1)\<rparr>)
              else (case read_length_prefixed s1 of
                      (Inl e, s2) \<Rightarrow> (Failed e, s2)
                    | (Inr buf, s2) \<Rightarrow>
                        (case from_slice J buf of
                           None \<Rightarrow> (Failed Serde, s2)
                         | Some (TaskResultMsg _ result) \<Rightarrow> (Result result, s2)
                         | Some _ \<Rightarrow>
                             (let t2 = t1 + took P i
                              in if deadline \<le> t2 then (Failed timed_out, s2) else (Again t2, s2))))))"

lemma poll_round_again: "poll_round J P tid deadline i now s = (Again t, s') \<Longrightarrow> now \<le> t \<and> t < deadline"
  by (auto simp: poll_round_def Let_def split: prod.splits sum.splits if_splits option.splits NodeMessage.splits)

function poll_until ::
  "('j) serde_scheme \<Rightarrow> pace \<Rightarrow> string \<Rightarrow> nat \<Rightarrow> nat \<Rightarrow> nat \<Rightarrow> sock \<Rightarrow> TaskResult result \<times> sock" where
  "poll_until J P tid deadline i now s =
     (case poll_round J P tid deadline i now s of
        (Result r, s1) \<Rightarrow> (Inr r, s1)
      | (Failed e, s1) \<Rightarrow> (Inl e, s1)
      | (Again t, s1) \<Rightarrow> poll_until J P tid deadline (Suc i) (t + 500 + late P i) s1)"
  by pat_completeness auto
termination
  by (relation "measure (\<lambda>(J, P, tid, deadline, i, now, s). deadline - now)")
    (auto dest!: sym [of _ "poll_round _ _ _ _ _ _ _"] poll_round_again)

declare poll_until.simps [simp del]

definition submit_and_wait ::
  "('j) serde_scheme \<Rightarrow> pace \<Rightarrow> string \<Rightarrow> Task \<Rightarrow> nat option \<Rightarrow> sock \<Rightarrow> TaskResult result \<times> sock" where
  "submit_and_wait J P tid t limit s =
     (case send_msg J (SubmitTask tid t) s of
        (Inl e, s1) \<Rightarrow> (Inl e, s1)
      | (Inr _, s1) \<Rightarrow>
          (case read_length_prefixed s1 of
             (Inl e, s2) \<Rightarrow> (Inl e, s2)
           | (Inr _, s2) \<Rightarrow>
               poll_until J P tid (case limit of None \<Rightarrow> default_timeout | Some d \<Rightarrow> d) 0 0 s2))"

section \<open>The session of the program\<close>

text \<open>What is logged and printed.\<close>

datatype shown = First TaskResult | Chained TaskResult | Ram_id string | Storage_id string

text \<open>The \<open>k\<close>-th fresh id, the text of a number, and what local execution needs.\<close>

record 'r client_env =
  uuid :: "nat \<Rightarrow> string"
  show_f64 :: "f64 \<Rightarrow> string"
  here :: "'r web"
  pace_at :: "nat \<Rightarrow> pace"

definition times_three :: "('r, 'z) client_env_scheme \<Rightarrow> f64 \<Rightarrow> Task" where
  "times_three E v = Compute (show_f64 E v @ '' * 3'')"

text \<open>The two loops of \<open>main\<close>, which have no deadline; every round reads a message.\<close>

definition await_round :: "('j) serde_scheme \<Rightarrow> string \<Rightarrow> sock \<Rightarrow> TaskResult option result \<times> sock" where
  "await_round J tid s =
     (case send_msg J (GetTaskResult tid) s of
        (Inl e, s1) \<Rightarrow> (Inl e, s1)
      | (Inr _, s1) \<Rightarrow>
          (case recv_msg J s1 of
             (Inl e, s2) \<Rightarrow> (Inl e, s2)
           | (Inr (TaskResultMsg _ r), s2) \<Rightarrow> (Inr (Some r), s2)
           | (Inr _, s2) \<Rightarrow> (Inr None, s2)))"

lemma recv_msg_shrinks: "recv_msg J s = (Inr msg, s') \<Longrightarrow> length (inp s') < length (inp s)"
  by (auto simp: recv_msg_def split: prod.splits sum.splits option.splits dest: read_length_prefixed_shrinks)

lemma await_round_shrinks:
  assumes "await_round J tid s = (Inr None, s')"
  shows "length (inp s') < length (inp s)"
proof -
  obtain w s1 where w: "send_msg J (GetTaskResult tid) s = (w, s1)" by (cases "send_msg J (GetTaskResult tid) s")
  obtain r s2 where r: "recv_msg J s1 = (r, s2)" by (cases "recv_msg J s1")
  from assms obtain msg where "r = Inr msg" "s2 = s'"
    unfolding await_round_def w prod.case r by (cases w; cases r) (auto split: NodeMessage.splits)
  with r recv_msg_shrinks [of J s1 msg s'] send_msg_inpD [OF w] show ?thesis by simp
qed

function await_result :: "('j) serde_scheme \<Rightarrow> string \<Rightarrow> sock \<Rightarrow> TaskResult result \<times> sock" where
  "await_result J tid s =
     (case await_round J tid s of
        (Inl e, s1) \<Rightarrow> (Inl e, s1)
      | (Inr (Some r), s1) \<Rightarrow> (Inr r, s1)
      | (Inr None, s1) \<Rightarrow> await_result J tid s1)"
  by pat_completeness auto
termination
  by (relation "measure (\<lambda>(J, tid, s). length (inp s))") (auto intro: await_round_shrinks [OF sym])

declare await_result.simps [simp del]

definition submit_plain :: "('j) serde_scheme \<Rightarrow> string \<Rightarrow> Task \<Rightarrow> sock \<Rightarrow> TaskResult result \<times> sock" where
  "submit_plain J tid t s =
     (case send_msg J (SubmitTask tid t) s of
        (Inl e, s1) \<Rightarrow> (Inl e, s1)
      | (Inr _, s1) \<Rightarrow>
          (case read_length_prefixed s1 of
             (Inl e, s2) \<Rightarrow> (Inl e, s2)
           | (Inr _, s2) \<Rightarrow> await_result J tid s2))"

text \<open>\<open>run_data_tests\<close>; the ids from \<open>k\<close> on are used in the order in which the code makes them.\<close>

definition run_data_tests ::
  "('j) serde_scheme \<Rightarrow> ('r, 'z) client_env_scheme \<Rightarrow> nat \<Rightarrow> sock \<Rightarrow> unit result \<times> shown list \<times> sock" where
  "run_data_tests J E k s =
     (case submit_and_wait J (pace_at E 0) (uuid E k) (Compute ''1+1'') (Some default_timeout) s of
        (Inl e, s1) \<Rightarrow> (Inl e, [], s1)
      | (Inr (Number v), s1) \<Rightarrow>
          (let mem_id = uuid E (k + 1)
           in case submit_and_wait J (pace_at E 1) (uuid E (k + 2)) (StoreData mem_id (as_bytes (show_f64 E v)))
                     (Some default_timeout) s1 of
                (Inl e, s2) \<Rightarrow> (Inl e, [], s2)
              | (Inr _, s2) \<Rightarrow>
                  (let disk_id = uuid E (k + 3) @ ''.txt'';
                       content = mem_id @ '':'' @ show_f64 E v
                   in case submit_and_wait J (pace_at E 2) (uuid E (k + 4)) (DiskWrite disk_id (as_bytes content))
                             (Some default_timeout) s2 of
                        (Inl e, s3) \<Rightarrow> (Inl e, [], s3)
                      | (Inr _, s3) \<Rightarrow> (Inr (), [Ram_id mem_id, Storage_id disk_id], s3)))
      | (Inr _, s1) \<Rightarrow> (Inr (), [], s1))"

text \<open>Without workers: both tasks are executed here.\<close>

definition execute_locally :: "('r, 'z) client_env_scheme \<Rightarrow> Task \<Rightarrow> shown list" where
  "execute_locally E t =
     (let result = execute_task (here E) t
      in First result #
         (case result of Number v \<Rightarrow> [Chained (execute_task (here E) (times_three E v))] | _ \<Rightarrow> []))"

definition with_output :: "shown list \<Rightarrow> unit result \<times> shown list \<times> sock \<Rightarrow> unit result \<times> shown list \<times> sock" where
  "with_output xs r = (case r of (a, ys, s) \<Rightarrow> (a, xs @ ys, s))"

definition submit_remotely ::
  "('j) serde_scheme \<Rightarrow> ('r, 'z) client_env_scheme \<Rightarrow> Task \<Rightarrow> sock \<Rightarrow> unit result \<times> shown list \<times> sock" where
  "submit_remotely J E t s =
     (case submit_plain J (uuid E 0) t s of
        (Inl e, s1) \<Rightarrow> (Inl e, [], s1)
      | (Inr result, s1) \<Rightarrow>
          with_output [First result]
            (case result of
               Number v \<Rightarrow>
                 (case submit_plain J (uuid E 1) (times_three E v) s1 of
                    (Inl e, s2) \<Rightarrow> (Inl e, [], s2)
                  | (Inr r, s2) \<Rightarrow> with_output [Chained r] (run_data_tests J E 2 s2))
             | _ \<Rightarrow> run_data_tests J E 1 s1))"

text \<open>\<open>main\<close> from the connection on.\<close>

definition client_session ::
  "('j) serde_scheme \<Rightarrow> ('r, 'z) client_env_scheme \<Rightarrow> string \<Rightarrow> sock \<Rightarrow> unit result \<times> shown list \<times> sock" where
  "client_session J E token s =
     (case authenticate token s of
        (Inl e, s1) \<Rightarrow> (Inl e, [], s1)
      | (Inr False, s1) \<Rightarrow> (Inl (Other ''authentication failed''), [], s1)
      | (Inr True, s1) \<Rightarrow>
          (case send_msg J GetConnectedNodes s1 of
             (Inl e, s2) \<Rightarrow> (Inl e, [], s2)
           | (Inr _, s2) \<Rightarrow>
               (case recv_msg J s2 of
                  (Inl e, s3) \<Rightarrow> (Inl e, [], s3)
                | (Inr answer, s3) \<Rightarrow>
                    (let t = Compute ''1+2''
                     in if answer = ConnectedNodes [] then (Inr (), execute_locally E t, s3)
                        else submit_remotely J E t s3))))"

end
