(* ===== verification/ClientProps.thy ===== *)
theory ClientProps
  imports Client MasterProps
begin

text \<open>
  What the client gets: the number of polls, the result the master has, answers that come late, and
  the course of a whole session.
\<close>

section \<open>Polling\<close>

lemma send_msg_room:
  "room s = None \<Longrightarrow> send_msg J msg s = (r, s') \<Longrightarrow> out s' = out s @ msg_frame J msg \<and> room s' = None \<and> inp s' = inp s"
  by (auto simp: send_msg_def msg_frame_def write_length_prefixed_None split: option.splits)

lemma poll_round_out:
  assumes "poll_round J P tid deadline i now s = (p, s')" and "room s = None"
  shows "out s' = out s @ msg_frame J (GetTaskResult tid) \<and> room s' = None"
proof -
  obtain w s1 where w: "send_msg J (GetTaskResult tid) s = (w, s1)" by (cases "send_msg J (GetTaskResult tid) s")
  note s1 = send_msg_room [OF assms(2) w]
  obtain r s2 where r: "read_length_prefixed s1 = (r, s2)" by (cases "read_length_prefixed s1")
  with read_length_prefixed_out [of s1] have "out s2 = out s1" "room s2 = room s1" by simp_all
  with assms(1) s1 show ?thesis
    unfolding poll_round_def w prod.case r
    by (cases w; cases r) (auto simp: Let_def split: if_splits option.splits NodeMessage.splits)
qed

lemma poll_count_step:
  fixes d now t :: nat
  assumes "now \<le> t" and "t < d" and "k \<le> (d - (t + 500 + l) + 499) div 500 + 1"
  shows "Suc k \<le> (d - now + 499) div 500 + 1"
proof -
  have "d - (t + 500 + l) + 500 \<le> d - now \<or> d - (t + 500 + l) = 0" using assms(1,2) by linarith
  then show ?thesis
  proof
    assume "d - (t + 500 + l) + 500 \<le> d - now"
    then have "(d - (t + 500 + l) + 499 + 500) div 500 \<le> (d - now + 499) div 500"
      using assms(1,2) by (intro div_le_mono) linarith
    moreover have "(d - (t + 500 + l) + 499 + 500) div 500 = (d - (t + 500 + l) + 499) div 500 + 1"
      by (rule div_add_self2) simp
    ultimately show ?thesis using assms(3) by linarith
  next
    assume "d - (t + 500 + l) = 0"
    with assms have "k \<le> 1" by simp
    moreover have "500 div 500 \<le> (d - now + 499) div 500" using assms(1,2) by (intro div_le_mono) linarith
    ultimately show ?thesis by simp
  qed
qed

lemma poll_until_out:
  assumes "poll_until J P tid deadline i now s = (r, s')" and "room s = None"
  shows "\<exists>k. 0 < k \<and> k \<le> (deadline - now + 499) div 500 + 1 \<and> room s' = None
    \<and> out s' = out s @ concat (replicate k (msg_frame J (GetTaskResult tid)))"
  using assms
proof (induction J P tid deadline i now s arbitrary: r s' rule: poll_until.induct)
  case (1 J P tid deadline i now s)
  obtain p s1 where p: "poll_round J P tid deadline i now s = (p, s1)" by (cases "poll_round J P tid deadline i now s")
  note s1 = poll_round_out [OF p "1.prems"(2)]
  show ?case
  proof (cases p)
    case (Again t)
    with p "1.prems"(1) have rec: "poll_until J P tid deadline (Suc i) (t + 500 + late P i) s1 = (r, s')"
      by (simp add: poll_until.simps [of J P tid deadline i])
    have "\<exists>k. 0 < k \<and> k \<le> (deadline - (t + 500 + late P i) + 499) div 500 + 1 \<and> room s' = None
        \<and> out s' = out s1 @ concat (replicate k (msg_frame J (GetTaskResult tid)))"
      by (rule "1.IH" [OF p [symmetric] Again rec]) (simp add: s1)
    then obtain k where k: "k \<le> (deadline - (t + 500 + late P i) + 499) div 500 + 1"
      "room s' = None" "out s' = out s1 @ concat (replicate k (msg_frame J (GetTaskResult tid)))" by auto
    have "now \<le> t" "t < deadline" using poll_round_again [OF p [unfolded Again]] by simp_all
    then have "Suc k \<le> (deadline - now + 499) div 500 + 1" by (rule poll_count_step [OF _ _ k(1)])
    with k(2,3) s1 show ?thesis by (intro exI [of _ "Suc k"]) simp
  qed (use p "1.prems"(1) s1 in \<open>auto simp: poll_until.simps [of J P tid deadline i] intro!: exI [of _ "Suc 0"]\<close>)
qed


section \<open>Answers in time\<close>

fun poll_start :: "pace \<Rightarrow> nat \<Rightarrow> nat" where
  "poll_start P 0 = 0"
| "poll_start P (Suc i) = poll_start P i + lag P i + took P i + 500 + late P i"

definition poll_end :: "pace \<Rightarrow> nat \<Rightarrow> nat" where
  "poll_end P i = poll_start P i + lag P i + took P i"

definition no_result :: "NodeMessage \<Rightarrow> bool" where
  "no_result msg \<longleftrightarrow> (case msg of TaskResultMsg _ _ \<Rightarrow> False | _ \<Rightarrow> True)"

lemma poll_end_mono: "i \<le> j \<Longrightarrow> poll_end P i \<le> poll_end P j"
  by (rule lift_Suc_mono_le [of "poll_end P"]) (simp_all add: poll_end_def)

lemma poll_round_msg:
  assumes "msg_ok J (GetTaskResult tid)" and "msg_ok J msg" and "room s = None" and "inp s = msg_frame J msg @ r"
    and "poll_end P i < deadline"
  shows "poll_round J P tid deadline i (poll_start P i) s =
    ((case msg of TaskResultMsg _ result \<Rightarrow> Result result | _ \<Rightarrow> Again (poll_end P i)),
     s\<lparr>inp := r, out := out s @ msg_frame J (GetTaskResult tid)\<rparr>)"
proof -
  obtain b where b: "to_vec J msg = Some b" "fits_u32 b" "from_slice J b = Some msg"
    using assms(2) by (auto simp: msg_ok_def)
  let ?s1 = "s\<lparr>out := out s @ msg_frame J (GetTaskResult tid)\<rparr>"
  have "inp ?s1 = frame b @ r" by (simp add: assms(4) msg_frame_def b(1))
  then have rd: "read_length_prefixed ?s1 = (Inr b, ?s1\<lparr>inp := r\<rparr>)" by (rule read_length_prefixed_frame [OF b(2)])
  have times: "deadline - (poll_start P i + lag P i) \<noteq> 0"
    "\<not> deadline - (poll_start P i + lag P i) < took P i" "\<not> deadline \<le> poll_start P i + lag P i + took P i"
    using assms(5) by (simp_all add: poll_end_def)
  show ?thesis
    unfolding poll_round_def send_msg_None [OF assms(1,3)] using times
    by (simp add: rd b(3) Let_def poll_end_def split: NodeMessage.splits)
qed

lemma poll_until_answer:
  assumes "msg_ok J (GetTaskResult tid)" and "\<forall>msg \<in> set msgs. msg_ok J msg \<and> no_result msg"
    and "msg_ok J (TaskResultMsg tid' result)" and "room s = None"
    and "inp s = concat (map (msg_frame J) msgs) @ msg_frame J (TaskResultMsg tid' result) @ r"
    and "poll_end P (i + length msgs) < deadline"
  shows "poll_until J P tid deadline i (poll_start P i) s = (Inr result,
    s\<lparr>inp := r, out := out s @ concat (replicate (Suc (length msgs)) (msg_frame J (GetTaskResult tid)))\<rparr>)"
  using assms(2,4-6)
proof (induction msgs arbitrary: i s)
  case Nil
  then show ?case
    using poll_round_msg [OF assms(1,3), of s r P i deadline]
    by (simp add: poll_until.simps [of J P tid deadline i])
next
  case (Cons msg msgs)
  let ?r = "concat (map (msg_frame J) msgs) @ msg_frame J (TaskResultMsg tid' result) @ r"
  let ?s = "s\<lparr>inp := ?r, out := out s @ msg_frame J (GetTaskResult tid)\<rparr>"
  have "poll_end P i < deadline" using Cons.prems(4) poll_end_mono [of i "i + length (msg # msgs)" P] by linarith
  with Cons.prems have "poll_round J P tid deadline i (poll_start P i) s = (Again (poll_end P i), ?s)"
    by (subst poll_round_msg [OF assms(1)]) (auto simp: no_result_def split: NodeMessage.splits)
  moreover have "poll_end P i + 500 + late P i = poll_start P (Suc i)" by (simp add: poll_end_def)
  moreover have "poll_until J P tid deadline (Suc i) (poll_start P (Suc i)) ?s = (Inr result,
      ?s\<lparr>inp := r, out := out ?s @ concat (replicate (Suc (length msgs)) (msg_frame J (GetTaskResult tid)))\<rparr>)"
    by (rule Cons.IH) (use Cons.prems in simp_all)
  ultimately show ?case by (simp add: poll_until.simps [of J P tid deadline i])
qed

lemma submit_answered:
  assumes "msg_ok J (SubmitTask tid t)" and "msg_ok J (GetTaskResult tid)"
    and "\<forall>msg \<in> set msgs. msg_ok J msg \<and> no_result msg" and "msg_ok J (TaskResultMsg tid' result)"
    and "room s = None" and "fits_u32 x"
    and "inp s = frame x @ concat (map (msg_frame J) msgs) @ msg_frame J (TaskResultMsg tid' result) @ r"
    and "poll_end P (length msgs) < (case limit of None \<Rightarrow> default_timeout | Some d \<Rightarrow> d)"
  shows "submit_and_wait J P tid t limit s = (Inr result, s\<lparr>inp := r, out := out s @ msg_frame J (SubmitTask tid t)
    @ concat (replicate (Suc (length msgs)) (msg_frame J (GetTaskResult tid)))\<rparr>)"
proof -
  let ?s1 = "s\<lparr>out := out s @ msg_frame J (SubmitTask tid t)\<rparr>"
  let ?r = "concat (map (msg_frame J) msgs) @ msg_frame J (TaskResultMsg tid' result) @ r"
  have "read_length_prefixed ?s1 = (Inr x, ?s1\<lparr>inp := ?r\<rparr>)"
    by (rule read_length_prefixed_frame [OF assms(6)]) (simp add: assms(7))
  moreover have "poll_until J P tid (case limit of None \<Rightarrow> default_timeout | Some d \<Rightarrow> d) 0 (poll_start P 0) (?s1\<lparr>inp := ?r\<rparr>) =
      (Inr result, ?s1\<lparr>inp := r, out := out ?s1 @ concat (replicate (Suc (length msgs)) (msg_frame J (GetTaskResult tid)))\<rparr>)"
    using poll_until_answer [OF assms(2-4), of "?s1\<lparr>inp := ?r\<rparr>" r P 0] assms(5,8) by simp
  ultimately show ?thesis
    by (simp add: submit_and_wait_def send_msg_None [OF assms(1,5)])
qed

section \<open>Client and master\<close>

text \<open>What the master writes when it is asked for the result of a task.\<close>

definition master_answer :: "('j) mserde_scheme \<Rightarrow> string \<Rightarrow> string \<Rightarrow> MasterNode \<Rightarrow> u8 list" where
  "master_answer J addr tid m =
     out (fst (snd (process_request J (\<lambda>ks. ks) 0 addr (GetTaskResult tid) \<lparr>inp = [], out = [], room = None\<rparr> m)))"

lemma master_answer_pending:
  "hm_get (completed_tasks m) tid = None \<Longrightarrow> msg_ok J (DirectMessage ''Pending'') \<Longrightarrow>
     master_answer J addr tid m = msg_frame J (DirectMessage ''Pending'')"
  by (simp add: master_answer_def reply_def send_msg_None)

lemma master_answer_done:
  "hm_get (completed_tasks m) tid = Some r \<Longrightarrow> msg_ok J (TaskResultMsg tid r) \<Longrightarrow>
     master_answer J addr tid m = msg_frame J (TaskResultMsg tid r)"
  by (simp add: master_answer_def reply_def send_msg_None)


section \<open>Answers too late\<close>

definition late_table :: "(NodeMessage \<times> u8 list) list" where
  "late_table =
     [(SubmitTask ''a'' GetStorage, [1]), (GetTaskResult ''a'', [2]), (TaskAccepted ''a'', [3]),
      (SubmitTask ''b'' GetStorage, [4]), (GetTaskResult ''b'', [5]), (TaskAccepted ''b'', [6]), (TaskResultMsg ''b'' (Number 7), [7]),
      (SubmitTask ''c'' GetStorage, [8]), (GetTaskResult ''c'', [9]), (TaskAccepted ''c'', [10]), (DirectMessage ''Pending'', [11])]"

definition late_serde :: serde where
  "late_serde = \<lparr>to_vec = map_of late_table, from_slice = map_of (map (\<lambda>(x, y). (y, x)) late_table)\<rparr>"

definition steady :: pace where
  "steady = \<lparr>lag = (\<lambda>_. 1), took = (\<lambda>_. 1), late = (\<lambda>_. 0), partly = (\<lambda>_. 0)\<rparr>"

text \<open>Three calls on one connection, each with a deadline of 400 ms.\<close>

definition three_calls :: "u8 list \<Rightarrow> TaskResult result list \<times> u8 list" where
  "three_calls replies =
     (let (r1, s1) = submit_and_wait late_serde steady ''a'' GetStorage (Some 400) \<lparr>inp = replies, out = [], room = None\<rparr>;
          (r2, s2) = submit_and_wait late_serde steady ''b'' GetStorage (Some 400) s1;
          (r3, s3) = submit_and_wait late_serde steady ''c'' GetStorage (Some 400) s2
      in ([r1, r2, r3], out s3))"

text \<open>
  After a time-out the answers are out of step with the requests. On a connection to a master that
  answers eight requests correctly and in order, with \<open>Pending\<close> for \<open>a\<close> and \<open>c\<close> throughout, a call for
  \<open>a\<close> and one for \<open>b\<close> time out and leave an answer unread each, and the call for \<open>c\<close> returns the
  result of \<open>b\<close>: neither the acknowledgement nor the id of a result is looked at.
\<close>

theorem late_answers_mixed_up:
  "three_calls (concat (map (msg_frame late_serde)
       [TaskAccepted ''a'', DirectMessage ''Pending'', DirectMessage ''Pending'',
        TaskAccepted ''b'', DirectMessage ''Pending'', TaskResultMsg ''b'' (Number 7),
        TaskAccepted ''c'', DirectMessage ''Pending'']))
   = ([Inl timed_out, Inl timed_out, Inr (Number 7)],
      concat (map (msg_frame late_serde)
       [SubmitTask ''a'' GetStorage, GetTaskResult ''a'', GetTaskResult ''a'',
        SubmitTask ''b'' GetStorage, GetTaskResult ''b'', GetTaskResult ''b'',
        SubmitTask ''c'' GetStorage, GetTaskResult ''c'']))"
  by code_simp

section \<open>A session\<close>

lemma await_round_msg:
  assumes "msg_ok J (GetTaskResult tid)" and "msg_ok J msg" and "room s = None" and "inp s = msg_frame J msg @ r"
  shows "await_round J tid s =
    (Inr (case msg of TaskResultMsg _ result \<Rightarrow> Some result | _ \<Rightarrow> None),
     s\<lparr>inp := r, out := out s @ msg_frame J (GetTaskResult tid)\<rparr>)"
  using recv_msg_frame [OF assms(2), of "s\<lparr>out := out s @ msg_frame J (GetTaskResult tid)\<rparr>" r] assms(4)
  by (simp add: await_round_def send_msg_None [OF assms(1,3)] split: NodeMessage.splits)

text \<open>The answers to a submission and to the polls after it.\<close>

definition answers :: "('j) serde_scheme \<Rightarrow> u8 list \<Rightarrow> nat \<Rightarrow> string \<Rightarrow> TaskResult \<Rightarrow> u8 list" where
  "answers J x n tid result =
     frame x @ concat (replicate n (msg_frame J (DirectMessage ''Pending''))) @ msg_frame J (TaskResultMsg tid result)"

definition requests :: "('j) serde_scheme \<Rightarrow> string \<Rightarrow> Task \<Rightarrow> nat \<Rightarrow> u8 list" where
  "requests J tid t n = msg_frame J (SubmitTask tid t) @ concat (replicate (Suc n) (msg_frame J (GetTaskResult tid)))"

lemma await_result_answer:
  assumes "msg_ok J (GetTaskResult tid)" and "msg_ok J (DirectMessage ''Pending'')" and "msg_ok J (TaskResultMsg tid' result)"
    and "room s = None"
    and "inp s = concat (replicate n (msg_frame J (DirectMessage ''Pending''))) @ msg_frame J (TaskResultMsg tid' result) @ r"
  shows "await_result J tid s = (Inr result,
    s\<lparr>inp := r, out := out s @ concat (replicate (Suc n) (msg_frame J (GetTaskResult tid)))\<rparr>)"
  using assms(4,5)
proof (induction n arbitrary: s)
  case 0
  then show ?case using await_round_msg [OF assms(1,3), of s r] by (simp add: await_result.simps [of J tid s])
next
  case (Suc n)
  let ?r = "concat (replicate n (msg_frame J (DirectMessage ''Pending''))) @ msg_frame J (TaskResultMsg tid' result) @ r"
  let ?s = "s\<lparr>inp := ?r, out := out s @ msg_frame J (GetTaskResult tid)\<rparr>"
  have "await_round J tid s = (Inr None, ?s)"
    using await_round_msg [OF assms(1,2), of s ?r] Suc.prems by simp
  moreover have "await_result J tid ?s = (Inr result, ?s\<lparr>inp := r, out := out ?s @ concat (replicate (Suc n) (msg_frame J (GetTaskResult tid)))\<rparr>)"
    using Suc.prems by (intro Suc.IH) simp_all
  ultimately show ?case by (simp add: await_result.simps [of J tid s])
qed

lemma submit_plain_answer:
  assumes "msg_ok J (SubmitTask tid t)" and "msg_ok J (GetTaskResult tid)" and "msg_ok J (DirectMessage ''Pending'')"
    and "msg_ok J (TaskResultMsg tid' result)" and "fits_u32 x" and "room s = None" and "inp s = answers J x n tid' result @ r"
  shows "submit_plain J tid t s = (Inr result, s\<lparr>inp := r, out := out s @ requests J tid t n\<rparr>)"
proof -
  let ?s1 = "s\<lparr>out := out s @ msg_frame J (SubmitTask tid t)\<rparr>"
  let ?r = "concat (replicate n (msg_frame J (DirectMessage ''Pending''))) @ msg_frame J (TaskResultMsg tid' result) @ r"
  have "read_length_prefixed ?s1 = (Inr x, ?s1\<lparr>inp := ?r\<rparr>)"
    by (rule read_length_prefixed_frame [OF assms(5)]) (simp add: assms(7) answers_def)
  moreover have "await_result J tid (?s1\<lparr>inp := ?r\<rparr>) = (Inr result, ?s1\<lparr>inp := r, out := out ?s1 @ concat (replicate (Suc n) (msg_frame J (GetTaskResult tid)))\<rparr>)"
    using await_result_answer [OF assms(2-4), of "?s1\<lparr>inp := ?r\<rparr>" n r] assms(6) by simp
  ultimately show ?thesis by (simp add: submit_plain_def send_msg_None [OF assms(1,6)] requests_def)
qed


section \<open>Instances\<close>


definition client_table :: "(NodeMessage \<times> u8 list) list" where
  "client_table =
     [(GetConnectedNodes, [1]), (ConnectedNodes [''n1''], [2]), (DirectMessage ''Pending'', [3]),
      (SubmitTask ''0'' (Compute ''1+2''), [4]), (GetTaskResult ''0'', [5]), (TaskAccepted ''0'', [6]), (TaskResultMsg ''0'' (Number 3), [7]),
      (SubmitTask ''1'' (Compute ''3 * 3''), [8]), (GetTaskResult ''1'', [9]), (TaskAccepted ''1'', [10]), (TaskResultMsg ''1'' (Number 9), [11])]"

definition client_serde :: mserde where
  "client_serde = demo_serde\<lparr>to_vec := map_of client_table, from_slice := map_of (map (\<lambda>(x, y). (y, x)) client_table)\<rparr>"

lemma client_msg_ok:
  "msg_ok client_serde GetConnectedNodes" "msg_ok client_serde (ConnectedNodes [''n1''])" "msg_ok client_serde (DirectMessage ''Pending'')"
  "msg_ok client_serde (SubmitTask ''0'' (Compute ''1+2''))" "msg_ok client_serde (GetTaskResult ''0'')"
  "msg_ok client_serde (TaskAccepted ''0'')" "msg_ok client_serde (TaskResultMsg ''0'' (Number 3))"
  "msg_ok client_serde (SubmitTask ''1'' (Compute ''3 * 3''))" "msg_ok client_serde (GetTaskResult ''1'')"
  "msg_ok client_serde (TaskAccepted ''1'')" "msg_ok client_serde (TaskResultMsg ''1'' (Number 9))"
  by (simp_all add: msg_ok_def client_serde_def client_table_def fits_u32_def)

definition done_after :: "nat \<Rightarrow> nat \<Rightarrow> MasterNode" where
  "done_after n i = (demo_master [] [] [])\<lparr>completed_tasks := (if i < n then [] else [(''0'', Number 3)])\<rparr>"


definition demo_client :: "unit client_env" where
  "demo_client =
     \<lparr>uuid = (\<lambda>k. show_nat k), show_f64 = (\<lambda>v. show_nat (unat v)),
      here = \<lparr>eval_str = (\<lambda>_. Inl ''''), http_send = (\<lambda>_. Inl ''''), http_text = (\<lambda>_. Inl '''')\<rparr>, pace_at = (\<lambda>_. steady)\<rparr>"


end
