(* ===== verification/Cli.thy ===== *)
theory Cli
  imports Messages
begin

text \<open>
  The command lines of the two binaries (CPCluster_node/src/main.rs and CPCluster_masterNode/src/main.rs,
  the same functions in both), the paths they use, and what the \<open>main\<close> of node and client read before
  they connect. The directory of the crate, fixed when it is compiled, the environment and the parser of
  log levels are arguments.
\<close>

definition default_config_path :: "string \<Rightarrow> string" where
  "default_config_path dir = dir @ ''/config/config.json''"

definition default_join_path :: "string \<Rightarrow> string" where
  "default_join_path dir = dir @ ''/join.json''"

text \<open>The first of \<open>args\<close> is the name of the program.\<close>

definition parse_config_path :: "string \<Rightarrow> string list \<Rightarrow> string" where
  "parse_config_path dir args =
     (case find (\<lambda>arg. \<not> starts_with ''--'' arg) (tl args) of
        Some arg \<Rightarrow> arg
      | None \<Rightarrow> default_config_path dir)"

fun find_log_level :: "(string \<Rightarrow> 'l option) \<Rightarrow> bool \<Rightarrow> string list \<Rightarrow> 'l option" where
  "find_log_level parse expect_level [] = None"
| "find_log_level parse expect_level (arg # args) =
     (if expect_level then parse arg
      else case strip_prefix ''--log-level='' arg of
             Some level \<Rightarrow> parse level
           | None \<Rightarrow> find_log_level parse (arg = ''--log-level'') args)"

definition parse_log_level :: "(string \<Rightarrow> 'l option) \<Rightarrow> string list \<Rightarrow> 'l option" where
  "parse_log_level parse args = find_log_level parse False (tl args)"

definition join_path :: "string option \<Rightarrow> string \<Rightarrow> string" where
  "join_path env_join dir = (case env_join of Some p \<Rightarrow> p | None \<Rightarrow> default_join_path dir)"

definition choose_level :: "(string \<Rightarrow> 'l option) \<Rightarrow> 'l \<Rightarrow> string list \<Rightarrow> Config \<Rightarrow> 'l" where
  "choose_level parse info args cfg =
     (case parse_log_level parse args of
        Some l \<Rightarrow> l
      | None \<Rightarrow>
          (case log_level cfg of
             Some t \<Rightarrow> (case parse t of Some l \<Rightarrow> l | None \<Rightarrow> info)
           | None \<Rightarrow> info))"

text \<open>The join file, with the token of the environment in place of the one in the file.\<close>

definition read_join :: "(string \<Rightarrow> JoinInfo option) \<Rightarrow> files \<Rightarrow> string option \<Rightarrow> string \<Rightarrow> JoinInfo result" where
  "read_join parse_join fs env_token path =
     (case fs path of
        None \<Rightarrow> Inl (Io (''failed to read '' @ path))
      | Some text \<Rightarrow>
          (case parse_join text of
             None \<Rightarrow> Inl Serde
           | Some ji \<Rightarrow> Inr (case env_token of Some t \<Rightarrow> ji\<lparr>join_token := t\<rparr> | None \<Rightarrow> ji)))"

text \<open>\<open>main\<close> of the node up to \<open>run\<close>: the log level and what \<open>run\<close> is called with.\<close>

definition node_main ::
  "(string \<Rightarrow> 'l option) \<Rightarrow> 'l \<Rightarrow> (string \<Rightarrow> Config option) \<Rightarrow> (string \<Rightarrow> JoinInfo option) \<Rightarrow> files \<Rightarrow> string
     \<Rightarrow> string option \<Rightarrow> string option \<Rightarrow> string list \<Rightarrow> 'l \<times> (JoinInfo \<times> Config) result" where
  "node_main parse info parse_cfg parse_join fs dir env_join env_token args =
     (let cfg = load_or_default parse_cfg fs (parse_config_path dir args)
      in (choose_level parse info args cfg,
          case read_join parse_join fs env_token (join_path env_join dir) of
            Inl e \<Rightarrow> Inl e
          | Inr ji \<Rightarrow> Inr (ji, cfg)))"

text \<open>\<open>main\<close> of the master up to \<open>run\<close>.\<close>

definition master_main ::
  "(string \<Rightarrow> 'l option) \<Rightarrow> 'l \<Rightarrow> (string \<Rightarrow> Config option) \<Rightarrow> files \<Rightarrow> string \<Rightarrow> string option \<Rightarrow> string list
     \<Rightarrow> 'l \<times> string \<times> string" where
  "master_main parse info parse_cfg fs dir env_join args =
     (let config_path = parse_config_path dir args;
          cfg = load_or_default parse_cfg fs config_path
      in (choose_level parse info args cfg, config_path, join_path env_join dir))"

section \<open>Properties\<close>

definition is_flag :: "string \<Rightarrow> bool" where
  "is_flag arg \<longleftrightarrow> starts_with ''--'' arg"

lemma find_config:
  "\<forall>f \<in> set flags. is_flag f \<Longrightarrow> \<not> is_flag path \<Longrightarrow> parse_config_path dir (prog # flags @ path # rest) = path"
proof -
  assume flags: "\<forall>f \<in> set flags. is_flag f" and path: "\<not> is_flag path"
  have "find (\<lambda>arg. \<not> starts_with ''--'' arg) (flags @ path # rest) = Some path"
    using flags path by (induction flags) (simp_all add: is_flag_def)
  then show ?thesis by (simp add: parse_config_path_def)
qed

lemma find_level_eq:
  "\<forall>f \<in> set flags. strip_prefix ''--log-level='' f = None \<and> f \<noteq> ''--log-level'' \<Longrightarrow>
     find_log_level parse False (flags @ rest) = find_log_level parse False rest"
  by (induction flags) simp_all

lemma strip_log_level: "strip_prefix ''--log-level='' (''--log-level='' @ l) = Some l"
  by (rule strip_prefix_append)

text \<open>
  C28: the command line. After any other flags, \<open>PATH --log-level LEVEL\<close> and \<open>--log-level=LEVEL PATH\<close> set
  the level and take \<open>PATH\<close> for the configuration file; but with \<open>--log-level LEVEL PATH\<close> the level is set
  and \<open>LEVEL\<close> is taken for the configuration file, so the file the user named is not read; without an
  argument that is no flag the path is the default.
\<close>

theorem command_line_forms:
  assumes "\<forall>f \<in> set flags. is_flag f \<and> strip_prefix ''--log-level='' f = None \<and> f \<noteq> ''--log-level''"
    and "\<not> is_flag level" and "\<not> is_flag path"
  shows "parse_config_path dir (prog # flags @ (''--log-level='' @ level) # path # rest) = path
    \<and> parse_log_level parse (prog # flags @ (''--log-level='' @ level) # path # rest) = parse level
    \<and> parse_config_path dir (prog # flags @ ''--log-level'' # level # path # rest) = level
    \<and> parse_log_level parse (prog # flags @ ''--log-level'' # level # path # rest) = parse level
    \<and> parse_config_path dir (prog # flags @ path # ''--log-level'' # level # rest) = path
    \<and> parse_log_level parse (prog # flags @ path # ''--log-level'' # level # rest) = parse level
    \<and> parse_config_path dir (prog # flags) = dir @ ''/config/config.json''"
proof (intro conjI)
  have flag: "is_flag (''--log-level='' @ level)" "is_flag ''--log-level''"
    by (simp_all add: is_flag_def starts_with_def)
  have flags: "\<forall>f \<in> set flags. is_flag f" using assms(1) by blast
  have path_plain: "strip_prefix ''--log-level='' path = None \<and> path \<noteq> ''--log-level''"
  proof -
    have "strip_prefix ''--log-level='' path = Some l \<Longrightarrow> is_flag path" for l
      using flag(1) by (auto simp: strip_prefix_Some is_flag_def starts_with_def)
    with assms(3) flag(2) show ?thesis by (cases "strip_prefix ''--log-level='' path") auto
  qed
  show "parse_config_path dir (prog # flags @ (''--log-level='' @ level) # path # rest) = path"
    using find_config [of "flags @ [''--log-level='' @ level]" path dir prog rest] flags flag(1) assms(3) by simp
  show "parse_config_path dir (prog # flags @ ''--log-level'' # level # path # rest) = level"
    using find_config [of "flags @ [''--log-level'']" level dir prog "path # rest"] flags flag(2) assms(2) by simp
  show "parse_config_path dir (prog # flags) = dir @ ''/config/config.json''"
  proof -
    have "find (\<lambda>arg. \<not> starts_with ''--'' arg) flags = None"
      using flags by (simp add: find_None_iff is_flag_def)
    then show ?thesis by (simp add: parse_config_path_def default_config_path_def)
  qed
  show "parse_config_path dir (prog # flags @ path # ''--log-level'' # level # rest) = path"
    using flags assms(3) by (rule find_config)
  show "parse_log_level parse (prog # flags @ path # ''--log-level'' # level # rest) = parse level"
    using find_level_eq [of "flags @ [path]" parse "''--log-level'' # level # rest"] assms(1) path_plain
    by (simp add: parse_log_level_def)
  show "parse_log_level parse (prog # flags @ (''--log-level='' @ level) # path # rest) = parse level"
    "parse_log_level parse (prog # flags @ ''--log-level'' # level # path # rest) = parse level"
    using assms(1) by (simp_all add: parse_log_level_def find_level_eq del: append.simps)
qed

theorem command_line_forms_witness:
  "parse_config_path ''/n'' [''prog'', ''--quiet'', ''--log-level'', ''debug'', ''node.json''] = ''debug''
   \<and> parse_log_level (\<lambda>l. Some l) [''prog'', ''--quiet'', ''--log-level'', ''debug'', ''node.json''] = Some ''debug''
   \<and> parse_config_path ''/n'' [''prog'', ''--quiet'', ''--log-level=debug'', ''node.json''] = ''node.json''"
  using command_line_forms [of "[''--quiet'']" "''debug''" "''node.json''" "''/n''" "''prog''" "[]" "\<lambda>l. Some l"]
  by (simp add: is_flag_def starts_with_def)

end
