(* ===== verification/MasterRun.thy ===== *)
theory MasterRun
  imports MasterConnProps Cli IpAddr
begin

text \<open>
  The start of the master: \<open>load_or_generate_tls_config\<close> (CPCluster_masterNode/src/tls.rs), \<open>run\<close> up to
  its accept loop, and what the loop does with one connection (CPCluster_masterNode/src/lib.rs). The
  certificate libraries are the record \<open>cert_lib\<close>, the socket and the generated token are arguments.
\<close>

section \<open>TLS files\<close>

text \<open>\<open>'g\<close> is what rcgen generates, from which certificate and key are serialised.\<close>

record ('g, 'c, 'k) cert_lib =
  generate :: "string \<Rightarrow> string + 'g"
  serialize_pem :: "'g \<Rightarrow> string + string"
  serialize_key_pem :: "'g \<Rightarrow> string"
  serialize_der :: "'g \<Rightarrow> string + 'c"
  serialize_key_der :: "'g \<Rightarrow> 'k"
  parse_certs :: "string \<Rightarrow> string + 'c list"
  parse_keys :: "string \<Rightarrow> string + 'k list"
  single_cert_error :: "'c list \<Rightarrow> 'k \<Rightarrow> string option"

definition server_config :: "('g, 'c, 'k) cert_lib \<Rightarrow> 'c list \<Rightarrow> 'k \<Rightarrow> ('c list \<times> 'k) result" where
  "server_config L certs key =
     (case single_cert_error L certs key of Some e \<Rightarrow> Inl (Other e) | None \<Rightarrow> Inr (certs, key))"

definition load_tls_config :: "('g, 'c, 'k) cert_lib \<Rightarrow> string \<Rightarrow> string \<Rightarrow> ('c list \<times> 'k) result" where
  "load_tls_config L cert_text key_text =
     (case parse_certs L cert_text of
        Inl e \<Rightarrow> Inl (Io e)
      | Inr certs \<Rightarrow>
          (case parse_keys L key_text of
             Inl e \<Rightarrow> Inl (Io e)
           | Inr [] \<Rightarrow> Inl (Other ''no private key found'')
           | Inr (key # _) \<Rightarrow> server_config L certs key))"

definition generate_tls_config ::
  "('g, 'c, 'k) cert_lib \<Rightarrow> fate \<Rightarrow> fate \<Rightarrow> string \<Rightarrow> string \<Rightarrow> string \<Rightarrow> files \<Rightarrow> ('c list \<times> 'k) result \<times> files" where
  "generate_tls_config L fate1 fate2 cert_file key_file host fs =
     (case generate L host of
        Inl e \<Rightarrow> (Inl (Other e), fs)
      | Inr g \<Rightarrow>
          (case serialize_pem L g of
             Inl e \<Rightarrow> (Inl (Other e), fs)
           | Inr pem \<Rightarrow>
               (case fs_write fate1 cert_file pem fs of
                  (Inl e, fs1) \<Rightarrow> (Inl e, fs1)
                | (Inr _, fs1) \<Rightarrow>
                    (case fs_write fate2 key_file (serialize_key_pem L g) fs1 of
                       (Inl e, fs2) \<Rightarrow> (Inl e, fs2)
                     | (Inr _, fs2) \<Rightarrow>
                         (case serialize_der L g of
                            Inl e \<Rightarrow> (Inl (Other e), fs2)
                          | Inr cert_der \<Rightarrow> (server_config L [cert_der] (serialize_key_der L g), fs2))))))"

definition load_or_generate_tls_config ::
  "('g, 'c, 'k) cert_lib \<Rightarrow> fate \<Rightarrow> fate \<Rightarrow> string \<Rightarrow> string \<Rightarrow> string \<Rightarrow> files \<Rightarrow> ('c list \<times> 'k) result \<times> files" where
  "load_or_generate_tls_config L fate1 fate2 cert_file key_file host fs =
     (case (fs cert_file, fs key_file) of
        (Some cert_text, Some key_text) \<Rightarrow> (load_tls_config L cert_text key_text, fs)
      | _ \<Rightarrow> generate_tls_config L fate1 fate2 cert_file key_file host fs)"

section \<open>The start\<close>

datatype background = Peer_sync string | Shell | Cleaner u64

record ('g, 'c, 'k) master_host =
  parse_config :: "string \<Rightarrow> Config option"
  pretty_config :: "Config \<Rightarrow> string option"
  pretty_join :: "JoinInfo \<Rightarrow> string option"
  bind_listener :: "string \<Rightarrow> u16 \<Rightarrow> string option"
  certs :: "('g, 'c, 'k) cert_lib"

text \<open>The fates of the four writes: configuration, join file, certificate, key.\<close>

definition run_master ::
  "('j) mserde_scheme \<Rightarrow> ('g, 'c, 'k) master_host \<Rightarrow> fate \<times> fate \<times> fate \<times> fate \<Rightarrow> string \<Rightarrow> string \<Rightarrow> string \<Rightarrow> files
     \<Rightarrow> (MasterNode \<times> ('c list \<times> 'k) \<times> background list) result \<times> files" where
  "run_master J H fates config_path join_file token fs =
     (let (f1, f2, f3, f4) = fates
      in case start_config (parse_config H) (pretty_config H) f1 fs config_path of
           (Inl e, fs1) \<Rightarrow> (Inl e, fs1)
         | (Inr config, fs1) \<Rightarrow>
             (let join_info = join_info_of token config;
                  (ip, port) = listen_addr config
              in case pretty_join H join_info of
                   None \<Rightarrow> (Inl Serde, fs1)
                 | Some text \<Rightarrow>
                     (case fs_write f2 join_file text fs1 of
                        (Inl e, fs2) \<Rightarrow> (Inl e, fs2)
                      | (Inr _, fs2) \<Rightarrow>
                          (case bind_listener H ip port of
                             Some e \<Rightarrow> (Inl (Io e), fs2)
                           | None \<Rightarrow>
                               (let cert = (case cert_path config of Some p \<Rightarrow> p | None \<Rightarrow> ''master_cert.pem'');
                                    key = (case key_path config of Some p \<Rightarrow> p | None \<Rightarrow> ''master_key.pem'')
                                in case load_or_generate_tls_config (certs H) f3 f4 cert key ip fs2 of
                                     (Inl e, fs3) \<Rightarrow> (Inl e, fs3)
                                   | (Inr tls, fs3) \<Rightarrow>
                                       (Inr (start_master J fs3 config, tls,
                                          map Peer_sync (case peer_masters config of Some ps \<Rightarrow> ps | None \<Rightarrow> [])
                                          @ [Shell, Cleaner (cfg_failover_timeout_ms config)]), fs3))))))"

text \<open>The second entry of the crate, which takes its paths from the directory it is started in.\<close>

definition master_lib_main ::
  "('j) mserde_scheme \<Rightarrow> ('g, 'c, 'k) master_host \<Rightarrow> (string \<Rightarrow> 'l option) \<Rightarrow> 'l \<Rightarrow> fate \<times> fate \<times> fate \<times> fate \<Rightarrow> string \<Rightarrow> files
     \<Rightarrow> 'l \<times> (MasterNode \<times> ('c list \<times> 'k) \<times> background list) result \<times> files" where
  "master_lib_main J H parse info fates token fs =
     (let path = ''CPCluster_masterNode/config/config.json'';
          config = load_or_default (parse_config H) fs path
      in (choose_level parse info [] config, run_master J H fates path ''join.json'' token fs))"

text \<open>
  One accepted connection: the printed IP address of the peer decides on TLS, its socket address is the
  id of the node. A failed handshake is only logged.
\<close>

definition serve_accepted ::
  "('j) mserde_scheme \<Rightarrow> (nat \<Rightarrow> hash_order) \<Rightarrow> (nat \<Rightarrow> u64) \<Rightarrow> (sock \<Rightarrow> string + sock) \<Rightarrow> string \<Rightarrow> string \<Rightarrow> string \<Rightarrow> sock
     \<Rightarrow> MasterNode \<Rightarrow> MasterNode" where
  "serve_accepted J ords clk accept token ip addr s m =
     (if \<not> is_local_ip ip
      then (case accept s of
              Inr tls \<Rightarrow> snd (snd (handle_connection J ords clk token addr tls m))
            | Inl _ \<Rightarrow> m)
      else snd (snd (handle_connection J ords clk token addr s m)))"

section \<open>Properties\<close>

text \<open>
  C26: the TLS identity of a master survives a restart. When certificate and key were not both there,
  a start that succeeds writes both, and the next start reads them and serves the same key with the
  certificate of the file, without writing anything; provided the parsers read what the serialisers
  write.
\<close>

theorem tls_identity_kept:
  assumes "fs cert_file = None \<or> fs key_file = None" and "cert_file \<noteq> key_file"
    and "load_or_generate_tls_config L f1 f2 cert_file key_file host fs = (Inr (cs, key), fs1)"
    and "\<And>g pem. serialize_pem L g = Inr pem \<Longrightarrow> \<exists>c. parse_certs L pem = Inr [c] \<and> single_cert_error L [c] (serialize_key_der L g) = None"
    and "\<And>g. parse_keys L (serialize_key_pem L g) = Inr [serialize_key_der L g]"
  shows "\<exists>c. load_or_generate_tls_config L f3 f4 cert_file key_file host' fs1 = (Inr ([c], key), fs1)
    \<and> (\<forall>path. path \<noteq> cert_file \<and> path \<noteq> key_file \<longrightarrow> fs1 path = fs path)"
proof -
  have "generate_tls_config L f1 f2 cert_file key_file host fs = (Inr (cs, key), fs1)"
    using assms(1,3) by (auto simp: load_or_generate_tls_config_def split: option.splits)
  then obtain g pem where g: "serialize_pem L g = Inr pem" "key = serialize_key_der L g"
    "fs1 = fs(cert_file \<mapsto> pem, key_file \<mapsto> serialize_key_pem L g)"
    by (auto simp: generate_tls_config_def server_config_def fs_write_def split: sum.splits option.splits prod.splits)
  from assms(4) [OF g(1)] obtain c where "parse_certs L pem = Inr [c]" "single_cert_error L [c] key = None"
    by (auto simp: g(2))
  with g assms(2,5) have "load_or_generate_tls_config L f3 f4 cert_file key_file host' fs1 = (Inr ([c], key), fs1)"
    by (simp add: load_or_generate_tls_config_def load_tls_config_def server_config_def)
  with g(3) show ?thesis by auto
qed

theorem tls_identity_kept_witness:
  "let L = \<lparr>generate = (\<lambda>h. Inr (5 :: nat)), serialize_pem = (\<lambda>g. Inr ''C''), serialize_key_pem = show_nat,
            serialize_der = (\<lambda>g. Inr (0 :: nat)), serialize_key_der = (\<lambda>g. g), parse_certs = (\<lambda>_. Inr [1]),
            parse_keys = (\<lambda>t. case read_decimal 0 t of None \<Rightarrow> Inl '''' | Some n \<Rightarrow> Inr [n]), single_cert_error = (\<lambda>_ _. None)\<rparr>;
       fs1 = snd (load_or_generate_tls_config L None None ''c.pem'' ''k.pem'' ''h'' [''k.pem'' \<mapsto> ''7''])
   in \<exists>c. load_or_generate_tls_config L None None ''c.pem'' ''k.pem'' ''h'' fs1 = (Inr ([c], 5), fs1)"
proof -
  let ?L = "\<lparr>generate = (\<lambda>h. Inr (5 :: nat)), serialize_pem = (\<lambda>g. Inr ''C''), serialize_key_pem = show_nat,
            serialize_der = (\<lambda>g. Inr (0 :: nat)), serialize_key_der = (\<lambda>g. g), parse_certs = (\<lambda>_. Inr [1]),
            parse_keys = (\<lambda>t. case read_decimal 0 t of None \<Rightarrow> Inl '''' | Some n \<Rightarrow> Inr [n]), single_cert_error = (\<lambda>_ _. None)\<rparr>"
  let ?fs1 = "[''k.pem'' \<mapsto> show_nat 5, ''c.pem'' \<mapsto> ''C'']"
  have first: "load_or_generate_tls_config ?L None None ''c.pem'' ''k.pem'' ''h'' [''k.pem'' \<mapsto> ''7''] = (Inr ([0], 5), ?fs1)"
    by (simp add: load_or_generate_tls_config_def generate_tls_config_def server_config_def fs_write_def fun_upd_twist)
  have "\<exists>c. load_or_generate_tls_config ?L None None ''c.pem'' ''k.pem'' ''h'' ?fs1 = (Inr ([c], 5), ?fs1)"
    using tls_identity_kept [OF _ _ first, where ?f3.0 = None and ?f4.0 = None and host' = "''h''"]
    by (simp add: read_decimal_show_nat)
  then show ?thesis unfolding Let_def first snd_conv .
qed

lemma fs_write_ok: "fs_write fate path data fs = (Inr u, fs') \<longleftrightarrow> fate = None \<and> fs' = fs(path \<mapsto> data)"
  by (auto simp: fs_write_def split: option.splits)

lemma tls_files_only:
  assumes "load_or_generate_tls_config L f1 f2 cert_file key_file host fs = (Inr tls, fs1)"
  shows "fs1 path = fs path \<or> path \<in> {cert_file, key_file}"
  using assms by (auto simp: load_or_generate_tls_config_def generate_tls_config_def fs_write_ok
      split: option.splits sum.splits prod.splits if_splits)

lemma start_config_ok:
  assumes "start_config parse pretty fate fs path = (Inr c, fs1)"
  shows "c = load_or_default parse fs path \<and> (\<exists>text. pretty c = Some text \<and> fs1 = fs(path \<mapsto> text))"
  using assms by (auto simp: start_config_def Config_save_def Let_def fs_write_ok split: option.splits sum.splits prod.splits)

text \<open>The course of a start that succeeds.\<close>

lemma run_master_ok:
  assumes "run_master J H fates config_path join_file token fs = (Inr (m, tls, jobs), fs3)"
  defines "cfg \<equiv> load_or_default (parse_config H) fs config_path"
  obtains ctext join_text where "pretty_config H cfg = Some ctext" "pretty_join H (join_info_of token cfg) = Some join_text"
    and "m = start_master J fs3 cfg"
    and "\<And>path. path \<notin> {case cert_path cfg of Some p \<Rightarrow> p | None \<Rightarrow> ''master_cert.pem'',
          case key_path cfg of Some p \<Rightarrow> p | None \<Rightarrow> ''master_key.pem''} \<Longrightarrow>
        fs3 path = (fs(config_path \<mapsto> ctext, join_file \<mapsto> join_text)) path"
proof -
  obtain f1 f2 f3 f4 where f: "fates = (f1, f2, f3, f4)" by (cases fates)
  obtain ip port where lis: "listen_addr cfg = (ip, port)" by (cases "listen_addr cfg")
  obtain c fs1 where sc: "start_config (parse_config H) (pretty_config H) f1 fs config_path = (Inr c, fs1)"
    using assms(1) by (auto simp: run_master_def f split: sum.splits prod.splits)
  from start_config_ok [OF sc] obtain ctext where c: "c = cfg" "pretty_config H cfg = Some ctext" "fs1 = fs(config_path \<mapsto> ctext)"
    by (auto simp: cfg_def)
  obtain join_text where j: "pretty_join H (join_info_of token cfg) = Some join_text"
    using assms(1) by (auto simp: run_master_def f sc c(1) lis Let_def split: option.splits)
  let ?cert = "case cert_path cfg of Some p \<Rightarrow> p | None \<Rightarrow> ''master_cert.pem''"
    and ?key = "case key_path cfg of Some p \<Rightarrow> p | None \<Rightarrow> ''master_key.pem''"
  have "load_or_generate_tls_config (certs H) f3 f4 ?cert ?key ip (fs1(join_file \<mapsto> join_text)) = (Inr tls, fs3)
      \<and> m = start_master J fs3 cfg"
    using assms(1) by (auto simp: run_master_def f sc c(1) lis j Let_def fs_write_ok split: option.splits sum.splits prod.splits)
  with tls_files_only [of "certs H" f3 f4 ?cert ?key ip "fs1(join_file \<mapsto> join_text)" tls fs3] c(2,3) j that
  show thesis by blast
qed


definition run_config :: Config where
  "run_config = Config_default\<lparr>master_addresses := [''10.0.0.1:7''], min_port := 1, max_port := 2\<rparr>"

definition demo_host :: "(nat, nat, nat) master_host" where
  "demo_host =
     \<lparr>parse_config = (\<lambda>t. if t = ''cfg'' then Some run_config else None),
      pretty_config = (\<lambda>c. if c = run_config then Some ''cfg'' else None),
      pretty_join = (\<lambda>ji. if ji = \<lparr>join_token = ''t'', join_ip = ''10.0.0.1'', join_port = 7\<rparr> then Some ''join'' else None),
      bind_listener = (\<lambda>_ _. None),
      certs = \<lparr>generate = (\<lambda>h. Inr 5), serialize_pem = (\<lambda>g. Inr ''C''), serialize_key_pem = (\<lambda>g. ''K''),
        serialize_der = (\<lambda>g. Inr 0), serialize_key_der = (\<lambda>g. g), parse_certs = (\<lambda>_. Inr [1]),
        parse_keys = (\<lambda>_. Inr [5]), single_cert_error = (\<lambda>_ _. None)\<rparr>\<rparr>"


end
