(* ===== verification/Spec2Isabelle.thy ===== *)
theory Spec2Isabelle
  imports MasterShellProps MasterPeerProps Cluster ClientProps MasterRun
begin

text \<open>
  CPCluster: the master of the cluster, its protocol and its shell.
\<close>

end
